theory Spec2Isabelle
  imports Main "HOL-Library.Word"
begin

section \<open>The chain porter of tapfreighter (chain\_porter.go)\<close>

text \<open>
  A shallow embedding of the send state machine of the \<^verbatim>\<open>ChainPorter\<close>. The porter
  talks to its collaborators (asset wallet, chain bridge, export log, wallet, key ring,
  proof archive, proof courier) through interfaces; here every call of an interface
  method that has an effect is appended to a trace of events, and the answer of the
  collaborator is read from the porter's configuration as a function of the trace so far
  and of the arguments. The porter's own code is translated function by function.
\<close>

subsection \<open>Errors\<close>

text \<open>
  A Go \<^verbatim>\<open>error\<close> value: a plain message, an error wrapped by
  \<^verbatim>\<open>fmt.Errorf("...: %w", err)\<close>, or the courier's \<^verbatim>\<open>*proof.BackoffExecError\<close>.
  \<open>Panic\<close> is not an error value of Go: it stands for a run-time panic (nil
  dereference, index out of range), which unwinds through every caller unchanged.
\<close>

datatype error =
    Err string
  | Wrap string error
  | BackoffExecError error
  | Panic string

fun Error :: "error \<Rightarrow> string" where
  "Error (Err m) = m"
| "Error (Wrap p e) = p @ Error e"
| "Error (BackoffExecError e) = ''backoff exec error: '' @ Error e"
| "Error (Panic m) = m"

text \<open>\<^verbatim>\<open>fmt.Errorf(p + "%w", err)\<close>: keeps the chain; a panic is not caught.\<close>

fun Errorf_w :: "string \<Rightarrow> error \<Rightarrow> error" where
  "Errorf_w p (Panic m) = Panic m"
| "Errorf_w p e = Wrap p e"

text \<open>\<^verbatim>\<open>fmt.Errorf(p + "%v", err)\<close>: only the message survives.\<close>

fun Errorf_v :: "string \<Rightarrow> error \<Rightarrow> error" where
  "Errorf_v p (Panic m) = Panic m"
| "Errorf_v p e = Err (p @ Error e)"

text \<open>\<^verbatim>\<open>errors.As(err, &backoffExecErr)\<close>: some error of the chain is a backoff error.\<close>

fun errors_As_BackoffExecError :: "error \<Rightarrow> bool" where
  "errors_As_BackoffExecError (BackoffExecError e) = True"
| "errors_As_BackoffExecError (Wrap p e) = errors_As_BackoffExecError e"
| "errors_As_BackoffExecError (Err m) = False"
| "errors_As_BackoffExecError (Panic m) = False"

fun isPanic :: "error \<Rightarrow> bool" where
  "isPanic (Panic m) = True"
| "isPanic (Err m) = False"
| "isPanic (Wrap p e) = False"
| "isPanic (BackoffExecError e) = False"

text \<open>\<^verbatim>\<open>strings.HasPrefix\<close> and \<^verbatim>\<open>strings.Contains\<close> of the Go library.\<close>

fun strings_HasPrefix :: "string \<Rightarrow> string \<Rightarrow> bool" where
  "strings_HasPrefix s [] = True"
| "strings_HasPrefix [] (c # cs) = False"
| "strings_HasPrefix (d # ds) (c # cs) = (d = c \<and> strings_HasPrefix ds cs)"

fun strings_Contains :: "string \<Rightarrow> string \<Rightarrow> bool" where
  "strings_Contains [] sub = (sub = [])"
| "strings_Contains (d # ds) sub = (strings_HasPrefix (d # ds) sub \<or> strings_Contains ds sub)"

subsection \<open>Data\<close>

text \<open>
  Keys, asset ids, hashes and scripts are values of external libraries; only their
  identity matters here. A \<^verbatim>\<open>*btcec.PublicKey\<close> is modelled by the key itself, and
  \<^verbatim>\<open>asset.SerializedKey\<close> by its 33 bytes as a string.
\<close>

type_synonym PublicKey = string
type_synonym SerializedKey = string
type_synonym AssetID = string
type_synonym Hash = string
type_synonym bytes = string
type_synonym KeyDescriptor = string
type_synonym uint32 = "32 word"

text \<open>\<^verbatim>\<open>wire.TxOut\<close>, \<^verbatim>\<open>wire.MsgTx\<close> (its \<^verbatim>\<open>TxHash()\<close> is the field \<open>TxHash\<close>).\<close>

record TxOut =
  Value :: int
  PkScript :: bytes

record MsgTx =
  TxHash :: Hash
  TxOuts :: "TxOut list"

text \<open>\<^verbatim>\<open>chainntnfs.TxConfirmation\<close>.\<close>

record TxConfirmation =
  conf_BlockHash :: Hash
  conf_BlockHeight :: uint32
  conf_TxIndex :: uint32
  conf_Tx :: MsgTx
  conf_Block :: string

text \<open>\<^verbatim>\<open>proof.BaseProofParams\<close>, as far as \<^verbatim>\<open>storeProofs\<close> fills it.\<close>

record BaseProofParams =
  bp_Block :: string
  bp_Tx :: MsgTx
  bp_TxIndex :: int

text \<open>
  \<^verbatim>\<open>proof.Proof\<close> and \<^verbatim>\<open>proof.File\<close>. A proof names the script key of its asset
  (\<^verbatim>\<open>Asset.ScriptKey.PubKey\<close>), carries the chain data of its anchor transaction once
  \<^verbatim>\<open>UpdateTransitionProof\<close> has stamped it, and a list of proof files of additional
  inputs; a file is the list of its proofs, oldest first.
\<close>

datatype Proof =
  Proof (proof_ScriptKey: PublicKey) (proof_ChainData: "BaseProofParams option")
        (AdditionalInputs: "Proof list list")

type_synonym File = "Proof list"

text \<open>
  A serialised proof or proof file (\<^verbatim>\<open>proof.Blob\<close>, \<^verbatim>\<open>[]byte\<close>): the encoding of a
  file, the encoding of a single proof, or bytes that decode to neither.
\<close>

datatype Blob = FileBlob File | ProofBlob Proof | RawBlob bytes

record Locator =
  loc_AssetID :: AssetID
  loc_ScriptKey :: PublicKey

record AnnotatedProof =
  Locator :: Locator
  Blob :: Blob

record Recipient =
  rcpt_ScriptKey :: PublicKey
  rcpt_AssetID :: AssetID
  rcpt_Amount :: nat

text \<open>\<^verbatim>\<open>asset.ScriptKey\<close>: the public key and the optional tweak information.\<close>

record TweakedScriptKey =
  RawKey :: KeyDescriptor
  Tweak :: bytes

record ScriptKey =
  PubKey :: PublicKey
  Tweaked :: "TweakedScriptKey option"

datatype VOutputType = TypeSimple | TypeSplitRoot | TypePassiveAssetsOnly

record TransferInput =
  in_ID :: AssetID
  in_ScriptKey :: SerializedKey

record TransferOutput =
  out_AnchorIndex :: uint32
  out_Type :: VOutputType
  out_ScriptKey :: ScriptKey
  ScriptKeyLocal :: bool
  out_Amount :: nat
  ProofSuffix :: Blob

record VOutput =
  vout_Type :: VOutputType
  vout_ScriptKey :: ScriptKey

record VPacket =
  vp_Outputs :: "VOutput list"
  vp_Witnessed :: bool

record PassiveAssetReAnchor =
  pa_VPacket :: VPacket
  pa_GenesisID :: AssetID
  pa_ScriptKey :: ScriptKey
  NewProof :: Proof

record OutboundParcel =
  op_AnchorTx :: MsgTx
  AnchorTxHeightHint :: uint32
  Inputs :: "TransferInput list"
  Outputs :: "TransferOutput list"
  op_PassiveAssets :: "PassiveAssetReAnchor list"

text \<open>\<^verbatim>\<open>AssetConfirmEvent\<close>, the argument of \<^verbatim>\<open>ConfirmParcelDelivery\<close>.\<close>

record AssetConfirmEvent =
  AnchorTXID :: Hash
  ace_BlockHash :: Hash
  ace_BlockHeight :: int
  ace_TxIndex :: int
  ace_FinalProofs :: "(SerializedKey \<times> AnnotatedProof) list"
  PassiveAssetProofFiles :: "(Locator \<times> Blob) list"

text \<open>
  Modelled from the spec: the send states and their order
  (section 4.3: \<open>VirtualCommitmentSelect\<close>, \<open>VirtualSign\<close>, \<open>AnchorSign\<close>, \<open>LogCommit\<close>,
  \<open>Broadcast\<close>, \<open>WaitTxConf\<close>, \<open>StoreProofs\<close>, \<open>ReceiverProofTransfer\<close>, \<open>Complete\<close>).
  The type \<^verbatim>\<open>SendState\<close> and its constants are declared outside chain\_porter.go; the
  code compares states with \<^verbatim>\<open><\<close> and has a default branch for values that are none
  of these, so a state is a number and the constants are numbered from 0.
\<close>

type_synonym SendState = nat

abbreviation (input) SendStateVirtualCommitmentSelect :: SendState where
  "SendStateVirtualCommitmentSelect \<equiv> 0"
abbreviation (input) SendStateVirtualSign :: SendState where
  "SendStateVirtualSign \<equiv> 1"
abbreviation (input) SendStateAnchorSign :: SendState where
  "SendStateAnchorSign \<equiv> 2"
abbreviation (input) SendStateLogCommit :: SendState where
  "SendStateLogCommit \<equiv> 3"
abbreviation (input) SendStateBroadcast :: SendState where
  "SendStateBroadcast \<equiv> 4"
abbreviation (input) SendStateWaitTxConf :: SendState where
  "SendStateWaitTxConf \<equiv> 5"
abbreviation (input) SendStateStoreProofs :: SendState where
  "SendStateStoreProofs \<equiv> 6"
abbreviation (input) SendStateReceiverProofTransfer :: SendState where
  "SendStateReceiverProofTransfer \<equiv> 7"
abbreviation (input) SendStateComplete :: SendState where
  "SendStateComplete \<equiv> 8"

text \<open>The parcel of a request: only an address parcel carries destination addresses.\<close>

datatype Parcel = AddressParcel (destAddrs: "string list") | PreSignedParcel

text \<open>
  \<^verbatim>\<open>sendPackage\<close>. Pointers that the code dereferences and that are nil on some path
  into the state machine are options. \<open>FinalProofs\<close> is a Go map; the code ranges over
  it, so it is an association list with distinct keys.
\<close>

record sendPackage =
  SendState :: SendState
  Parcel :: "Parcel option"
  VirtualPacket :: "VPacket option"
  InputCommitments :: "string list"
  PassiveAssets :: "PassiveAssetReAnchor list"
  AnchorTx :: "string option"
  OutboundPkg :: "OutboundParcel option"
  TransferTxConfEvent :: "TxConfirmation option"
  FinalProofs :: "(SerializedKey \<times> AnnotatedProof) list"

text \<open>A Go map assignment \<^verbatim>\<open>m[k] = v\<close> on an association list.\<close>

fun mapPut :: "'k \<Rightarrow> 'v \<Rightarrow> ('k \<times> 'v) list \<Rightarrow> ('k \<times> 'v) list" where
  "mapPut k v [] = [(k, v)]"
| "mapPut k v ((k', v') # m) = (if k' = k then (k, v) # m else (k', v') # mapPut k v m)"

subsection \<open>Events and collaborators\<close>

datatype event =
    EvExecuteSendState SendState
  | EvFundAddressSend "string list"
  | EvSignVirtualPacket VPacket
  | EvSignPassiveAssets VPacket
  | EvAnchorVirtualTransactions VPacket
  | EvLogPendingParcel OutboundParcel "error option"
  | EvImportTaprootOutput PublicKey
  | EvPublishTransaction MsgTx
  | EvDeliverTxBroadcastResp
  | EvRegisterConfirmationsNtfn Hash bytes uint32
  | EvFetchProof Locator
  | EvImportProofs "AnnotatedProof list"
  | EvDeliverProof Recipient AnnotatedProof
  | EvConfirmParcelDelivery AssetConfirmEvent
  | EvErrChan error

type_synonym trace = "event list"

text \<open>Which case of the \<^verbatim>\<open>select\<close> in \<^verbatim>\<open>waitForTransferTxConf\<close> fires.\<close>

datatype ConfSelect =
    SelConfirmed "TxConfirmation option"
  | SelErrChan error
  | SelCtxDone
  | SelQuit

record FundAddressSendResult =
  fund_VPacket :: VPacket
  fund_InputCommitments :: "string list"

record AssetWallet_iface =
  FundAddressSend :: "trace \<Rightarrow> string list \<Rightarrow> error + FundAddressSendResult"
  SignVirtualPacket :: "trace \<Rightarrow> VPacket \<Rightarrow> error + VPacket"
  SignPassiveAssets :: "trace \<Rightarrow> VPacket \<Rightarrow> string list \<Rightarrow> error + PassiveAssetReAnchor list"
  AnchorVirtualTransactions ::
    "trace \<Rightarrow> nat \<Rightarrow> VPacket \<Rightarrow> string list \<Rightarrow> VPacket list \<Rightarrow> error + string"

record ChainBridge_iface =
  EstimateFee :: "trace \<Rightarrow> error + nat"
  CurrentHeight :: "trace \<Rightarrow> error + uint32"
  PublishTransaction :: "trace \<Rightarrow> MsgTx \<Rightarrow> error option"
  RegisterConfirmationsNtfn :: "trace \<Rightarrow> Hash \<Rightarrow> bytes \<Rightarrow> uint32 \<Rightarrow> error option"
  ConfirmationSelect :: "trace \<Rightarrow> ConfSelect"

record ExportLog_iface =
  LogPendingParcel :: "trace \<Rightarrow> OutboundParcel \<Rightarrow> error option"
  ConfirmParcelDelivery :: "trace \<Rightarrow> AssetConfirmEvent \<Rightarrow> error option"

record Archiver_iface =
  FetchProof :: "trace \<Rightarrow> Locator \<Rightarrow> error + Blob"
  ImportProofs :: "trace \<Rightarrow> AnnotatedProof list \<Rightarrow> error option"

record Courier_iface =
  DeliverProof :: "trace \<Rightarrow> Recipient \<Rightarrow> AnnotatedProof \<Rightarrow> error option"

text \<open>
  Functions of other packages that chain\_porter.go calls and whose failure it handles:
  what they compute on success is modelled below, when they fail is a parameter.
\<close>

record Packages =
  btcec_ParsePubKey :: "SerializedKey \<Rightarrow> error + PublicKey"
  txscript_ExtractWitnessProgramInfo :: "bytes \<Rightarrow> error + bytes"
  schnorr_ParsePubKey :: "bytes \<Rightarrow> error + PublicKey"
  UpdateTransitionProof_err :: "Proof \<Rightarrow> BaseProofParams \<Rightarrow> error option"
  AppendProof_err :: "File \<Rightarrow> Proof \<Rightarrow> error option"
  Encode_err :: "File \<Rightarrow> error option"
  FirstNonSplitRootOutput :: "VPacket \<Rightarrow> error + VOutput"
  prepareForStorage :: "sendPackage \<Rightarrow> uint32 \<Rightarrow> error + OutboundParcel"

text \<open>\<^verbatim>\<open>ChainPorterConfig\<close>: the collaborators that chain\_porter.go calls.\<close>

record ChainPorterConfig =
  ExportLog :: ExportLog_iface
  ChainBridge :: ChainBridge_iface
  Wallet_ImportTaprootOutput :: "trace \<Rightarrow> PublicKey \<Rightarrow> error option"
  KeyRing_IsLocalKey :: "trace \<Rightarrow> KeyDescriptor \<Rightarrow> bool"
  AssetWallet :: AssetWallet_iface
  AssetProofs :: Archiver_iface
  ProofCourier :: "Courier_iface option"

text \<open>
  \<^verbatim>\<open>ChainPorter\<close>: the configuration, the \<^verbatim>\<open>Quit\<close> channel of its context guard
  (whether \<^verbatim>\<open>Stop\<close> has closed it by the time the trace has grown this far), and the
  packages it links against.
\<close>

record ChainPorter =
  cfg :: ChainPorterConfig
  Quit :: "trace \<Rightarrow> bool"
  pkgs :: Packages

text \<open>
  The state outside the send package: the trace of calls made so far; whether \<^verbatim>\<open>Quit\<close>
  has been seen closed (a closed channel stays closed); and \<open>stateLog\<close>, a history
  variable that records every value the code assigns to a \<^verbatim>\<open>SendState\<close> field, in
  order. No function reads \<open>stateLog\<close>.
\<close>

record world =
  trace :: trace
  quitSeen :: bool
  stateLog :: "SendState list"

definition emit :: "event \<Rightarrow> world \<Rightarrow> world" where
  "emit ev w = w\<lparr>trace := trace w @ [ev]\<rparr>"

text \<open>The assignment \<^verbatim>\<open>pkg.SendState = s\<close>.\<close>

definition setSendState :: "SendState \<Rightarrow> world \<times> sendPackage \<Rightarrow> world \<times> sendPackage" where
  "setSendState s wp =
     ((fst wp)\<lparr>stateLog := stateLog (fst wp) @ [s]\<rparr>, (snd wp)\<lparr>SendState := s\<rparr>)"

text \<open>A receive from \<^verbatim>\<open>p.Quit\<close> that does not block: is the channel closed?\<close>

definition quitClosed :: "ChainPorter \<Rightarrow> world \<Rightarrow> bool" where
  "quitClosed p w = (quitSeen w \<or> Quit p (trace w))"

subsection \<open>waitForTransferTxConf\<close>

text \<open>
  Lines 248-292. The log line of the confirmation case evaluates
  \<^verbatim>\<open>confEvent.Tx.TxHash()\<close>, which panics on a nil event. The context-done case falls
  out of the \<^verbatim>\<open>select\<close> with \<^verbatim>\<open>confEvent\<close> still nil and reaches the check after
  it; the quit case returns nil at once.
\<close>

definition waitForTransferTxConf ::
  "ChainPorter \<Rightarrow> world \<Rightarrow> sendPackage \<Rightarrow> world \<times> sendPackage \<times> error option" where
  "waitForTransferTxConf p w pkg =
    (case OutboundPkg pkg of
       None \<Rightarrow> (w, pkg, Some (Panic ''nil pointer dereference''))
     | Some outboundPkg \<Rightarrow>
       (case TxOuts (op_AnchorTx outboundPkg) of
          [] \<Rightarrow> (w, pkg, Some (Panic ''index out of range''))
        | txOut0 # _ \<Rightarrow>
          (let txHash = TxHash (op_AnchorTx outboundPkg);
               w1 = emit (EvRegisterConfirmationsNtfn txHash (PkScript txOut0)
                            (AnchorTxHeightHint outboundPkg)) w
           in case RegisterConfirmationsNtfn (ChainBridge (cfg p)) (trace w) txHash
                     (PkScript txOut0) (AnchorTxHeightHint outboundPkg) of
                Some err \<Rightarrow>
                  (w1, pkg, Some (Errorf_w ''unable to register for package tx conf: '' err))
              | None \<Rightarrow>
                (case ConfirmationSelect (ChainBridge (cfg p)) (trace w1) of
                   SelConfirmed None \<Rightarrow> (w1, pkg, Some (Panic ''nil pointer dereference''))
                 | SelConfirmed (Some confEvent) \<Rightarrow>
                     (case setSendState SendStateStoreProofs
                             (w1, pkg\<lparr>TransferTxConfEvent := Some confEvent\<rparr>) of
                        (w2, pkg2) \<Rightarrow> (w2, pkg2, None))
                 | SelErrChan err \<Rightarrow>
                     (w1, pkg, Some (Errorf_w
                        ''error whilst waiting for package tx confirmation: '' err))
                 | SelCtxDone \<Rightarrow>
                     (w1, pkg, Some (Err ''got empty package tx confirmation event in batch''))
                 | SelQuit \<Rightarrow> (w1\<lparr>quitSeen := True\<rparr>, pkg, None)))))"

subsection \<open>importLocalAddresses\<close>

text \<open>
  Lines 643-691. The loop over \<^verbatim>\<open>parcel.Outputs\<close> is the recursion over the list; an
  import error whose message contains \<^verbatim>\<open>already exists\<close> breaks out of the
  \<^verbatim>\<open>switch\<close> like a nil error, every other error is returned.
\<close>

fun importLocalAddresses_loop ::
  "ChainPorter \<Rightarrow> OutboundParcel \<Rightarrow> TransferOutput list \<Rightarrow> world \<Rightarrow> world \<times> error option" where
  "importLocalAddresses_loop p parcel [] w = (w, None)"
| "importLocalAddresses_loop p parcel (out # outs) w =
    (if \<not> ScriptKeyLocal out then importLocalAddresses_loop p parcel outs w
     else
       (let anchorOutputIndex = unat (out_AnchorIndex out) in
        if length (TxOuts (op_AnchorTx parcel)) \<le> anchorOutputIndex
        then (w, Some (Panic ''index out of range''))
        else
          (case txscript_ExtractWitnessProgramInfo (pkgs p)
                  (PkScript (TxOuts (op_AnchorTx parcel) ! anchorOutputIndex)) of
             Inl err \<Rightarrow> (w, Some err)
           | Inr witProgram \<Rightarrow>
             (case schnorr_ParsePubKey (pkgs p) witProgram of
                Inl err \<Rightarrow> (w, Some err)
              | Inr anchorOutputKey \<Rightarrow>
                (let w1 = emit (EvImportTaprootOutput anchorOutputKey) w in
                 case Wallet_ImportTaprootOutput (cfg p) (trace w) anchorOutputKey of
                   None \<Rightarrow> importLocalAddresses_loop p parcel outs w1
                 | Some err \<Rightarrow>
                     if strings_Contains (Error err) ''already exists''
                     then importLocalAddresses_loop p parcel outs w1
                     else (w1, Some err))))))"

definition importLocalAddresses ::
  "ChainPorter \<Rightarrow> OutboundParcel option \<Rightarrow> world \<Rightarrow> world \<times> error option" where
  "importLocalAddresses p parcel w =
    (case parcel of
       None \<Rightarrow> (w, Some (Panic ''nil pointer dereference''))
     | Some pc \<Rightarrow> importLocalAddresses_loop p pc (Outputs pc) w)"

subsection \<open>Proof files\<close>

text \<open>
  Modelled from the spec: the operations of the proof package that chain\_porter.go calls
  (\<^verbatim>\<open>File.Decode\<close>, \<^verbatim>\<open>Proof.Decode\<close>, \<^verbatim>\<open>Proof.UpdateTransitionProof\<close>,
  \<^verbatim>\<open>File.AppendProof\<close>, \<^verbatim>\<open>File.Encode\<close>) are not part of chain\_porter.go. The spec
  describes a proof file as an ordered, append-only sequence of transition proofs, a
  suffix as one new transition proof appended to a file, and the update as stamping the
  proof with \<open>(block, tx, tx_index)\<close>. Decoding inverts encoding. When one of them fails
  is left to the parameters of \<open>Packages\<close>.
\<close>

definition File_Decode :: "Blob \<Rightarrow> error + File" where
  "File_Decode b = (case b of FileBlob f \<Rightarrow> Inr f | _ \<Rightarrow> Inl (Err ''invalid proof file''))"

definition Proof_Decode :: "Blob \<Rightarrow> error + Proof" where
  "Proof_Decode b = (case b of ProofBlob pr \<Rightarrow> Inr pr | _ \<Rightarrow> Inl (Err ''invalid proof''))"

definition UpdateTransitionProof :: "Packages \<Rightarrow> Proof \<Rightarrow> BaseProofParams \<Rightarrow> error + Proof" where
  "UpdateTransitionProof pk pr params =
    (case UpdateTransitionProof_err pk pr params of
       Some err \<Rightarrow> Inl err
     | None \<Rightarrow> Inr (Proof (proof_ScriptKey pr) (Some params) (AdditionalInputs pr)))"

definition AppendProof :: "Packages \<Rightarrow> File \<Rightarrow> Proof \<Rightarrow> error + File" where
  "AppendProof pk f pr =
    (case AppendProof_err pk f pr of Some err \<Rightarrow> Inl err | None \<Rightarrow> Inr (f @ [pr]))"

definition File_Encode :: "Packages \<Rightarrow> File \<Rightarrow> error + Blob" where
  "File_Encode pk f = (case Encode_err pk f of Some err \<Rightarrow> Inl err | None \<Rightarrow> Inr (FileBlob f))"

text \<open>\<^verbatim>\<open>asset.ToSerialized\<close>: the compressed serialisation of a key.\<close>

definition ToSerialized :: "PublicKey \<Rightarrow> SerializedKey" where
  "ToSerialized k = k"

text \<open>The chain data that lines 376-380 and 501-505 build from the confirmation event.\<close>

definition confParams :: "TxConfirmation \<Rightarrow> BaseProofParams" where
  "confParams confEvent =
     \<lparr>bp_Block = conf_Block confEvent, bp_Tx = conf_Tx confEvent,
      bp_TxIndex = uint (conf_TxIndex confEvent)\<rparr>"

subsection \<open>fetchInputProof and updateAssetProofFile\<close>

text \<open>Lines 452-476.\<close>

definition fetchInputProof :: "ChainPorter \<Rightarrow> world \<Rightarrow> TransferInput \<Rightarrow> world \<times> (error + File)" where
  "fetchInputProof p w input =
    (case btcec_ParsePubKey (pkgs p) (in_ScriptKey input) of
       Inl err \<Rightarrow> (w, Inl (Errorf_w ''error parsing script key: '' err))
     | Inr scriptKey \<Rightarrow>
       (let inputProofLocator = \<lparr>loc_AssetID = in_ID input, loc_ScriptKey = scriptKey\<rparr>;
            w1 = emit (EvFetchProof inputProofLocator) w
        in case FetchProof (AssetProofs (cfg p)) (trace w) inputProofLocator of
             Inl err \<Rightarrow> (w1, Inl (Errorf_w ''error fetching input proof: '' err))
           | Inr inputProofBytes \<Rightarrow>
             (case File_Decode inputProofBytes of
                Inl err \<Rightarrow> (w1, Inl (Errorf_w ''error decoding input proof: '' err))
              | Inr inputProofFile \<Rightarrow> (w1, Inr inputProofFile))))"

text \<open>
  Lines 480-529. \<^verbatim>\<open>newProof\<close> is a pointer and is updated in place: the function
  returns the annotated proof file together with the updated proof.
\<close>

definition updateAssetProofFile ::
  "ChainPorter \<Rightarrow> world \<Rightarrow> AssetID \<Rightarrow> PublicKey \<Rightarrow> TxConfirmation option \<Rightarrow> Proof
     \<Rightarrow> world \<times> (error + AnnotatedProof \<times> Proof)" where
  "updateAssetProofFile p w assetID scriptKeyPub confEvent newProof =
    (let locator = \<lparr>loc_AssetID = assetID, loc_ScriptKey = scriptKeyPub\<rparr>;
         w1 = emit (EvFetchProof locator) w
     in case FetchProof (AssetProofs (cfg p)) (trace w) locator of
          Inl err \<Rightarrow> (w1, Inl (Errorf_w ''error fetching proof: '' err))
        | Inr currentProofFileBlob \<Rightarrow>
          (case File_Decode currentProofFileBlob of
             Inl err \<Rightarrow> (w1, Inl (Errorf_w ''error decoding proof file: '' err))
           | Inr currentProofFile \<Rightarrow>
             (case confEvent of
                None \<Rightarrow> (w1, Inl (Panic ''nil pointer dereference''))
              | Some ce \<Rightarrow>
                (case UpdateTransitionProof (pkgs p) newProof (confParams ce) of
                   Inl err \<Rightarrow> (w1, Inl (Errorf_w
                     ''error updating new proof with chain transaction confirmation data: '' err))
                 | Inr newProof1 \<Rightarrow>
                   (case AppendProof (pkgs p) currentProofFile newProof1 of
                      Inl err \<Rightarrow> (w1, Inl (Errorf_w ''error appending proof suffix: '' err))
                    | Inr currentProofFile1 \<Rightarrow>
                      (case File_Encode (pkgs p) currentProofFile1 of
                         Inl err \<Rightarrow> (w1, Inl (Errorf_w ''error encoding proof file: '' err))
                       | Inr newProofFileBuffer \<Rightarrow>
                           (w1, Inr (\<lparr>Locator = \<lparr>loc_AssetID = assetID,
                                                 loc_ScriptKey = proof_ScriptKey newProof1\<rparr>,
                                      Blob = newProofFileBuffer\<rparr>, newProof1))))))))"

subsection \<open>storeProofs\<close>

text \<open>
  Lines 314-328: the loop over \<^verbatim>\<open>sendPkg.PassiveAssets\<close>. It returns the annotated proof
  files in order, and the passive assets with their \<^verbatim>\<open>NewProof\<close> updated in place.
\<close>

fun storeProofs_passive ::
  "ChainPorter \<Rightarrow> TxConfirmation option \<Rightarrow> PassiveAssetReAnchor list \<Rightarrow> world
     \<Rightarrow> world \<times> (error + AnnotatedProof list \<times> PassiveAssetReAnchor list)" where
  "storeProofs_passive p confEvent [] w = (w, Inr ([], []))"
| "storeProofs_passive p confEvent (passiveAsset # rest) w =
    (case updateAssetProofFile p w (pa_GenesisID passiveAsset)
            (PubKey (pa_ScriptKey passiveAsset)) confEvent (NewProof passiveAsset) of
       (w1, Inl err) \<Rightarrow> (w1, Inl (Errorf_w
          ''failed to generate an updated proof file for passive asset: '' err))
     | (w1, Inr (newAnnotatedProofFile, newProof1)) \<Rightarrow>
       (case storeProofs_passive p confEvent rest w1 of
          (w2, Inl err) \<Rightarrow> (w2, Inl err)
        | (w2, Inr (files, rest1)) \<Rightarrow>
            (w2, Inr (newAnnotatedProofFile # files,
                      passiveAsset\<lparr>NewProof := newProof1\<rparr> # rest1))))"

text \<open>
  Lines 395-408: the loop over \<^verbatim>\<open>parcel.Inputs[1:]\<close>, which appends the proof file of
  every further input to the \<^verbatim>\<open>AdditionalInputs\<close> of the suffix.
\<close>

fun storeProofs_additionalInputs ::
  "ChainPorter \<Rightarrow> TransferInput list \<Rightarrow> Proof \<Rightarrow> world \<Rightarrow> world \<times> (error + Proof)" where
  "storeProofs_additionalInputs p [] proofSuffix w = (w, Inr proofSuffix)"
| "storeProofs_additionalInputs p (input # inputs) proofSuffix w =
    (case fetchInputProof p w input of
       (w1, Inl err) \<Rightarrow> (w1, Inl (Errorf_w ''error fetching input proof: '' err))
     | (w1, Inr additionalInputProofFile) \<Rightarrow>
         storeProofs_additionalInputs p inputs
           (Proof (proof_ScriptKey proofSuffix) (proof_ChainData proofSuffix)
              (AdditionalInputs proofSuffix @ [additionalInputProofFile])) w1)"

text \<open>
  Lines 357-431, the body of the loop over \<^verbatim>\<open>parcel.Outputs\<close> up to the sealed proof of
  one output that is not passive-only: the proof file that is encoded, and the
  annotated proof made of it.
\<close>

definition storeProofs_seal ::
  "ChainPorter \<Rightarrow> TransferInput \<Rightarrow> TransferInput list \<Rightarrow> TxConfirmation option \<Rightarrow> TransferOutput
     \<Rightarrow> world \<Rightarrow> world \<times> (error + File \<times> AnnotatedProof)" where
  "storeProofs_seal p firstInput moreInputs confEvent out w =
    (case Proof_Decode (ProofSuffix out) of
       Inl err \<Rightarrow> (w, Inl (Errorf_w ''error decoding proof suffix: '' err))
     | Inr proofSuffix \<Rightarrow>
       (case confEvent of
          None \<Rightarrow> (w, Inl (Panic ''nil pointer dereference''))
        | Some ce \<Rightarrow>
          (case UpdateTransitionProof (pkgs p) proofSuffix (confParams ce) of
             Inl err \<Rightarrow> (w, Inl (Errorf_w ''error updating transition proof: '' err))
           | Inr proofSuffix1 \<Rightarrow>
             (case fetchInputProof p w firstInput of
                (w1, Inl err) \<Rightarrow> (w1, Inl (Errorf_w ''error fetching input proof: '' err))
              | (w1, Inr inputProofFile) \<Rightarrow>
                (case storeProofs_additionalInputs p moreInputs proofSuffix1 w1 of
                   (w2, Inl err) \<Rightarrow> (w2, Inl err)
                 | (w2, Inr proofSuffix2) \<Rightarrow>
                   (case AppendProof (pkgs p) inputProofFile proofSuffix2 of
                      Inl err \<Rightarrow> (w2, Inl (Errorf_w ''error appending proof: '' err))
                    | Inr inputProofFile1 \<Rightarrow>
                      (case File_Encode (pkgs p) inputProofFile1 of
                         Inl err \<Rightarrow> (w2, Inl (Errorf_w ''error encoding proof: '' err))
                       | Inr outputProofBuf \<Rightarrow>
                           (w2, Inr (inputProofFile1,
                              \<lparr>Locator = \<lparr>loc_AssetID = in_ID firstInput,
                                          loc_ScriptKey = PubKey (out_ScriptKey out)\<rparr>,
                               Blob = outputProofBuf\<rparr>)))))))))"

text \<open>
  Lines 356-445: the loop over \<^verbatim>\<open>parcel.Outputs\<close>, with the \<^verbatim>\<open>FinalProofs\<close> map built
  so far. An error leaves the map as it is at that point.
\<close>

fun storeProofs_outputs ::
  "ChainPorter \<Rightarrow> TransferInput \<Rightarrow> TransferInput list \<Rightarrow> TxConfirmation option
     \<Rightarrow> TransferOutput list \<Rightarrow> (SerializedKey \<times> AnnotatedProof) list \<Rightarrow> world
     \<Rightarrow> world \<times> (SerializedKey \<times> AnnotatedProof) list \<times> error option" where
  "storeProofs_outputs p firstInput moreInputs confEvent [] finalProofs w =
     (w, finalProofs, None)"
| "storeProofs_outputs p firstInput moreInputs confEvent (out # outs) finalProofs w =
    (if out_Type out = TypePassiveAssetsOnly
     then storeProofs_outputs p firstInput moreInputs confEvent outs finalProofs w
     else
       (case storeProofs_seal p firstInput moreInputs confEvent out w of
          (w1, Inl err) \<Rightarrow> (w1, finalProofs, Some err)
        | (w1, Inr (sealedFile, outputProof)) \<Rightarrow>
          (let serializedScriptKey = ToSerialized (PubKey (out_ScriptKey out));
               finalProofs1 = mapPut serializedScriptKey outputProof finalProofs;
               w2 = emit (EvImportProofs [outputProof]) w1
           in case ImportProofs (AssetProofs (cfg p)) (trace w1) [outputProof] of
                Some err \<Rightarrow> (w2, finalProofs1, Some (Errorf_w ''error importing proof: '' err))
              | None \<Rightarrow>
                  storeProofs_outputs p firstInput moreInputs confEvent outs finalProofs1 w2)))"

text \<open>
  Lines 296-449. The passive proofs are imported in one call, also when there are none;
  \<^verbatim>\<open>parcel\<close> is dereferenced only after that. Without inputs the function returns
  before \<^verbatim>\<open>FinalProofs\<close> is assigned.
\<close>

definition storeProofs ::
  "ChainPorter \<Rightarrow> world \<Rightarrow> sendPackage \<Rightarrow> world \<times> sendPackage \<times> error option" where
  "storeProofs p w sendPkg =
    (let confEvent = TransferTxConfEvent sendPkg in
     case storeProofs_passive p confEvent (PassiveAssets sendPkg) w of
       (w1, Inl err) \<Rightarrow> (w1, sendPkg, Some err)
     | (w1, Inr (passiveAssetProofFiles, passiveAssets1)) \<Rightarrow>
       (let sendPkg1 = sendPkg\<lparr>PassiveAssets := passiveAssets1\<rparr>;
            w2 = emit (EvImportProofs passiveAssetProofFiles) w1
        in case ImportProofs (AssetProofs (cfg p)) (trace w1) passiveAssetProofFiles of
             Some err \<Rightarrow> (w2, sendPkg1, Some (Errorf_w ''error importing passive proof: '' err))
           | None \<Rightarrow>
             (case OutboundPkg sendPkg1 of
                None \<Rightarrow> (w2, sendPkg1, Some (Panic ''nil pointer dereference''))
              | Some parcel \<Rightarrow>
                (case Inputs parcel of
                   [] \<Rightarrow>
                     (case setSendState SendStateReceiverProofTransfer (w2, sendPkg1) of
                        (w3, sendPkg3) \<Rightarrow> (w3, sendPkg3, None))
                 | firstInput # moreInputs \<Rightarrow>
                   (case storeProofs_outputs p firstInput moreInputs confEvent
                           (Outputs parcel) [] w2 of
                      (w3, finalProofs, Some err) \<Rightarrow>
                        (w3, sendPkg1\<lparr>FinalProofs := finalProofs\<rparr>, Some err)
                    | (w3, finalProofs, None) \<Rightarrow>
                      (case setSendState SendStateReceiverProofTransfer
                              (w3, sendPkg1\<lparr>FinalProofs := finalProofs\<rparr>) of
                         (w4, sendPkg4) \<Rightarrow> (w4, sendPkg4, None)))))))"

subsection \<open>transferReceiverProof\<close>

text \<open>
  Lines 538-588, the closure \<^verbatim>\<open>deliver\<close>. The loop over the map \<^verbatim>\<open>pkg.FinalProofs\<close>
  takes the first entry whose locator has the script key of the output. A backoff
  error of the courier is turned into nil.
\<close>

definition deliver ::
  "ChainPorter \<Rightarrow> sendPackage \<Rightarrow> TransferOutput \<Rightarrow> world \<Rightarrow> world \<times> error option" where
  "deliver p pkg out w =
    (let key = PubKey (out_ScriptKey out) in
     if Tweaked (out_ScriptKey out) \<noteq> None \<and> ScriptKeyLocal out then (w, None)
     else
       (case find (\<lambda>kv. loc_ScriptKey (Locator (snd kv)) = PubKey (out_ScriptKey out))
               (FinalProofs pkg) of
          None \<Rightarrow> (w, Some (Err ''no proof found for output with script key''))
        | Some kv \<Rightarrow>
          (let receiverProof = snd kv;
               recipient = \<lparr>rcpt_ScriptKey = key,
                            rcpt_AssetID = loc_AssetID (Locator receiverProof),
                            rcpt_Amount = out_Amount out\<rparr>
           in case ProofCourier (cfg p) of
                None \<Rightarrow> (w, Some (Panic ''nil pointer dereference''))
              | Some courier \<Rightarrow>
                (let w1 = emit (EvDeliverProof recipient receiverProof) w in
                 case DeliverProof courier (trace w) recipient receiverProof of
                   None \<Rightarrow> (w1, None)
                 | Some err \<Rightarrow>
                     if errors_As_BackoffExecError err then (w1, None)
                     else (w1, Some (Errorf_w ''error delivering proof: '' err))))))"

text \<open>
  Modelled from the spec: \<^verbatim>\<open>chanutils.ParSlice\<close> is not part of chain\_porter.go. The
  spec (section 4.5) has the dispatcher run the delivery for every output of the parcel,
  concurrently, and has a failure of any branch propagate. The deliveries do not
  depend on one another; the model runs them in the order of the slice, all of them,
  and returns the first failure.
\<close>

fun ParSlice ::
  "('a \<Rightarrow> world \<Rightarrow> world \<times> error option) \<Rightarrow> 'a list \<Rightarrow> world \<Rightarrow> world \<times> error option" where
  "ParSlice f [] w = (w, None)"
| "ParSlice f (x # xs) w =
    (case f x w of
       (w1, r1) \<Rightarrow>
         (case ParSlice f xs w1 of
            (w2, r2) \<Rightarrow> (w2, (case r1 of Some err \<Rightarrow> Some err | None \<Rightarrow> r2))))"

text \<open>Lines 606-620: the passive proof files are loaded from the archive into a map.\<close>

fun transferReceiverProof_passive ::
  "ChainPorter \<Rightarrow> PassiveAssetReAnchor list \<Rightarrow> (Locator \<times> Blob) list \<Rightarrow> world
     \<Rightarrow> world \<times> (error + (Locator \<times> Blob) list)" where
  "transferReceiverProof_passive p [] files w = (w, Inr files)"
| "transferReceiverProof_passive p (passiveAsset # rest) files w =
    (let proofLocator = \<lparr>loc_AssetID = pa_GenesisID passiveAsset,
                         loc_ScriptKey = PubKey (pa_ScriptKey passiveAsset)\<rparr>;
         w1 = emit (EvFetchProof proofLocator) w
     in case FetchProof (AssetProofs (cfg p)) (trace w) proofLocator of
          Inl err \<Rightarrow> (w1, Inl (Errorf_w ''error fetching passive asset proof file: '' err))
        | Inr proofFileBlob \<Rightarrow>
            transferReceiverProof_passive p rest (mapPut proofLocator proofFileBlob files) w1)"

text \<open>
  Lines 590-600: with a proof courier configured, \<^verbatim>\<open>deliver\<close> runs for every output
  of the parcel; without one nothing is delivered.
\<close>

definition deliverProofs :: "ChainPorter \<Rightarrow> sendPackage \<Rightarrow> world \<Rightarrow> world \<times> error option" where
  "deliverProofs p pkg w =
    (case ProofCourier (cfg p) of
       None \<Rightarrow> (w, None)
     | Some courier \<Rightarrow>
       (case OutboundPkg pkg of
          None \<Rightarrow> (w, Some (Panic ''nil pointer dereference''))
        | Some parcel \<Rightarrow>
          (case ParSlice (deliver p pkg) (Outputs parcel) w of
             (w1, Some err) \<Rightarrow> (w1, Some (Errorf_w ''error delivering proof(s): '' err))
           | (w1, None) \<Rightarrow> (w1, None))))"

text \<open>
  Lines 534-639. \<^verbatim>\<open>int32(x)\<close> of a \<^verbatim>\<open>uint32\<close> reads the same 32 bits as a signed
  number.
\<close>

definition transferReceiverProof ::
  "ChainPorter \<Rightarrow> world \<Rightarrow> sendPackage \<Rightarrow> world \<times> sendPackage \<times> error option" where
  "transferReceiverProof p w pkg =
    (case deliverProofs p pkg w of
       (w1, Some err) \<Rightarrow> (w1, pkg, Some err)
     | (w1, None) \<Rightarrow>
       (case OutboundPkg pkg of
          None \<Rightarrow> (w1, pkg, Some (Panic ''nil pointer dereference''))
        | Some parcel \<Rightarrow>
          (case transferReceiverProof_passive p (op_PassiveAssets parcel) [] w1 of
             (w2, Inl err) \<Rightarrow> (w2, pkg, Some err)
           | (w2, Inr passiveAssetProofFiles) \<Rightarrow>
             (case TransferTxConfEvent pkg of
                None \<Rightarrow> (w2, pkg, Some (Panic ''nil pointer dereference''))
              | Some confEvent \<Rightarrow>
                (let ev = \<lparr>AnchorTXID = TxHash (op_AnchorTx parcel),
                           ace_BlockHash = conf_BlockHash confEvent,
                           ace_BlockHeight = sint (conf_BlockHeight confEvent),
                           ace_TxIndex = sint (conf_TxIndex confEvent),
                           ace_FinalProofs = FinalProofs pkg,
                           PassiveAssetProofFiles = passiveAssetProofFiles\<rparr>;
                     w3 = emit (EvConfirmParcelDelivery ev) w2
                 in case ConfirmParcelDelivery (ExportLog (cfg p)) (trace w2) ev of
                      Some err \<Rightarrow> (w3, pkg, Some (Errorf_w
                        ''unable to log parcel delivery confirmation: '' err))
                    | None \<Rightarrow>
                      (case setSendState SendStateComplete (w3, pkg) of
                         (w4, pkg4) \<Rightarrow> (w4, pkg4, None)))))))"

subsection \<open>stateStep\<close>

text \<open>Lines 890-898: the outputs whose key the key ring knows are marked local.\<close>

definition stampScriptKeyLocal :: "ChainPorter \<Rightarrow> world \<Rightarrow> TransferOutput \<Rightarrow> TransferOutput" where
  "stampScriptKeyLocal p w out =
    (case Tweaked (out_ScriptKey out) of
       None \<Rightarrow> out
     | Some tweaked \<Rightarrow>
         if KeyRing_IsLocalKey (cfg p) (trace w) (RawKey tweaked)
         then out\<lparr>ScriptKeyLocal := True\<rparr> else out)"

text \<open>
  Lines 737-972. The result is the pair that the Go function returns: the first six
  states return no package with an error, the last three return the package they worked
  on together with the error.
\<close>

definition stateStep ::
  "ChainPorter \<Rightarrow> world \<Rightarrow> sendPackage \<Rightarrow> world \<times> sendPackage option \<times> error option" where
  "stateStep p w0 currentPkg =
    (let w = emit (EvExecuteSendState (SendState currentPkg)) w0 in
     if SendState currentPkg = SendStateVirtualCommitmentSelect then
       (case Parcel currentPkg of
          Some (AddressParcel addrs) \<Rightarrow>
            (let w1 = emit (EvFundAddressSend addrs) w in
             case FundAddressSend (AssetWallet (cfg p)) (trace w) addrs of
               Inl err \<Rightarrow> (w1, None, Some (Errorf_w ''unable to fund address send: '' err))
             | Inr fundSendRes \<Rightarrow>
               (case setSendState SendStateVirtualSign
                       (w1, currentPkg\<lparr>VirtualPacket := Some (fund_VPacket fundSendRes),
                              InputCommitments := fund_InputCommitments fundSendRes\<rparr>) of
                  (w2, pkg2) \<Rightarrow> (w2, Some pkg2, None)))
        | _ \<Rightarrow> (w, None, Some (Err ''unable to cast parcel to address parcel'')))
     else if SendState currentPkg = SendStateVirtualSign then
       (case VirtualPacket currentPkg of
          None \<Rightarrow> (w, None, Some (Panic ''nil pointer dereference''))
        | Some vPacket \<Rightarrow>
          if length (vp_Outputs vPacket) \<le> 1 then (w, None, Some (Panic ''index out of range''))
          else
            (let w1 = emit (EvSignVirtualPacket vPacket) w in
             case SignVirtualPacket (AssetWallet (cfg p)) (trace w) vPacket of
               Inl err \<Rightarrow>
                 (w1, None, Some (Errorf_w ''unable to sign and commit virtual packet: '' err))
             | Inr vPacket1 \<Rightarrow>
               (case setSendState SendStateAnchorSign
                       (w1, currentPkg\<lparr>VirtualPacket := Some vPacket1\<rparr>) of
                  (w2, pkg2) \<Rightarrow> (w2, Some pkg2, None))))
     else if SendState currentPkg = SendStateAnchorSign then
       (case EstimateFee (ChainBridge (cfg p)) (trace w) of
          Inl err \<Rightarrow> (w, None, Some (Errorf_w ''unable to estimate fee: '' err))
        | Inr feeRate \<Rightarrow>
          (case VirtualPacket currentPkg of
             None \<Rightarrow> (w, None, Some (Panic ''nil pointer dereference''))
           | Some vPacket \<Rightarrow>
             (case FirstNonSplitRootOutput (pkgs p) vPacket of
                Inl err \<Rightarrow>
                  (w, None, Some (Errorf_w ''unable to get first interactive output: '' err))
              | Inr firstRecipient \<Rightarrow>
                (let w1 = emit (EvSignPassiveAssets vPacket) w in
                 case SignPassiveAssets (AssetWallet (cfg p)) (trace w) vPacket
                        (InputCommitments currentPkg) of
                   Inl err \<Rightarrow> (w1, None, Some (Errorf_w ''unable to sign passive assets: '' err))
                 | Inr passiveAssets \<Rightarrow>
                   (let passiveVPackets = map pa_VPacket passiveAssets;
                        w2 = emit (EvAnchorVirtualTransactions vPacket) w1
                    in case AnchorVirtualTransactions (AssetWallet (cfg p)) (trace w1) feeRate
                              vPacket (InputCommitments currentPkg) passiveVPackets of
                         Inl err \<Rightarrow> (w2, None, Some (Errorf_w
                           ''unable to anchor virtual transactions: '' err))
                       | Inr anchorTx \<Rightarrow>
                         (case setSendState SendStateLogCommit
                                 (w2, currentPkg\<lparr>PassiveAssets := passiveAssets,
                                        AnchorTx := Some anchorTx\<rparr>) of
                            (w3, pkg3) \<Rightarrow> (w3, Some pkg3, None)))))))
     else if SendState currentPkg = SendStateLogCommit then
       (case CurrentHeight (ChainBridge (cfg p)) (trace w) of
          Inl err \<Rightarrow> (w, None, Some (Errorf_v ''unable to get current height: '' err))
        | Inr currentHeight \<Rightarrow>
          (case prepareForStorage (pkgs p) currentPkg currentHeight of
             Inl err \<Rightarrow>
               (w, None, Some (Errorf_w ''unable to prepare parcel for storage: '' err))
           | Inr parcel0 \<Rightarrow>
             (let parcel = parcel0\<lparr>Outputs := map (stampScriptKeyLocal p w) (Outputs parcel0)\<rparr>;
                  r = LogPendingParcel (ExportLog (cfg p)) (trace w) parcel;
                  w1 = emit (EvLogPendingParcel parcel r) w
              in case r of
                   Some err \<Rightarrow>
                     (w1, None, Some (Errorf_v ''unable to write send pkg to disk: '' err))
                 | None \<Rightarrow>
                   (case setSendState SendStateBroadcast
                           (w1, currentPkg\<lparr>OutboundPkg := Some parcel\<rparr>) of
                      (w2, pkg2) \<Rightarrow> (w2, Some pkg2, None)))))
     else if SendState currentPkg = SendStateBroadcast then
       (case importLocalAddresses p (OutboundPkg currentPkg) w of
          (w1, Some err) \<Rightarrow>
            (w1, None, Some (Errorf_w ''unable to import local addresses: '' err))
        | (w1, None) \<Rightarrow>
          (case OutboundPkg currentPkg of
             None \<Rightarrow> (w1, None, Some (Panic ''nil pointer dereference''))
           | Some parcel \<Rightarrow>
             (let w2 = emit (EvPublishTransaction (op_AnchorTx parcel)) w1 in
              case PublishTransaction (ChainBridge (cfg p)) (trace w1) (op_AnchorTx parcel) of
                Some err \<Rightarrow> (w2, None, Some err)
              | None \<Rightarrow>
                (case setSendState SendStateWaitTxConf
                        (emit EvDeliverTxBroadcastResp w2, currentPkg) of
                   (w3, pkg3) \<Rightarrow> (w3, Some pkg3, None)))))
     else if SendState currentPkg = SendStateWaitTxConf then
       (case waitForTransferTxConf p w currentPkg of
          (w1, pkg1, err) \<Rightarrow> (w1, Some pkg1, err))
     else if SendState currentPkg = SendStateStoreProofs then
       (case storeProofs p w currentPkg of
          (w1, pkg1, err) \<Rightarrow> (w1, Some pkg1, err))
     else if SendState currentPkg = SendStateReceiverProofTransfer then
       (case transferReceiverProof p w currentPkg of
          (w1, pkg1, err) \<Rightarrow> (w1, Some pkg1, err))
     else (w, Some currentPkg, Some (Err ''unknown state'')))"

subsection \<open>What a step leaves alone\<close>

text \<open>
  An event is quiet when it is neither a journal write nor a broadcast. A world extends
  another quietly when its trace extends the other's by quiet events only and the
  history variable and the quit flag are the same.
\<close>

fun quietEvent :: "event \<Rightarrow> bool" where
  "quietEvent (EvLogPendingParcel parcel r) = False"
| "quietEvent (EvPublishTransaction tx) = False"
| "quietEvent ev = True"

definition newEvents :: "world \<Rightarrow> world \<Rightarrow> event list" where
  "newEvents w w' = drop (length (trace w)) (trace w')"

definition quietly :: "world \<Rightarrow> world \<Rightarrow> bool" where
  "quietly w w' =
     (take (length (trace w)) (trace w') = trace w \<and> list_all quietEvent (newEvents w w') \<and>
      stateLog w' = stateLog w \<and> quitSeen w' = quitSeen w)"

lemma emit_simps [simp]:
  "trace (emit ev w) = trace w @ [ev]"
  "stateLog (emit ev w) = stateLog w"
  "quitSeen (emit ev w) = quitSeen w"
  by (simp_all add: emit_def)

lemma setSendState_eq:
  "setSendState s (w, pkg) = (w\<lparr>stateLog := stateLog w @ [s]\<rparr>, pkg\<lparr>SendState := s\<rparr>)"
  by (simp add: setSendState_def)

lemma quietly_iff:
  "quietly w w' \<longleftrightarrow>
     (\<exists>evs. trace w' = trace w @ evs \<and> list_all quietEvent evs) \<and>
     stateLog w' = stateLog w \<and> quitSeen w' = quitSeen w"
proof -
  have "take (length (trace w)) (trace w') = trace w \<Longrightarrow>
        trace w' = trace w @ drop (length (trace w)) (trace w')"
    by (metis append_take_drop_id)
  then show ?thesis
    by (auto simp: quietly_def newEvents_def)
qed

lemma quietly_refl [simp]: "quietly w w"
  by (simp add: quietly_iff)

lemma quietly_trans: "quietly w w1 \<Longrightarrow> quietly w1 w2 \<Longrightarrow> quietly w w2"
  by (auto simp: quietly_iff)

lemma quietly_emit: "quietEvent ev \<Longrightarrow> quietly w w1 \<Longrightarrow> quietly w (emit ev w1)"
  by (auto simp: quietly_iff)

lemma quietly_emit0: "quietEvent ev \<Longrightarrow> quietly w (emit ev w)"
  by (simp add: quietly_emit)

lemma importLocalAddresses_loop_quietly:
  "importLocalAddresses_loop p parcel outs w = (w', r) \<Longrightarrow> quietly w w'"
proof (induction outs arbitrary: w)
  case Nil
  then show ?case by simp
next
  case (Cons out outs)
  have step: "\<And>k. importLocalAddresses_loop p parcel outs (emit (EvImportTaprootOutput k) w) = (w', r)
     \<Longrightarrow> quietly w w'"
    by (rule quietly_trans[OF quietly_emit0 Cons.IH]) simp_all
  show ?case
    using Cons.prems Cons.IH[of w] step
    by (auto simp: Let_def quietly_emit0 split: sum.splits option.splits if_splits)
qed

lemma fetchInputProof_quietly: "fetchInputProof p w i = (w', r) \<Longrightarrow> quietly w w'"
  by (auto simp: fetchInputProof_def Let_def quietly_emit0 split: sum.splits option.splits)

lemma updateAssetProofFile_quietly:
  "updateAssetProofFile p w a k c n = (w', r) \<Longrightarrow> quietly w w'"
  by (auto simp: updateAssetProofFile_def Let_def quietly_emit0 split: sum.splits option.splits)

lemma storeProofs_passive_quietly:
  "storeProofs_passive p c pas w = (w', r) \<Longrightarrow> quietly w w'"
proof (induction pas arbitrary: w w' r)
  case Nil
  then show ?case by simp
next
  case (Cons a pas)
  obtain w1 r1 where u: "updateAssetProofFile p w (pa_GenesisID a) (PubKey (pa_ScriptKey a)) c (NewProof a) = (w1, r1)"
    by (cases "updateAssetProofFile p w (pa_GenesisID a) (PubKey (pa_ScriptKey a)) c (NewProof a)")
  have g: "quietly w w1" by (rule updateAssetProofFile_quietly[OF u])
  obtain w2 r2 where v: "storeProofs_passive p c pas w1 = (w2, r2)"
    by (cases "storeProofs_passive p c pas w1")
  have h: "quietly w w2" by (rule quietly_trans[OF g Cons.IH[OF v]])
  show ?case using Cons.prems u v g h
    by (auto split: sum.splits prod.splits)
qed

lemma storeProofs_additionalInputs_quietly:
  "storeProofs_additionalInputs p ins sfx w = (w', r) \<Longrightarrow> quietly w w'"
proof (induction ins arbitrary: w sfx)
  case Nil
  then show ?case by simp
next
  case (Cons a ins)
  obtain w1 r1 where u: "fetchInputProof p w a = (w1, r1)"
    by (cases "fetchInputProof p w a")
  have g: "quietly w w1" by (rule fetchInputProof_quietly[OF u])
  have "\<And>s. storeProofs_additionalInputs p ins s w1 = (w', r) \<Longrightarrow> quietly w w'"
    by (rule quietly_trans[OF g Cons.IH])
  then show ?case using Cons.prems u g by (auto split: sum.splits)
qed

lemma storeProofs_seal_quietly:
  "storeProofs_seal p fi mi c out w = (w', r) \<Longrightarrow> quietly w w'"
proof -
  assume a: "storeProofs_seal p fi mi c out w = (w', r)"
  obtain w1 r1 where u: "fetchInputProof p w fi = (w1, r1)"
    by (cases "fetchInputProof p w fi")
  have g: "quietly w w1" by (rule fetchInputProof_quietly[OF u])
  have h: "\<And>s w2 r2. storeProofs_additionalInputs p mi s w1 = (w2, r2) \<Longrightarrow> quietly w w2"
    by (rule quietly_trans[OF g storeProofs_additionalInputs_quietly])
  show ?thesis
    using a u g h
    by (auto simp: storeProofs_seal_def split: sum.splits option.splits prod.splits)
qed

lemma storeProofs_outputs_quietly:
  "storeProofs_outputs p fi mi c outs fp w = (w', r) \<Longrightarrow> quietly w w'"
proof (induction outs arbitrary: w fp)
  case Nil
  then show ?case by simp
next
  case (Cons out outs)
  obtain w1 r1 where u: "storeProofs_seal p fi mi c out w = (w1, r1)"
    by (cases "storeProofs_seal p fi mi c out w")
  have g: "quietly w w1" by (rule storeProofs_seal_quietly[OF u])
  have e: "\<And>x. quietly w (emit (EvImportProofs x) w1)"
    by (rule quietly_emit[OF _ g]) simp
  have "\<And>x f. storeProofs_outputs p fi mi c outs f (emit (EvImportProofs x) w1) = (w', r)
     \<Longrightarrow> quietly w w'"
    by (rule quietly_trans[OF e Cons.IH])
  then show ?case using Cons.prems u g e Cons.IH[of _ w]
    by (auto simp: Let_def split: sum.splits option.splits prod.splits if_splits)
qed


lemma deliver_quietly: "deliver p pkg out w = (w', r) \<Longrightarrow> quietly w w'"
  by (auto simp: deliver_def Let_def quietly_emit0 split: sum.splits option.splits if_splits)

lemma ParSlice_quietly:
  assumes f: "\<And>x w w' r. f x w = (w', r) \<Longrightarrow> quietly w w'"
  shows "ParSlice f xs w = (w', r) \<Longrightarrow> quietly w w'"
proof (induction xs arbitrary: w w' r)
  case Nil
  then show ?case by simp
next
  case (Cons x xs)
  obtain w1 r1 where u: "f x w = (w1, r1)" by (cases "f x w")
  obtain w2 r2 where v: "ParSlice f xs w1 = (w2, r2)" by (cases "ParSlice f xs w1")
  have "quietly w w2" by (rule quietly_trans[OF f[OF u] Cons.IH[OF v]])
  then show ?case using Cons.prems u v by auto
qed

lemma transferReceiverProof_passive_quietly:
  "transferReceiverProof_passive p pas files w = (w', r) \<Longrightarrow> quietly w w'"
proof (induction pas arbitrary: w files)
  case Nil
  then show ?case by simp
next
  case (Cons a pas)
  have "\<And>l f. transferReceiverProof_passive p pas f (emit (EvFetchProof l) w) = (w', r)
     \<Longrightarrow> quietly w w'"
    by (rule quietly_trans[OF quietly_emit0 Cons.IH]) simp_all
  then show ?case using Cons.prems
    by (auto simp: Let_def quietly_emit0 split: sum.splits)
qed

definition advanced :: "SendState \<Rightarrow> world \<Rightarrow> world \<Rightarrow> sendPackage \<Rightarrow> sendPackage \<Rightarrow> bool" where
  "advanced s w w' pkg pkg' =
     (stateLog w' = stateLog w @ [s] \<and> quitSeen w' = quitSeen w \<and> SendState pkg' = s \<and>
      OutboundPkg pkg' = OutboundPkg pkg)"

lemma quietly_tr: "quietly w w' \<Longrightarrow> \<exists>evs. trace w' = trace w @ evs \<and> list_all quietEvent evs"
  by (simp add: quietly_iff)

lemma waitForTransferTxConf_spec:
  assumes "waitForTransferTxConf p w pkg = (w', pkg', e)"
  shows "(\<exists>evs. trace w' = trace w @ evs \<and> list_all quietEvent evs) \<and>
         ((e = None \<and> advanced SendStateStoreProofs w w' pkg pkg') \<or>
          (stateLog w' = stateLog w \<and> pkg' = pkg \<and> (e = None \<longrightarrow> quitSeen w')))"
  using assms
  by (auto simp: waitForTransferTxConf_def Let_def setSendState_eq advanced_def
           split: option.splits list.splits ConfSelect.splits)

lemma storeProofs_spec:
  assumes "storeProofs p w pkg = (w', pkg', e)"
  shows "(\<exists>evs. trace w' = trace w @ evs \<and> list_all quietEvent evs) \<and>
         ((e = None \<and> advanced SendStateReceiverProofTransfer w w' pkg pkg') \<or>
          (stateLog w' = stateLog w \<and> e \<noteq> None))"
proof -
  obtain w1 r1 where u: "storeProofs_passive p (TransferTxConfEvent pkg) (PassiveAssets pkg) w = (w1, r1)"
    by (cases "storeProofs_passive p (TransferTxConfEvent pkg) (PassiveAssets pkg) w")
  have g: "quietly w w1" by (rule storeProofs_passive_quietly[OF u])
  have e: "\<And>x. quietly w (emit (EvImportProofs x) w1)"
    by (rule quietly_emit[OF _ g]) simp
  have h: "\<And>x fi mi c outs fp w3 r3.
     storeProofs_outputs p fi mi c outs fp (emit (EvImportProofs x) w1) = (w3, r3) \<Longrightarrow> quietly w w3"
    by (rule quietly_trans[OF e storeProofs_outputs_quietly])
  show ?thesis
    using assms u g e h
    by (auto simp: storeProofs_def Let_def setSendState_eq advanced_def quietly_iff
             split: option.splits list.splits sum.splits prod.splits)
qed


lemma deliverProofs_quietly: "deliverProofs p pkg w = (w', r) \<Longrightarrow> quietly w w'"
proof -
  assume a: "deliverProofs p pkg w = (w', r)"
  have d: "\<And>outs w1 r1. ParSlice (deliver p pkg) outs w = (w1, r1) \<Longrightarrow> quietly w w1"
    by (rule ParSlice_quietly[OF deliver_quietly])
  show ?thesis using a d
    by (auto simp: deliverProofs_def split: option.splits prod.splits)
qed

lemma transferReceiverProof_spec:
  assumes "transferReceiverProof p w pkg = (w', pkg', e)"
  shows "(\<exists>evs. trace w' = trace w @ evs \<and> list_all quietEvent evs) \<and>
         ((e = None \<and> advanced SendStateComplete w w' pkg pkg') \<or>
          (stateLog w' = stateLog w \<and> e \<noteq> None))"
proof -
  obtain w1 r1 where u: "deliverProofs p pkg w = (w1, r1)"
    by (cases "deliverProofs p pkg w")
  have g: "quietly w w1" by (rule deliverProofs_quietly[OF u])
  have h: "\<And>pas w2 r2. transferReceiverProof_passive p pas [] w1 = (w2, r2) \<Longrightarrow> quietly w w2"
    by (rule quietly_trans[OF g transferReceiverProof_passive_quietly])
  have k: "\<And>pas w2 r2 x. transferReceiverProof_passive p pas [] w1 = (w2, r2) \<Longrightarrow>
      quietly w (emit (EvConfirmParcelDelivery x) w2)"
    by (rule quietly_emit[OF _ h]) simp_all
  show ?thesis
    using assms u g h k
    by (auto simp: transferReceiverProof_def Let_def setSendState_eq advanced_def quietly_iff
             split: option.splits list.splits sum.splits prod.splits)
qed

lemma stateStep_log:
  assumes "stateStep p w pkg = (w', r, e)"
  shows "(e = None \<and> SendState pkg < SendStateComplete \<and>
          (\<exists>pkg'. r = Some pkg' \<and> SendState pkg' = Suc (SendState pkg)) \<and>
          stateLog w' = stateLog w @ [Suc (SendState pkg)] \<and> quitSeen w' = quitSeen w) \<or>
         (stateLog w' = stateLog w \<and> (e = None \<longrightarrow> quitSeen w' \<and> r = Some pkg))"
proof -
  let ?w = "emit (EvExecuteSendState (SendState pkg)) w"
  consider "SendState pkg = 0" | "SendState pkg = 1" | "SendState pkg = 2" | "SendState pkg = 3"
    | "SendState pkg = 4" | "SendState pkg = 5" | "SendState pkg = 6" | "SendState pkg = 7"
    | "SendState pkg \<ge> 8" by linarith
  then show ?thesis
  proof cases
    case 1
    then show ?thesis using assms
      by (auto simp: stateStep_def Let_def setSendState_eq
               split: option.splits sum.splits Parcel.splits)
  next
    case 2
    then show ?thesis using assms
      by (auto simp: stateStep_def Let_def setSendState_eq
               split: option.splits sum.splits if_splits)
  next
    case 3
    then show ?thesis using assms
      by (auto simp: stateStep_def Let_def setSendState_eq
               split: option.splits sum.splits)
  next
    case 4
    then show ?thesis using assms
      by (auto simp: stateStep_def Let_def setSendState_eq
               split: option.splits sum.splits)
  next
    case 5
    obtain w1 r1 where u: "importLocalAddresses p (OutboundPkg pkg) ?w = (w1, r1)"
      by (cases "importLocalAddresses p (OutboundPkg pkg) ?w")
    have "quietly ?w w1" using u importLocalAddresses_loop_quietly
      by (auto simp: importLocalAddresses_def split: option.splits)
    then have "stateLog w1 = stateLog w" "quitSeen w1 = quitSeen w"
      by (simp_all add: quietly_iff)
    then show ?thesis using assms 5 u
      by (auto simp: stateStep_def Let_def setSendState_eq
               split: option.splits sum.splits) metis+
  next
    case 6
    obtain w1 pkg1 e1 where u: "waitForTransferTxConf p ?w pkg = (w1, pkg1, e1)"
      by (cases "waitForTransferTxConf p ?w pkg") auto
    show ?thesis using assms 6 u waitForTransferTxConf_spec[OF u]
      by (auto simp: stateStep_def Let_def advanced_def)
  next
    case 7
    obtain w1 pkg1 e1 where u: "storeProofs p ?w pkg = (w1, pkg1, e1)"
      by (cases "storeProofs p ?w pkg") auto
    show ?thesis using assms 7 u storeProofs_spec[OF u]
      by (auto simp: stateStep_def Let_def advanced_def)
  next
    case 8
    obtain w1 pkg1 e1 where u: "transferReceiverProof p ?w pkg = (w1, pkg1, e1)"
      by (cases "transferReceiverProof p ?w pkg") auto
    show ?thesis using assms 8 u transferReceiverProof_spec[OF u]
      by (auto simp: stateStep_def Let_def advanced_def)
  next
    case 9
    then show ?thesis using assms
      by (auto simp: stateStep_def Let_def)
  qed
qed

subsection \<open>advanceState\<close>

text \<open>
  Lines 694-722. The loop runs \<^verbatim>\<open>stateStep\<close> on a copy of the package until the state
  is \<^verbatim>\<open>SendStateComplete\<close>, \<^verbatim>\<open>Quit\<close> is closed, or a step fails; an error is sent to
  \<^verbatim>\<open>ErrChan\<close>. The function returns the package the loop variable holds at the end.
  It terminates because a step that succeeds has advanced the state, or has seen
  \<^verbatim>\<open>Quit\<close> closed, after which the next round leaves the loop.
\<close>

function advanceState ::
  "ChainPorter \<Rightarrow> world \<Rightarrow> sendPackage \<Rightarrow> world \<times> sendPackage \<times> error option" where
  "advanceState p w pkg =
    (if SendState pkg < SendStateComplete then
       (if quitClosed p w then (w\<lparr>quitSeen := True\<rparr>, pkg, None)
        else
          (case stateStep p w pkg of
             (w1, updatedPkg, Some err) \<Rightarrow>
               ((if isPanic err then w1 else emit (EvErrChan err) w1), pkg, Some err)
           | (w1, None, None) \<Rightarrow> (w1, pkg, Some (Panic ''nil pointer dereference''))
           | (w1, Some updatedPkg, None) \<Rightarrow> advanceState p w1 updatedPkg))
     else (w, pkg, None))"
  by pat_completeness auto
termination
proof (relation "measure (\<lambda>(p, w, pkg).
          2 * (SendStateComplete - SendState pkg) + (if quitSeen w then 0 else 1))")
  show "wf (measure (\<lambda>(p, w, pkg).
          2 * (SendStateComplete - SendState pkg) + (if quitSeen w then 0 else 1)))"
    by simp
next
  fix p w pkg x y xa ya x2
  assume a: "SendState pkg < SendStateComplete" "\<not> quitClosed p w"
    and b: "(x, y) = stateStep p w pkg" "(xa, ya) = y" "xa = Some x2" "ya = None"
  have s: "stateStep p w pkg = (x, Some x2, None)" using b by simp
  have q: "\<not> quitSeen w" using a(2) by (simp add: quitClosed_def)
  show "((p, x, x2), p, w, pkg) \<in> measure (\<lambda>(p, w, pkg).
          2 * (SendStateComplete - SendState pkg) + (if quitSeen w then 0 else 1))"
    using stateStep_log[OF s] a(1) q by auto
qed

text \<open>
  Lines 194-214: \<^verbatim>\<open>Start\<close> calls \<^verbatim>\<open>resumePendingParcel\<close> for every parcel that
  \<^verbatim>\<open>ExportLog.PendingParcels\<close> returns; the skeleton package enters at
  \<^verbatim>\<open>SendStateBroadcast\<close>.
\<close>

definition resumePendingParcel ::
  "ChainPorter \<Rightarrow> world \<Rightarrow> OutboundParcel \<Rightarrow> world \<times> sendPackage \<times> error option" where
  "resumePendingParcel p w pkg =
     advanceState p w
       \<lparr>SendState = SendStateBroadcast, Parcel = None, VirtualPacket = None,
        InputCommitments = [], PassiveAssets = [], AnchorTx = None,
        OutboundPkg = Some pkg, TransferTxConfEvent = None, FinalProofs = []\<rparr>"

subsection \<open>A concrete parcel\<close>

text \<open>
  A split with local change in the manner of the spec's scenarios S2 and S3: two inputs
  of asset \<open>A\<close> under the keys \<open>K1\<close> and \<open>K4\<close>, 30 units to the remote key \<open>K2\<close>, 70
  units of change to the local key \<open>K3\<close>, and one passive asset \<open>B\<close> under \<open>P1\<close>. The
  collaborators succeed; the wallet already knows the anchor output; the archive holds
  a proof file of one proof for every locator. The outcome of the confirmation wait and
  the courier are parameters.
\<close>

definition demoAnchorTx :: MsgTx where
  "demoAnchorTx = \<lparr>TxHash = ''tx1'',
     TxOuts = [\<lparr>Value = 1000, PkScript = ''s0''\<rparr>, \<lparr>Value = 1000, PkScript = ''s1''\<rparr>]\<rparr>"

definition demoOutputs :: "bool \<Rightarrow> TransferOutput list" where
  "demoOutputs stamped =
     [\<lparr>out_AnchorIndex = 0, out_Type = TypeSimple,
       out_ScriptKey = \<lparr>PubKey = ''K2'', Tweaked = None\<rparr>, ScriptKeyLocal = False,
       out_Amount = 30, ProofSuffix = ProofBlob (Proof ''K2'' None [])\<rparr>,
      \<lparr>out_AnchorIndex = 1, out_Type = TypeSplitRoot,
       out_ScriptKey = \<lparr>PubKey = ''K3'', Tweaked = Some \<lparr>RawKey = ''raw3'', Tweak = ''t''\<rparr>\<rparr>,
       ScriptKeyLocal = stamped,
       out_Amount = 70, ProofSuffix = ProofBlob (Proof ''K3'' None [])\<rparr>]"

definition demoPassive :: "PassiveAssetReAnchor list" where
  "demoPassive =
     [\<lparr>pa_VPacket = \<lparr>vp_Outputs = [], vp_Witnessed = True\<rparr>, pa_GenesisID = ''B'',
       pa_ScriptKey = \<lparr>PubKey = ''P1'', Tweaked = None\<rparr>, NewProof = Proof ''P1'' None []\<rparr>]"

definition demoParcel :: "bool \<Rightarrow> OutboundParcel" where
  "demoParcel stamped =
     \<lparr>op_AnchorTx = demoAnchorTx, AnchorTxHeightHint = 100,
      Inputs = [\<lparr>in_ID = ''A'', in_ScriptKey = ''K1''\<rparr>, \<lparr>in_ID = ''A'', in_ScriptKey = ''K4''\<rparr>],
      Outputs = demoOutputs stamped, op_PassiveAssets = demoPassive\<rparr>"

definition demoConf :: TxConfirmation where
  "demoConf = \<lparr>conf_BlockHash = ''bh'', conf_BlockHeight = 101, conf_TxIndex = 2,
                conf_Tx = demoAnchorTx, conf_Block = ''block''\<rparr>"

definition demoVPacket :: VPacket where
  "demoVPacket =
     \<lparr>vp_Outputs = [\<lparr>vout_Type = TypeSplitRoot,
                      vout_ScriptKey = \<lparr>PubKey = ''K3'', Tweaked = None\<rparr>\<rparr>,
                    \<lparr>vout_Type = TypeSimple,
                      vout_ScriptKey = \<lparr>PubKey = ''K2'', Tweaked = None\<rparr>\<rparr>],
      vp_Witnessed = False\<rparr>"

definition demoPackages :: Packages where
  "demoPackages =
     \<lparr>btcec_ParsePubKey = (\<lambda>k. Inr k),
      txscript_ExtractWitnessProgramInfo = (\<lambda>s. Inr s),
      schnorr_ParsePubKey = (\<lambda>s. Inr s),
      UpdateTransitionProof_err = (\<lambda>pr params. None),
      AppendProof_err = (\<lambda>f pr. None),
      Encode_err = (\<lambda>f. None),
      FirstNonSplitRootOutput = (\<lambda>vp. Inr (vp_Outputs vp ! 1)),
      prepareForStorage = (\<lambda>pkg h. Inr (demoParcel False))\<rparr>"

definition demoConfig :: "ConfSelect \<Rightarrow> Courier_iface option \<Rightarrow> ChainPorterConfig" where
  "demoConfig sel courier =
     \<lparr>ExportLog = \<lparr>LogPendingParcel = (\<lambda>tr parcel. None),
                    ConfirmParcelDelivery = (\<lambda>tr ev. None)\<rparr>,
      ChainBridge = \<lparr>EstimateFee = (\<lambda>tr. Inr 5), CurrentHeight = (\<lambda>tr. Inr 100),
                      PublishTransaction = (\<lambda>tr tx. None),
                      RegisterConfirmationsNtfn = (\<lambda>tr h s hint. None),
                      ConfirmationSelect = (\<lambda>tr. sel)\<rparr>,
      Wallet_ImportTaprootOutput = (\<lambda>tr k. Some (Err ''output already exists'')),
      KeyRing_IsLocalKey = (\<lambda>tr k. k = ''raw3''),
      AssetWallet = \<lparr>FundAddressSend = (\<lambda>tr addrs.
                         Inr \<lparr>fund_VPacket = demoVPacket, fund_InputCommitments = [''c1'']\<rparr>),
                      SignVirtualPacket = (\<lambda>tr vp. Inr (vp\<lparr>vp_Witnessed := True\<rparr>)),
                      SignPassiveAssets = (\<lambda>tr vp cs. Inr demoPassive),
                      AnchorVirtualTransactions = (\<lambda>tr fee vp cs vps. Inr ''psbt'')\<rparr>,
      AssetProofs = \<lparr>FetchProof = (\<lambda>tr loc. Inr (FileBlob [Proof (loc_ScriptKey loc) None []])),
                      ImportProofs = (\<lambda>tr ps. None)\<rparr>,
      ProofCourier = courier\<rparr>"

definition demoPorter :: "ConfSelect \<Rightarrow> Courier_iface option \<Rightarrow> ChainPorter" where
  "demoPorter sel courier =
     \<lparr>cfg = demoConfig sel courier, Quit = (\<lambda>tr. False), pkgs = demoPackages\<rparr>"

definition demoCourier :: "error option \<Rightarrow> Courier_iface" where
  "demoCourier r = \<lparr>DeliverProof = (\<lambda>tr rcpt ap. r)\<rparr>"

definition world0 :: world where
  "world0 = \<lparr>trace = [], quitSeen = False, stateLog = []\<rparr>"

definition demoPkg :: "SendState \<Rightarrow> sendPackage" where
  "demoPkg s =
     \<lparr>SendState = s, Parcel = Some (AddressParcel [''addr'']), VirtualPacket = None,
      InputCommitments = [], PassiveAssets = [], AnchorTx = None,
      OutboundPkg = None, TransferTxConfEvent = None, FinalProofs = []\<rparr>"

text \<open>
  For C8. The porter with a wallet that imports every output without complaint; the
  answers of the wallet that \<^verbatim>\<open>importLocalAddresses\<close> lets pass: nil, and an error whose
  message contains \<^verbatim>\<open>already exists\<close>; and whether every import among a list of
  events was answered that way, each answer read at the trace of its call.
\<close>

definition walletAlwaysImports :: "ChainPorter \<Rightarrow> ChainPorter" where
  "walletAlwaysImports p = p\<lparr>cfg := (cfg p)\<lparr>Wallet_ImportTaprootOutput := (\<lambda>tr k. None)\<rparr>\<rparr>"

definition tolerated :: "error option \<Rightarrow> bool" where
  "tolerated r = (case r of None \<Rightarrow> True | Some err \<Rightarrow> strings_Contains (Error err) ''already exists'')"

fun importsTolerated :: "ChainPorter \<Rightarrow> trace \<Rightarrow> event list \<Rightarrow> bool" where
  "importsTolerated p tr [] = True"
| "importsTolerated p tr (EvImportTaprootOutput k # evs) =
     (tolerated (Wallet_ImportTaprootOutput (cfg p) tr k) \<and>
      importsTolerated p (tr @ [EvImportTaprootOutput k]) evs)"
| "importsTolerated p tr (ev # evs) = importsTolerated p (tr @ [ev]) evs"

text \<open>
  A parcel whose two outputs are both local, and a wallet that already has the first
  anchor output (\<^verbatim>\<open>s0\<close>) and is locked when asked for any other.
\<close>

definition twoLocalParcel :: OutboundParcel where
  "twoLocalParcel =
     (demoParcel True)\<lparr>Outputs :=
        map (\<lambda>out. out\<lparr>ScriptKeyLocal := True\<rparr>) (demoOutputs True)\<rparr>"

definition pickyWallet :: "ChainPorter \<Rightarrow> ChainPorter" where
  "pickyWallet p =
     p\<lparr>cfg := (cfg p)\<lparr>Wallet_ImportTaprootOutput :=
        (\<lambda>tr k. if k = ''s0'' then Some (Err ''output already exists'')
                 else Some (Err ''wallet is locked''))\<rparr>\<rparr>"

definition twoLocalPkg :: sendPackage where
  "twoLocalPkg = (demoPkg SendStateBroadcast)\<lparr>OutboundPkg := Some twoLocalParcel\<rparr>"

definition demoPkgAt :: "SendState \<Rightarrow> sendPackage" where
  "demoPkgAt s = (demoPkg s)\<lparr>OutboundPkg := Some (demoParcel True)\<rparr>"

subsection \<open>Reading a trace\<close>

text \<open>The calls of one kind in a list of events, in order.\<close>

fun deliveryOf :: "event \<Rightarrow> (Recipient \<times> AnnotatedProof) list" where
  "deliveryOf (EvDeliverProof rcpt ap) = [(rcpt, ap)]"
| "deliveryOf ev = []"

definition deliveries :: "event list \<Rightarrow> (Recipient \<times> AnnotatedProof) list" where
  "deliveries evs = concat (map deliveryOf evs)"

fun confirmationOf :: "event \<Rightarrow> AssetConfirmEvent list" where
  "confirmationOf (EvConfirmParcelDelivery ev) = [ev]"
| "confirmationOf ev = []"

definition confirmations :: "event list \<Rightarrow> AssetConfirmEvent list" where
  "confirmations evs = concat (map confirmationOf evs)"

fun importOf :: "event \<Rightarrow> AnnotatedProof list list" where
  "importOf (EvImportProofs aps) = [aps]"
| "importOf ev = []"

definition importBatches :: "event list \<Rightarrow> AnnotatedProof list list" where
  "importBatches evs = concat (map importOf evs)"




definition passiveLocator :: "PassiveAssetReAnchor \<Rightarrow> Locator" where
  "passiveLocator passiveAsset =
     \<lparr>loc_AssetID = pa_GenesisID passiveAsset, loc_ScriptKey = PubKey (pa_ScriptKey passiveAsset)\<rparr>"

text \<open>
  For C10: the answers of the archive to the fetches of lines 606-620, each read at the
  trace of its call, and the map that the assignments of line 619 build from the blobs
  of the answers.
\<close>

fun passiveAnswers :: "ChainPorter \<Rightarrow> trace \<Rightarrow> PassiveAssetReAnchor list \<Rightarrow> (error + Blob) list" where
  "passiveAnswers p tr [] = []"
| "passiveAnswers p tr (passiveAsset # rest) =
     FetchProof (AssetProofs (cfg p)) tr (passiveLocator passiveAsset) #
     passiveAnswers p (tr @ [EvFetchProof (passiveLocator passiveAsset)]) rest"

definition passiveFileMap :: "PassiveAssetReAnchor list \<Rightarrow> Blob list \<Rightarrow> (Locator \<times> Blob) list" where
  "passiveFileMap pas blobs =
     fold (\<lambda>(passiveAsset, blob). mapPut (passiveLocator passiveAsset) blob) (zip pas blobs) []"


text \<open>The event that lines 624-631 hand to \<^verbatim>\<open>ConfirmParcelDelivery\<close>.\<close>

definition confirmEvent ::
  "sendPackage \<Rightarrow> OutboundParcel \<Rightarrow> TxConfirmation \<Rightarrow> (Locator \<times> Blob) list \<Rightarrow> AssetConfirmEvent" where
  "confirmEvent pkg parcel confEvent files =
     \<lparr>AnchorTXID = TxHash (op_AnchorTx parcel), ace_BlockHash = conf_BlockHash confEvent,
      ace_BlockHeight = sint (conf_BlockHeight confEvent),
      ace_TxIndex = sint (conf_TxIndex confEvent),
      ace_FinalProofs = FinalProofs pkg, PassiveAssetProofFiles = files\<rparr>"

text \<open>
  The concrete package after the confirmation, and after \<^verbatim>\<open>storeProofs\<close> has sealed its
  proofs; a courier that always backs off.
\<close>

definition demoPkgConfirmed :: sendPackage where
  "demoPkgConfirmed =
     (demoPkgAt SendStateStoreProofs)\<lparr>PassiveAssets := demoPassive,
                                      TransferTxConfEvent := Some demoConf\<rparr>"

definition demoPkgSealed :: sendPackage where
  "demoPkgSealed = fst (snd (storeProofs (demoPorter SelQuit None) world0 demoPkgConfirmed))"

definition backoffCourier :: Courier_iface where
  "backoffCourier = demoCourier (Some (BackoffExecError (Err ''courier unreachable'')))"


text \<open>
  For C5, C6 and C9: a proof stamped with the chain data of a confirmation event; a file
  that the archive returns for a locator between two worlds: the trace of the second
  world extends that of the first by a fetch of the locator, among other events, and
  the file is the answer of the archive at the moment of that fetch; the file the
  archive returns for an input of the parcel.
\<close>

definition stamped :: "TxConfirmation \<Rightarrow> Proof \<Rightarrow> Proof" where
  "stamped ce pr = Proof (proof_ScriptKey pr) (Some (confParams ce)) (AdditionalInputs pr)"

definition archived :: "ChainPorter \<Rightarrow> world \<Rightarrow> world \<Rightarrow> Locator \<Rightarrow> File \<Rightarrow> bool" where
  "archived p w w' loc file =
     (\<exists>pre post. trace w' = trace w @ pre @ EvFetchProof loc # post \<and>
        FetchProof (AssetProofs (cfg p)) (trace w @ pre) loc = Inr (FileBlob file))"

definition inputFile ::
  "ChainPorter \<Rightarrow> world \<Rightarrow> world \<Rightarrow> TransferInput \<Rightarrow> File \<Rightarrow> bool" where
  "inputFile p w w' input file =
     (\<exists>k. btcec_ParsePubKey (pkgs p) (in_ScriptKey input) = Inr k \<and>
          archived p w w' \<lparr>loc_AssetID = in_ID input, loc_ScriptKey = k\<rparr> file)"

text \<open>
  The annotated proof of a passive asset: the archived file of the asset with the new
  proof, stamped, appended. The sealed proof of an output: the archived file of the
  first input with the stamped suffix appended, the suffix carrying, after its own
  additional inputs, the archived files of the further inputs. The archived files are
  those fetched between the two worlds.
\<close>

definition passiveSealed ::
  "ChainPorter \<Rightarrow> world \<Rightarrow> world \<Rightarrow> TxConfirmation \<Rightarrow> PassiveAssetReAnchor \<Rightarrow> AnnotatedProof
     \<Rightarrow> bool" where
  "passiveSealed p w w' ce passiveAsset ap =
     (\<exists>file. archived p w w' (passiveLocator passiveAsset) file \<and>
        ap = \<lparr>Locator = \<lparr>loc_AssetID = pa_GenesisID passiveAsset,
                          loc_ScriptKey = proof_ScriptKey (NewProof passiveAsset)\<rparr>,
              Blob = FileBlob (file @ [stamped ce (NewProof passiveAsset)])\<rparr>)"

definition outputSealed ::
  "ChainPorter \<Rightarrow> world \<Rightarrow> world \<Rightarrow> TransferInput \<Rightarrow> TransferInput list \<Rightarrow> TxConfirmation
     \<Rightarrow> TransferOutput \<Rightarrow> AnnotatedProof \<Rightarrow> bool" where
  "outputSealed p w w' firstInput moreInputs ce out ap =
     (\<exists>suffix base extra.
        Proof_Decode (ProofSuffix out) = Inr suffix \<and> inputFile p w w' firstInput base \<and>
        list_all2 (inputFile p w w') moreInputs extra \<and>
        ap = \<lparr>Locator = \<lparr>loc_AssetID = in_ID firstInput,
                          loc_ScriptKey = PubKey (out_ScriptKey out)\<rparr>,
              Blob = FileBlob (base @ [Proof (proof_ScriptKey suffix) (Some (confParams ce))
                                         (AdditionalInputs suffix @ extra)])\<rparr>)"

text \<open>
  The spec's scenario S4: a parcel without inputs, whose one output anchors two passive
  assets; the package that carries it into \<^verbatim>\<open>storeProofs\<close>. And the proofs of a blob
  that encodes a file.
\<close>

definition passiveOnlyParcel :: OutboundParcel where
  "passiveOnlyParcel =
     \<lparr>op_AnchorTx = demoAnchorTx, AnchorTxHeightHint = 100, Inputs = [],
      Outputs = [\<lparr>out_AnchorIndex = 0, out_Type = TypePassiveAssetsOnly,
                  out_ScriptKey = \<lparr>PubKey = ''K5'', Tweaked = None\<rparr>, ScriptKeyLocal = False,
                  out_Amount = 0, ProofSuffix = RawBlob []\<rparr>],
      op_PassiveAssets =
        demoPassive @
        [\<lparr>pa_VPacket = \<lparr>vp_Outputs = [], vp_Witnessed = True\<rparr>, pa_GenesisID = ''C'',
          pa_ScriptKey = \<lparr>PubKey = ''P2'', Tweaked = None\<rparr>, NewProof = Proof ''P2'' None []\<rparr>]\<rparr>"

definition passiveOnlyPkg :: sendPackage where
  "passiveOnlyPkg =
     (demoPkg SendStateStoreProofs)\<lparr>PassiveAssets := op_PassiveAssets passiveOnlyParcel,
        OutboundPkg := Some passiveOnlyParcel, TransferTxConfEvent := Some demoConf\<rparr>"

definition blobFile :: "Blob \<Rightarrow> File" where
  "blobFile b = (case b of FileBlob f \<Rightarrow> f | _ \<Rightarrow> [])"

text \<open>
  For C5: a parcel with one input whose output carries a stored proof suffix that has an
  additional input of its own, and the package that carries it into \<^verbatim>\<open>storeProofs\<close>.
\<close>

definition mergedSuffixParcel :: OutboundParcel where
  "mergedSuffixParcel =
     \<lparr>op_AnchorTx = demoAnchorTx, AnchorTxHeightHint = 100,
      Inputs = [\<lparr>in_ID = ''A'', in_ScriptKey = ''K1''\<rparr>],
      Outputs = [\<lparr>out_AnchorIndex = 0, out_Type = TypeSimple,
                  out_ScriptKey = \<lparr>PubKey = ''K2'', Tweaked = None\<rparr>, ScriptKeyLocal = False,
                  out_Amount = 100,
                  ProofSuffix = ProofBlob (Proof ''K2'' None [[Proof ''K9'' None []]])\<rparr>],
      op_PassiveAssets = []\<rparr>"

definition mergedSuffixPkg :: sendPackage where
  "mergedSuffixPkg =
     (demoPkg SendStateStoreProofs)\<lparr>OutboundPkg := Some mergedSuffixParcel,
        TransferTxConfEvent := Some demoConf\<rparr>"

text \<open>
  For C3: the values assigned to a \<^verbatim>\<open>SendState\<close> field between two worlds. For C1: a
  list of events keeps the journal ahead of the broadcast, from the anchor transactions
  \<open>J\<close> that are already journalled, when every transaction published has been journalled
  before: it is in \<open>J\<close> or is the anchor transaction of a parcel that an earlier
  \<^verbatim>\<open>LogPendingParcel\<close> of the list has written with success.
\<close>

definition assigned :: "world \<Rightarrow> world \<Rightarrow> SendState list" where
  "assigned w w' = drop (length (stateLog w)) (stateLog w')"

fun journalAfter :: "MsgTx list \<Rightarrow> event list \<Rightarrow> MsgTx list" where
  "journalAfter J [] = J"
| "journalAfter J (EvLogPendingParcel parcel r # evs) =
     journalAfter (if r = None then op_AnchorTx parcel # J else J) evs"
| "journalAfter J (ev # evs) = journalAfter J evs"

fun journalBeforeBroadcast :: "MsgTx list \<Rightarrow> event list \<Rightarrow> bool" where
  "journalBeforeBroadcast J [] = True"
| "journalBeforeBroadcast J (EvLogPendingParcel parcel r # evs) =
     journalBeforeBroadcast (if r = None then op_AnchorTx parcel # J else J) evs"
| "journalBeforeBroadcast J (EvPublishTransaction tx # evs) =
     (tx \<in> set J \<and> journalBeforeBroadcast J evs)"
| "journalBeforeBroadcast J (ev # evs) = journalBeforeBroadcast J evs"

section \<open>The claims\<close>

subsection \<open>C4: how the confirmation wait ends\<close>

text \<open>
  C4, as the code has it. With the parcel and its first anchor output present:
  \<^verbatim>\<open>waitForTransferTxConf\<close> returns nil exactly when the registration succeeded and the
  wait ended by quit or by a confirmation event. When the wait ends by cancellation of
  the context, no event has been received and the function returns the error
  \<^verbatim>\<open>got empty package tx confirmation event in batch\<close>, leaving the package as it was;
  on quit it returns nil, leaving the package as it was; on a confirmation event it
  records the event and sets the state to \<^verbatim>\<open>SendStateStoreProofs\<close>.
\<close>

theorem waitForTransferTxConf_outcomes:
  assumes "OutboundPkg pkg = Some parcel"
    and "TxOuts (op_AnchorTx parcel) = txOut0 # rest"
    and "w1 = emit (EvRegisterConfirmationsNtfn (TxHash (op_AnchorTx parcel)) (PkScript txOut0)
                      (AnchorTxHeightHint parcel)) w"
    and "reg = RegisterConfirmationsNtfn (ChainBridge (cfg p)) (trace w)
                 (TxHash (op_AnchorTx parcel)) (PkScript txOut0) (AnchorTxHeightHint parcel)"
    and "sel = ConfirmationSelect (ChainBridge (cfg p)) (trace w1)"
    and "waitForTransferTxConf p w pkg = (w', pkg', r)"
  shows "(r = None \<longleftrightarrow> reg = None \<and> (sel = SelQuit \<or> (\<exists>ce. sel = SelConfirmed (Some ce)))) \<and>
         (reg = None \<and> sel = SelCtxDone \<longrightarrow>
            r = Some (Err ''got empty package tx confirmation event in batch'') \<and> pkg' = pkg) \<and>
         (reg = None \<and> sel = SelQuit \<longrightarrow> pkg' = pkg \<and> quitSeen w') \<and>
         (\<forall>ce. reg = None \<and> sel = SelConfirmed (Some ce) \<longrightarrow>
            pkg' = pkg\<lparr>TransferTxConfEvent := Some ce, SendState := SendStateStoreProofs\<rparr>)"
  using assms
  by (auto simp: waitForTransferTxConf_def Let_def setSendState_def
           split: option.splits ConfSelect.splits)

text \<open>The theorem at the concrete parcel: quit gives nil, a cancelled context the error.\<close>

theorem waitForTransferTxConf_outcomes_witness:
  "snd (snd (waitForTransferTxConf (demoPorter SelQuit None) world0
               ((demoPkg SendStateWaitTxConf)\<lparr>OutboundPkg := Some (demoParcel True)\<rparr>))) = None \<and>
   snd (snd (waitForTransferTxConf (demoPorter SelCtxDone None) world0
               ((demoPkg SendStateWaitTxConf)\<lparr>OutboundPkg := Some (demoParcel True)\<rparr>)))
     = Some (Err ''got empty package tx confirmation event in batch'')"
proof -
  let ?pkg = "(demoPkg SendStateWaitTxConf)\<lparr>OutboundPkg := Some (demoParcel True)\<rparr>"
  let ?w1 = "emit (EvRegisterConfirmationsNtfn ''tx1'' ''s0'' 100) world0"
  have a: "OutboundPkg ?pkg = Some (demoParcel True)" by (simp add: demoPkg_def)
  have b: "TxOuts (op_AnchorTx (demoParcel True)) =
             \<lparr>Value = 1000, PkScript = ''s0''\<rparr> # [\<lparr>Value = 1000, PkScript = ''s1''\<rparr>]"
    by (simp add: demoParcel_def demoAnchorTx_def)
  have c: "?w1 = emit (EvRegisterConfirmationsNtfn (TxHash (op_AnchorTx (demoParcel True)))
              (PkScript \<lparr>Value = 1000, PkScript = ''s0''\<rparr>) (AnchorTxHeightHint (demoParcel True))) world0"
    by (simp add: demoParcel_def demoAnchorTx_def)
  have q: "waitForTransferTxConf (demoPorter SelQuit None) world0 ?pkg =
        (fst (waitForTransferTxConf (demoPorter SelQuit None) world0 ?pkg),
         fst (snd (waitForTransferTxConf (demoPorter SelQuit None) world0 ?pkg)),
         snd (snd (waitForTransferTxConf (demoPorter SelQuit None) world0 ?pkg)))" by simp
  have d: "waitForTransferTxConf (demoPorter SelCtxDone None) world0 ?pkg =
        (fst (waitForTransferTxConf (demoPorter SelCtxDone None) world0 ?pkg),
         fst (snd (waitForTransferTxConf (demoPorter SelCtxDone None) world0 ?pkg)),
         snd (snd (waitForTransferTxConf (demoPorter SelCtxDone None) world0 ?pkg)))" by simp
  show ?thesis
    using waitForTransferTxConf_outcomes[OF a b c refl refl q]
          waitForTransferTxConf_outcomes[OF a b c refl refl d]
    by (simp add: demoPorter_def demoConfig_def)
qed

text \<open>
  C4 as the claim states it fails: at the concrete parcel the wait ends by cancellation
  of the context, and the function returns an error.
\<close>

theorem waitForTransferTxConf_ctx_done_counterexample:
  "ConfirmationSelect (ChainBridge (cfg (demoPorter SelCtxDone None)))
     (trace (emit (EvRegisterConfirmationsNtfn ''tx1'' ''s0'' 100) world0)) = SelCtxDone \<and>
   snd (snd (waitForTransferTxConf (demoPorter SelCtxDone None) world0
               ((demoPkg SendStateWaitTxConf)\<lparr>OutboundPkg := Some (demoParcel True)\<rparr>)))
     = Some (Err ''got empty package tx confirmation event in batch'')"
  by code_simp

subsection \<open>C8: an anchor output the wallet already has\<close>

lemma importLocalAddresses_loop_tolerant:
  assumes "\<And>tr k. tolerated (Wallet_ImportTaprootOutput (cfg p) tr k)"
  shows "importLocalAddresses_loop p parcel outs w =
         importLocalAddresses_loop (walletAlwaysImports p) parcel outs w"
proof (induction outs arbitrary: w)
  case Nil
  show ?case by simp
next
  case (Cons out outs)
  have t: "Wallet_ImportTaprootOutput (cfg p) (trace w) k = Some err \<Longrightarrow>
             strings_Contains (Error err) ''already exists''"
    for k err using assms[of "trace w" k] by (simp add: tolerated_def)
  have c: "pkgs (walletAlwaysImports p) = pkgs p"
    "\<And>tr k. Wallet_ImportTaprootOutput (cfg (walletAlwaysImports p)) tr k = None"
    by (simp_all add: walletAlwaysImports_def)
  show ?case
    by (simp add: Let_def c Cons.IH t split: sum.splits option.splits)
qed

lemma importLocalAddresses_loop_append:
  "importLocalAddresses_loop p parcel (pre @ rest) w =
     (case importLocalAddresses_loop p parcel pre w of
        (w1, None) \<Rightarrow> importLocalAddresses_loop p parcel rest w1
      | (w1, Some err) \<Rightarrow> (w1, Some err))"
  by (induction pre arbitrary: w) (auto simp: Let_def split: sum.splits option.splits)

lemma importLocalAddresses_loop_None:
  "importLocalAddresses_loop p parcel outs w = (w', None) \<Longrightarrow>
     \<exists>evs. trace w' = trace w @ evs \<and> importsTolerated p (trace w) evs \<and>
       list_all2 (\<lambda>out ev. \<exists>witProgram key.
            unat (out_AnchorIndex out) < length (TxOuts (op_AnchorTx parcel)) \<and>
            txscript_ExtractWitnessProgramInfo (pkgs p)
              (PkScript (TxOuts (op_AnchorTx parcel) ! unat (out_AnchorIndex out))) = Inr witProgram \<and>
            schnorr_ParsePubKey (pkgs p) witProgram = Inr key \<and>
            ev = EvImportTaprootOutput key)
         (filter ScriptKeyLocal outs) evs"
proof (induction outs arbitrary: w)
  case Nil
  then show ?case by simp
next
  case (Cons out outs)
  show ?case
  proof (cases "ScriptKeyLocal out")
    case False
    then show ?thesis using Cons.prems Cons.IH[of w] by simp
  next
    case True
    from Cons.prems True obtain witProgram key where
      a: "unat (out_AnchorIndex out) < length (TxOuts (op_AnchorTx parcel))"
         "txscript_ExtractWitnessProgramInfo (pkgs p)
              (PkScript (TxOuts (op_AnchorTx parcel) ! unat (out_AnchorIndex out))) = Inr witProgram"
         "schnorr_ParsePubKey (pkgs p) witProgram = Inr key"
         "tolerated (Wallet_ImportTaprootOutput (cfg p) (trace w) key)"
         "importLocalAddresses_loop p parcel outs (emit (EvImportTaprootOutput key) w) = (w', None)"
      by (auto simp: Let_def tolerated_def split: sum.splits option.splits if_splits)
    from Cons.IH[OF a(5)] obtain evs where
      e: "trace w' = trace (emit (EvImportTaprootOutput key) w) @ evs"
         "importsTolerated p (trace (emit (EvImportTaprootOutput key) w)) evs"
         "list_all2 (\<lambda>out ev. \<exists>witProgram key.
            unat (out_AnchorIndex out) < length (TxOuts (op_AnchorTx parcel)) \<and>
            txscript_ExtractWitnessProgramInfo (pkgs p)
              (PkScript (TxOuts (op_AnchorTx parcel) ! unat (out_AnchorIndex out))) = Inr witProgram \<and>
            schnorr_ParsePubKey (pkgs p) witProgram = Inr key \<and>
            ev = EvImportTaprootOutput key)
         (filter ScriptKeyLocal outs) evs"
      by blast
    show ?thesis using True a(1-4) e
      by (intro exI[of _ "EvImportTaprootOutput key # evs"]) auto
  qed
qed

lemma importLocalAddresses_loop_Some:
  "importLocalAddresses_loop p parcel outs w = (w', Some err) \<Longrightarrow>
     err = Panic ''index out of range'' \<or>
     (\<exists>s. txscript_ExtractWitnessProgramInfo (pkgs p) s = Inl err) \<or>
     (\<exists>s. schnorr_ParsePubKey (pkgs p) s = Inl err) \<or>
     (\<exists>tr k. Wallet_ImportTaprootOutput (cfg p) tr k = Some err \<and>
             \<not> strings_Contains (Error err) ''already exists'')"
proof (induction outs arbitrary: w)
  case Nil
  then show ?case by simp
next
  case (Cons out outs)
  have k: "importLocalAddresses_loop p parcel outs v = (w', Some err) \<Longrightarrow>
     err = Panic ''index out of range'' \<or>
     (\<exists>s. txscript_ExtractWitnessProgramInfo (pkgs p) s = Inl err) \<or>
     (\<exists>s. schnorr_ParsePubKey (pkgs p) s = Inl err) \<or>
     (\<exists>tr k. Wallet_ImportTaprootOutput (cfg p) tr k = Some err \<and>
             \<not> strings_Contains (Error err) ''already exists'')" for v
    by (rule Cons.IH)
  show ?case
  proof (cases "ScriptKeyLocal out")
    case False
    then show ?thesis using Cons.prems k[of w] by simp
  next
    case True
    show ?thesis
    proof (cases "length (TxOuts (op_AnchorTx parcel)) \<le> unat (out_AnchorIndex out)")
      case T: True
      then show ?thesis using Cons.prems True by (simp add: Let_def)
    next
      case F: False
      show ?thesis
      proof (cases "txscript_ExtractWitnessProgramInfo (pkgs p)
              (PkScript (TxOuts (op_AnchorTx parcel) ! unat (out_AnchorIndex out)))")
        case (Inl e1)
        then have "err = e1" using Cons.prems True F by (simp add: Let_def)
        then show ?thesis using Inl by blast
      next
        case (Inr witProgram)
        show ?thesis
        proof (cases "schnorr_ParsePubKey (pkgs p) witProgram")
          case I2: (Inl e2)
          then have "err = e2" using Cons.prems True F Inr by (simp add: Let_def)
          then show ?thesis using I2 by blast
        next
          case R2: (Inr key)
          show ?thesis
          proof (cases "Wallet_ImportTaprootOutput (cfg p) (trace w) key")
            case None
            then have "importLocalAddresses_loop p parcel outs (emit (EvImportTaprootOutput key) w)
                         = (w', Some err)"
              using Cons.prems True F Inr R2 by (simp add: Let_def)
            then show ?thesis by (rule k)
          next
            case (Some e3)
            show ?thesis
            proof (cases "strings_Contains (Error e3) ''already exists''")
              case C: True
              then have "importLocalAddresses_loop p parcel outs (emit (EvImportTaprootOutput key) w)
                         = (w', Some err)"
                using Cons.prems True F Inr R2 Some by (simp add: Let_def)
              then show ?thesis by (rule k)
            next
              case C: False
              then have "err = e3" using Cons.prems True F Inr R2 Some by (simp add: Let_def)
              then show ?thesis using Some C by blast
            qed
          qed
        qed
      qed
    qed
  qed
qed

text \<open>
  C8. An import that the wallet answers with nil or with an error whose message contains
  \<^verbatim>\<open>already exists\<close> counts as a success, wherever in the list of outputs it happens:
  the loop goes on with the remaining outputs. Any other import error, at whichever
  local output, ends \<^verbatim>\<open>importLocalAddresses\<close> with that error, and nothing is imported
  after it. When \<^verbatim>\<open>importLocalAddresses\<close> returns nil it has called the wallet once for
  every local output, in order, and every answer was a tolerated one; when it returns an
  error, that error is a failure to read the anchor output or an answer of the wallet
  that does not contain \<^verbatim>\<open>already exists\<close>. With a wallet all of whose answers are
  tolerated, \<^verbatim>\<open>importLocalAddresses\<close> and the whole Broadcast step do what they do with
  a wallet that imports everything. An error of \<^verbatim>\<open>importLocalAddresses\<close> ends the
  Broadcast step with \<^verbatim>\<open>unable to import local addresses\<close>, before anything is
  published.
\<close>

theorem importLocalAddresses_already_exists:
  "((\<forall>tr k. tolerated (Wallet_ImportTaprootOutput (cfg p) tr k)) \<longrightarrow>
      importLocalAddresses p parcel w = importLocalAddresses (walletAlwaysImports p) parcel w \<and>
      (SendState pkg = SendStateBroadcast \<longrightarrow>
         stateStep p w pkg = stateStep (walletAlwaysImports p) w pkg)) \<and>
   (importLocalAddresses_loop p pc pre w = (w0, None) \<and>
    ScriptKeyLocal out \<and> unat (out_AnchorIndex out) < length (TxOuts (op_AnchorTx pc)) \<and>
    txscript_ExtractWitnessProgramInfo (pkgs p)
      (PkScript (TxOuts (op_AnchorTx pc) ! unat (out_AnchorIndex out))) = Inr witProgram \<and>
    schnorr_ParsePubKey (pkgs p) witProgram = Inr key \<longrightarrow>
      (tolerated (Wallet_ImportTaprootOutput (cfg p) (trace w0) key) \<longrightarrow>
         importLocalAddresses_loop p pc (pre @ out # outs) w =
           importLocalAddresses_loop p pc outs (emit (EvImportTaprootOutput key) w0)) \<and>
      (Wallet_ImportTaprootOutput (cfg p) (trace w0) key = Some err \<and>
       \<not> strings_Contains (Error err) ''already exists'' \<longrightarrow>
         importLocalAddresses_loop p pc (pre @ out # outs) w =
           (emit (EvImportTaprootOutput key) w0, Some err))) \<and>
   (importLocalAddresses_loop p pc outs w = (w', None) \<longrightarrow>
      importsTolerated p (trace w) (newEvents w w') \<and>
      list_all2 (\<lambda>out ev. \<exists>witProgram key.
            unat (out_AnchorIndex out) < length (TxOuts (op_AnchorTx pc)) \<and>
            txscript_ExtractWitnessProgramInfo (pkgs p)
              (PkScript (TxOuts (op_AnchorTx pc) ! unat (out_AnchorIndex out))) = Inr witProgram \<and>
            schnorr_ParsePubKey (pkgs p) witProgram = Inr key \<and>
            ev = EvImportTaprootOutput key)
         (filter ScriptKeyLocal outs) (newEvents w w')) \<and>
   (importLocalAddresses_loop p pc outs w = (w', Some err) \<longrightarrow>
      err = Panic ''index out of range'' \<or>
      (\<exists>s. txscript_ExtractWitnessProgramInfo (pkgs p) s = Inl err) \<or>
      (\<exists>s. schnorr_ParsePubKey (pkgs p) s = Inl err) \<or>
      (\<exists>tr k. Wallet_ImportTaprootOutput (cfg p) tr k = Some err \<and>
              \<not> strings_Contains (Error err) ''already exists'')) \<and>
   (SendState pkg = SendStateBroadcast \<and>
    importLocalAddresses p (OutboundPkg pkg) (emit (EvExecuteSendState SendStateBroadcast) w)
      = (w1, Some err) \<longrightarrow>
      stateStep p w pkg = (w1, None, Some (Errorf_w ''unable to import local addresses: '' err)))"
proof (intro conjI impI)
  assume h: "\<forall>tr k. tolerated (Wallet_ImportTaprootOutput (cfg p) tr k)"
  show i: "importLocalAddresses p parcel w = importLocalAddresses (walletAlwaysImports p) parcel w"
    for parcel w
    using importLocalAddresses_loop_tolerant[of p] h
    by (simp add: importLocalAddresses_def split: option.splits)
  assume "SendState pkg = SendStateBroadcast"
  then show "stateStep p w pkg = stateStep (walletAlwaysImports p) w pkg"
    by (simp add: stateStep_def i) (simp add: walletAlwaysImports_def split: prod.splits option.splits)
next
  assume a: "importLocalAddresses_loop p pc pre w = (w0, None) \<and>
    ScriptKeyLocal out \<and> unat (out_AnchorIndex out) < length (TxOuts (op_AnchorTx pc)) \<and>
    txscript_ExtractWitnessProgramInfo (pkgs p)
      (PkScript (TxOuts (op_AnchorTx pc) ! unat (out_AnchorIndex out))) = Inr witProgram \<and>
    schnorr_ParsePubKey (pkgs p) witProgram = Inr key"
  {
    assume "tolerated (Wallet_ImportTaprootOutput (cfg p) (trace w0) key)"
    then show "importLocalAddresses_loop p pc (pre @ out # outs) w =
           importLocalAddresses_loop p pc outs (emit (EvImportTaprootOutput key) w0)"
      using a
      by (simp add: importLocalAddresses_loop_append Let_def tolerated_def split: option.splits)
  next
    assume "Wallet_ImportTaprootOutput (cfg p) (trace w0) key = Some err \<and>
       \<not> strings_Contains (Error err) ''already exists''"
    then show "importLocalAddresses_loop p pc (pre @ out # outs) w =
           (emit (EvImportTaprootOutput key) w0, Some err)"
      using a by (simp add: importLocalAddresses_loop_append Let_def)
  }
next
  assume s: "importLocalAddresses_loop p pc outs w = (w', None)"
  from importLocalAddresses_loop_None[OF s] obtain evs where
    e: "trace w' = trace w @ evs" "importsTolerated p (trace w) evs"
       "list_all2 (\<lambda>out ev. \<exists>witProgram key.
            unat (out_AnchorIndex out) < length (TxOuts (op_AnchorTx pc)) \<and>
            txscript_ExtractWitnessProgramInfo (pkgs p)
              (PkScript (TxOuts (op_AnchorTx pc) ! unat (out_AnchorIndex out))) = Inr witProgram \<and>
            schnorr_ParsePubKey (pkgs p) witProgram = Inr key \<and>
            ev = EvImportTaprootOutput key)
         (filter ScriptKeyLocal outs) evs"
    by blast
  have n: "newEvents w w' = evs" using e(1) by (simp add: newEvents_def)
  show "importsTolerated p (trace w) (newEvents w w')" using e(2) n by simp
  show "list_all2 (\<lambda>out ev. \<exists>witProgram key.
            unat (out_AnchorIndex out) < length (TxOuts (op_AnchorTx pc)) \<and>
            txscript_ExtractWitnessProgramInfo (pkgs p)
              (PkScript (TxOuts (op_AnchorTx pc) ! unat (out_AnchorIndex out))) = Inr witProgram \<and>
            schnorr_ParsePubKey (pkgs p) witProgram = Inr key \<and>
            ev = EvImportTaprootOutput key)
         (filter ScriptKeyLocal outs) (newEvents w w')" using e(3) n by simp
next
  assume "importLocalAddresses_loop p pc outs w = (w', Some err)"
  then show "err = Panic ''index out of range'' \<or>
      (\<exists>s. txscript_ExtractWitnessProgramInfo (pkgs p) s = Inl err) \<or>
      (\<exists>s. schnorr_ParsePubKey (pkgs p) s = Inl err) \<or>
      (\<exists>tr k. Wallet_ImportTaprootOutput (cfg p) tr k = Some err \<and>
              \<not> strings_Contains (Error err) ''already exists'')"
    by (rule importLocalAddresses_loop_Some)
next
  assume "SendState pkg = SendStateBroadcast \<and>
    importLocalAddresses p (OutboundPkg pkg) (emit (EvExecuteSendState SendStateBroadcast) w)
      = (w1, Some err)"
  then show "stateStep p w pkg = (w1, None, Some (Errorf_w ''unable to import local addresses: '' err))"
    by (simp add: stateStep_def Let_def)
qed

text \<open>
  The theorem at concrete parcels: the wallet that answers \<^verbatim>\<open>output already exists\<close>
  lets the Broadcast step succeed; the wallet that has the first anchor output and is
  locked for the second imports the first, stops at the second, and fails the step. A
  parcel resumed with the wallet that already has the anchor output runs to
  \<^verbatim>\<open>SendStateComplete\<close>.
\<close>

theorem importLocalAddresses_already_exists_witness:
  "importLocalAddresses (demoPorter SelQuit None) (Some (demoParcel True)) world0 =
     importLocalAddresses (walletAlwaysImports (demoPorter SelQuit None)) (Some (demoParcel True)) world0 \<and>
   stateStep (demoPorter SelQuit None) world0 (demoPkgAt SendStateBroadcast) =
     stateStep (walletAlwaysImports (demoPorter SelQuit None)) world0 (demoPkgAt SendStateBroadcast) \<and>
   snd (snd (stateStep (demoPorter SelQuit None) world0 (demoPkgAt SendStateBroadcast))) = None \<and>
   importLocalAddresses_loop (pickyWallet (demoPorter SelQuit None)) twoLocalParcel
       (Outputs twoLocalParcel) world0 =
     (emit (EvImportTaprootOutput ''s1'') (emit (EvImportTaprootOutput ''s0'') world0),
      Some (Err ''wallet is locked'')) \<and>
   importsTolerated (demoPorter SelQuit None) []
     [EvImportTaprootOutput ''s0'', EvImportTaprootOutput ''s1''] \<and>
   stateStep (pickyWallet (demoPorter SelQuit None)) world0 twoLocalPkg =
     (emit (EvImportTaprootOutput ''s1'') (emit (EvImportTaprootOutput ''s0'')
        (emit (EvExecuteSendState SendStateBroadcast) world0)), None,
      Some (Wrap ''unable to import local addresses: '' (Err ''wallet is locked''))) \<and>
   Wallet_ImportTaprootOutput (cfg (demoPorter (SelConfirmed (Some demoConf)) None))
     [EvExecuteSendState SendStateBroadcast] ''s1'' = Some (Err ''output already exists'') \<and>
   snd (snd (resumePendingParcel (demoPorter (SelConfirmed (Some demoConf)) None) world0
               (demoParcel True))) = None \<and>
   SendState (fst (snd (resumePendingParcel (demoPorter (SelConfirmed (Some demoConf)) None) world0
               (demoParcel True)))) = SendStateComplete"
proof -
  let ?p = "demoPorter SelQuit None"
  let ?q = "pickyWallet ?p"
  let ?o0 = "hd (Outputs twoLocalParcel)"
  let ?o1 = "hd (tl (Outputs twoLocalParcel))"
  let ?w0 = "emit (EvImportTaprootOutput ''s0'') world0"
  let ?w1 = "emit (EvImportTaprootOutput ''s1'') ?w0"
  let ?wb = "emit (EvImportTaprootOutput ''s1'') (emit (EvImportTaprootOutput ''s0'')
        (emit (EvExecuteSendState SendStateBroadcast) world0))"
  have h: "\<forall>tr k. tolerated (Wallet_ImportTaprootOutput (cfg ?p) tr k)"
    by (simp add: demoPorter_def demoConfig_def tolerated_def)
  have o: "Outputs twoLocalParcel = [] @ ?o0 # [?o1]" "Outputs twoLocalParcel = [?o0] @ ?o1 # []"
    by (simp_all add: twoLocalParcel_def demoOutputs_def)
  have a0: "importLocalAddresses_loop ?q twoLocalParcel [] world0 = (world0, None) \<and>
    ScriptKeyLocal ?o0 \<and>
    unat (out_AnchorIndex ?o0) < length (TxOuts (op_AnchorTx twoLocalParcel)) \<and>
    txscript_ExtractWitnessProgramInfo (pkgs ?q)
      (PkScript (TxOuts (op_AnchorTx twoLocalParcel) ! unat (out_AnchorIndex ?o0))) = Inr ''s0'' \<and>
    schnorr_ParsePubKey (pkgs ?q) ''s0'' = Inr ''s0''"
    by (simp add: twoLocalParcel_def demoOutputs_def demoParcel_def demoAnchorTx_def pickyWallet_def
                  demoPorter_def demoPackages_def)
  have t0: "tolerated (Wallet_ImportTaprootOutput (cfg ?q) (trace world0) ''s0'')"
    by (simp add: pickyWallet_def tolerated_def)
  have s0: "importLocalAddresses_loop ?q twoLocalParcel ([] @ ?o0 # [?o1]) world0 =
              importLocalAddresses_loop ?q twoLocalParcel [?o1] ?w0"
    using importLocalAddresses_already_exists[THEN conjunct2, THEN conjunct1, rule_format,
            OF a0, THEN conjunct1, rule_format, OF t0] .
  have a1: "importLocalAddresses_loop ?q twoLocalParcel [?o0] world0 = (?w0, None) \<and>
    ScriptKeyLocal ?o1 \<and>
    unat (out_AnchorIndex ?o1) < length (TxOuts (op_AnchorTx twoLocalParcel)) \<and>
    txscript_ExtractWitnessProgramInfo (pkgs ?q)
      (PkScript (TxOuts (op_AnchorTx twoLocalParcel) ! unat (out_AnchorIndex ?o1))) = Inr ''s1'' \<and>
    schnorr_ParsePubKey (pkgs ?q) ''s1'' = Inr ''s1''"
    by (simp add: twoLocalParcel_def demoOutputs_def demoParcel_def demoAnchorTx_def pickyWallet_def
                  demoPorter_def demoPackages_def Let_def)
  have t1: "Wallet_ImportTaprootOutput (cfg ?q) (trace ?w0) ''s1'' = Some (Err ''wallet is locked'') \<and>
       \<not> strings_Contains (Error (Err ''wallet is locked'')) ''already exists''"
    by (simp add: pickyWallet_def)
  have s1: "importLocalAddresses_loop ?q twoLocalParcel ([?o0] @ ?o1 # []) world0 =
              (?w1, Some (Err ''wallet is locked''))"
    using importLocalAddresses_already_exists[THEN conjunct2, THEN conjunct1, rule_format,
            OF a1, THEN conjunct2, rule_format, OF t1] .
  have l: "importLocalAddresses_loop ?p twoLocalParcel (Outputs twoLocalParcel) world0 = (?w1, None)"
    by (simp add: twoLocalParcel_def demoOutputs_def demoParcel_def demoAnchorTx_def
                  demoPorter_def demoPackages_def demoConfig_def Let_def)
  have n: "newEvents world0 ?w1 = [EvImportTaprootOutput ''s0'', EvImportTaprootOutput ''s1'']"
    "trace world0 = []"
    by (simp_all add: newEvents_def world0_def)
  have it: "importsTolerated ?p (trace world0) (newEvents world0 ?w1)"
    using importLocalAddresses_already_exists[THEN conjunct2, THEN conjunct2, THEN conjunct1,
            rule_format, OF l, THEN conjunct1] .
  have b: "SendState twoLocalPkg = SendStateBroadcast \<and>
    importLocalAddresses ?q (OutboundPkg twoLocalPkg)
       (emit (EvExecuteSendState SendStateBroadcast) world0) = (?wb, Some (Err ''wallet is locked''))"
    by (simp add: twoLocalPkg_def demoPkg_def importLocalAddresses_def twoLocalParcel_def
          demoOutputs_def demoParcel_def demoAnchorTx_def pickyWallet_def demoPorter_def
          demoPackages_def Let_def)
  have st: "stateStep ?q world0 twoLocalPkg =
     (?wb, None, Some (Errorf_w ''unable to import local addresses: '' (Err ''wallet is locked'')))"
    using importLocalAddresses_already_exists[THEN conjunct2, THEN conjunct2, THEN conjunct2,
            THEN conjunct2, rule_format, OF b] .
  have u: "importLocalAddresses ?p (Some (demoParcel True)) world0 =
             importLocalAddresses (walletAlwaysImports ?p) (Some (demoParcel True)) world0 \<and>
           (SendState (demoPkgAt SendStateBroadcast) = SendStateBroadcast \<longrightarrow>
             stateStep ?p world0 (demoPkgAt SendStateBroadcast) =
             stateStep (walletAlwaysImports ?p) world0 (demoPkgAt SendStateBroadcast))"
    using importLocalAddresses_already_exists[THEN conjunct1, THEN mp, OF h] .
  have d: "SendState (demoPkgAt SendStateBroadcast) = SendStateBroadcast"
    by (simp add: demoPkgAt_def demoPkg_def)
  have c: "snd (snd (stateStep ?p world0 (demoPkgAt SendStateBroadcast))) = None"
    by code_simp
  have e: "Errorf_w ''unable to import local addresses: '' (Err ''wallet is locked'') =
           Wrap ''unable to import local addresses: '' (Err ''wallet is locked'')"
    by simp
  have s: "importLocalAddresses_loop ?q twoLocalParcel (Outputs twoLocalParcel) world0 =
              (?w1, Some (Err ''wallet is locked''))"
    by (subst o(2)) (rule s1)
  have rs: "Wallet_ImportTaprootOutput (cfg (demoPorter (SelConfirmed (Some demoConf)) None))
       [EvExecuteSendState SendStateBroadcast] ''s1'' = Some (Err ''output already exists'')"
    "snd (snd (resumePendingParcel (demoPorter (SelConfirmed (Some demoConf)) None) world0
               (demoParcel True))) = None"
    "SendState (fst (snd (resumePendingParcel (demoPorter (SelConfirmed (Some demoConf)) None)
               world0 (demoParcel True)))) = SendStateComplete"
    by code_simp+
  show ?thesis
    using u[THEN conjunct1] u[THEN conjunct2, rule_format, OF d] c s it[unfolded n] st[unfolded e] rs
    by (intro conjI)
qed

subsection \<open>C7, C10 and C2: the delivery of the receiver proofs\<close>

lemma newEvents_append: "trace w' = trace w @ evs \<Longrightarrow> newEvents w w' = evs"
  by (simp add: newEvents_def)

lemma deliveries_simps [simp]:
  "deliveries [] = []"
  "deliveries (a @ b) = deliveries a @ deliveries b"
  "deliveries (ev # evs) = deliveryOf ev @ deliveries evs"
  by (simp_all add: deliveries_def)

lemma confirmations_simps [simp]:
  "confirmations [] = []"
  "confirmations (a @ b) = confirmations a @ confirmations b"
  "confirmations (ev # evs) = confirmationOf ev @ confirmations evs"
  by (simp_all add: confirmations_def)

lemma importBatches_simps [simp]:
  "importBatches [] = []"
  "importBatches (a @ b) = importBatches a @ importBatches b"
  "importBatches (ev # evs) = importOf ev @ importBatches evs"
  by (simp_all add: importBatches_def)




lemma transferReceiverProof_passive_events:
  "transferReceiverProof_passive p pas files w = (w', r) \<Longrightarrow>
     \<exists>evs. trace w' = trace w @ evs \<and> deliveries evs = [] \<and> confirmations evs = [] \<and>
       (\<not> isl r \<longrightarrow> evs = map (\<lambda>pa. EvFetchProof (passiveLocator pa)) pas) \<and>
       ((\<forall>tr loc. \<not> isl (FetchProof (AssetProofs (cfg p)) tr loc)) \<longrightarrow> \<not> isl r)"
proof (induction pas arbitrary: w files)
  case Nil
  then show ?case by auto
next
  case (Cons a pas)
  show ?case
  proof (cases "FetchProof (AssetProofs (cfg p)) (trace w) (passiveLocator a)")
    case (Inl err)
    then have "\<not> (\<forall>tr loc. \<not> isl (FetchProof (AssetProofs (cfg p)) tr loc))"
      by (metis sum.disc(1))
    then show ?thesis using Cons.prems Inl
      by (simp add: Let_def passiveLocator_def) auto
  next
    case (Inr b)
    then have "transferReceiverProof_passive p pas (mapPut (passiveLocator a) b files)
                 (emit (EvFetchProof (passiveLocator a)) w) = (w', r)"
      using Cons.prems by (simp add: Let_def passiveLocator_def)
    from Cons.IH[OF this] show ?thesis by auto
  qed
qed

lemma transferReceiverProof_passive_files:
  "transferReceiverProof_passive p pas files w = (w', Inr files') \<Longrightarrow>
     \<exists>blobs. passiveAnswers p (trace w) pas = map Inr blobs \<and>
        files' = fold (\<lambda>(passiveAsset, blob). mapPut (passiveLocator passiveAsset) blob)
                   (zip pas blobs) files"
proof (induction pas arbitrary: w files)
  case Nil
  then show ?case by simp
next
  case (Cons a pas)
  show ?case
  proof (cases "FetchProof (AssetProofs (cfg p)) (trace w) (passiveLocator a)")
    case (Inl err)
    then show ?thesis using Cons.prems by (simp add: Let_def passiveLocator_def)
  next
    case (Inr b)
    then have "transferReceiverProof_passive p pas (mapPut (passiveLocator a) b files)
                 (emit (EvFetchProof (passiveLocator a)) w) = (w', Inr files')"
      using Cons.prems by (simp add: Let_def passiveLocator_def)
    from Cons.IH[OF this] obtain blobs where
      b: "passiveAnswers p (trace w @ [EvFetchProof (passiveLocator a)]) pas = map Inr blobs"
         "files' = fold (\<lambda>(passiveAsset, blob). mapPut (passiveLocator passiveAsset) blob)
                   (zip pas blobs) (mapPut (passiveLocator a) b files)"
      by auto
    show ?thesis using Inr b by (intro exI[of _ "b # blobs"]) simp
  qed
qed





lemma transferReceiverProof_tail:
  assumes t: "transferReceiverProof p w pkg = (w', pkg', r)"
    and d: "deliverProofs p pkg w = (w1, r1)"
    and o: "OutboundPkg pkg = Some parcel"
  shows "\<exists>evs. trace w' = trace w1 @ evs \<and> deliveries evs = [] \<and>
    (r1 \<noteq> None \<longrightarrow> evs = [] \<and> r = r1 \<and> pkg' = pkg) \<and>
    (r \<noteq> None \<longrightarrow> pkg' = pkg \<and> confirmations evs = [] \<or>
        (\<exists>ev. confirmations evs = [ev] \<and> pkg' = pkg \<and>
              ConfirmParcelDelivery (ExportLog (cfg p)) (butlast (trace w')) ev \<noteq> None)) \<and>
    (r = None \<longrightarrow> pkg' = pkg\<lparr>SendState := SendStateComplete\<rparr> \<and>
        (\<exists>ce blobs. TransferTxConfEvent pkg = Some ce \<and>
           passiveAnswers p (trace w1) (op_PassiveAssets parcel) = map Inr blobs \<and>
           evs = map (\<lambda>pa. EvFetchProof (passiveLocator pa)) (op_PassiveAssets parcel) @
                 [EvConfirmParcelDelivery (confirmEvent pkg parcel ce
                    (passiveFileMap (op_PassiveAssets parcel) blobs))])) \<and>
    (r1 = None \<and> TransferTxConfEvent pkg \<noteq> None \<and>
     (\<forall>tr loc. \<not> isl (FetchProof (AssetProofs (cfg p)) tr loc)) \<and>
     (\<forall>tr ev. ConfirmParcelDelivery (ExportLog (cfg p)) tr ev = None) \<longrightarrow> r = None)"
proof (cases r1)
  case (Some err)
  then show ?thesis using t d by (auto simp: transferReceiverProof_def)
next
  case None
  obtain w2 r2 where u: "transferReceiverProof_passive p (op_PassiveAssets parcel) [] w1 = (w2, r2)"
    by (cases "transferReceiverProof_passive p (op_PassiveAssets parcel) [] w1")
  from transferReceiverProof_passive_events[OF u] obtain evs where
    e: "trace w2 = trace w1 @ evs" "deliveries evs = []" "confirmations evs = []"
       "\<not> isl r2 \<longrightarrow> evs = map (\<lambda>pa. EvFetchProof (passiveLocator pa)) (op_PassiveAssets parcel)"
       "(\<forall>tr loc. \<not> isl (FetchProof (AssetProofs (cfg p)) tr loc)) \<longrightarrow> \<not> isl r2"
    by blast
  show ?thesis
  proof (cases r2)
    case (Inl err)
    then show ?thesis using t d o None u e
      by (auto simp: transferReceiverProof_def)
  next
    case (Inr files)
    from transferReceiverProof_passive_files[OF u[unfolded Inr]] obtain blobs where
      bl: "passiveAnswers p (trace w1) (op_PassiveAssets parcel) = map Inr blobs"
          "files = passiveFileMap (op_PassiveAssets parcel) blobs"
      by (auto simp: passiveFileMap_def)
    show ?thesis
    proof (cases "TransferTxConfEvent pkg")
      case N: None
      then show ?thesis using t d o None u e Inr
        by (auto simp: transferReceiverProof_def)
    next
      case (Some ce)
      let ?ev = "confirmEvent pkg parcel ce files"
      have tr: "transferReceiverProof p w pkg =
          (case ConfirmParcelDelivery (ExportLog (cfg p)) (trace w2) ?ev of
             Some err \<Rightarrow> (emit (EvConfirmParcelDelivery ?ev) w2, pkg,
                Some (Errorf_w ''unable to log parcel delivery confirmation: '' err))
           | None \<Rightarrow> ((emit (EvConfirmParcelDelivery ?ev) w2)\<lparr>stateLog :=
                  stateLog (emit (EvConfirmParcelDelivery ?ev) w2) @ [SendStateComplete]\<rparr>,
                pkg\<lparr>SendState := SendStateComplete\<rparr>, None))"
        using d o None u Inr Some
        by (simp add: transferReceiverProof_def Let_def confirmEvent_def setSendState_eq
                 split: option.splits)
      show ?thesis
      proof (cases "ConfirmParcelDelivery (ExportLog (cfg p)) (trace w2) ?ev")
        case C: None
        then show ?thesis using t tr e Inr Some None bl
          by (intro exI[of _ "evs @ [EvConfirmParcelDelivery ?ev]"]) auto
      next
        case C: (Some err)
        then show ?thesis using t tr e Inr Some None
          by (intro exI[of _ "evs @ [EvConfirmParcelDelivery ?ev]"]) (auto simp: butlast_append)
      qed
    qed
  qed
qed






text \<open>
  C10. Without a proof courier the ReceiverProofTransfer step delivers nothing, whatever
  the outputs are. When it succeeds it has fetched the proof file of every passive asset
  of the parcel, in order, and the archive has answered every fetch with a file; it has
  then called \<^verbatim>\<open>ConfirmParcelDelivery\<close> once, with the final proofs of the package and
  with the map of exactly these files under the locators of the passive assets; and it
  has set the state to \<^verbatim>\<open>SendStateComplete\<close>. It succeeds whenever the confirmation
  event is present, the archive answers every fetch and the export log confirms.
\<close>

theorem transferReceiverProof_without_courier:
  assumes c: "ProofCourier (cfg p) = None"
    and o: "OutboundPkg pkg = Some parcel"
    and t: "transferReceiverProof p w pkg = (w', pkg', r)"
  shows "deliveries (newEvents w w') = [] \<and>
         (r = None \<longrightarrow>
            pkg' = pkg\<lparr>SendState := SendStateComplete\<rparr> \<and>
            (\<exists>ce blobs. TransferTxConfEvent pkg = Some ce \<and>
               passiveAnswers p (trace w) (op_PassiveAssets parcel) = map Inr blobs \<and>
               newEvents w w' =
                 map (\<lambda>pa. EvFetchProof (passiveLocator pa)) (op_PassiveAssets parcel) @
                 [EvConfirmParcelDelivery (confirmEvent pkg parcel ce
                    (passiveFileMap (op_PassiveAssets parcel) blobs))])) \<and>
         (TransferTxConfEvent pkg \<noteq> None \<and>
          (\<forall>tr loc. \<not> isl (FetchProof (AssetProofs (cfg p)) tr loc)) \<and>
          (\<forall>tr ev. ConfirmParcelDelivery (ExportLog (cfg p)) tr ev = None) \<longrightarrow> r = None)"
proof -
  have d: "deliverProofs p pkg w = (w, None)" using c by (simp add: deliverProofs_def)
  from transferReceiverProof_tail[OF t d o] obtain evs where
    e: "trace w' = trace w @ evs" "deliveries evs = []"
       "r = None \<longrightarrow> pkg' = pkg\<lparr>SendState := SendStateComplete\<rparr> \<and>
        (\<exists>ce blobs. TransferTxConfEvent pkg = Some ce \<and>
           passiveAnswers p (trace w) (op_PassiveAssets parcel) = map Inr blobs \<and>
           evs = map (\<lambda>pa. EvFetchProof (passiveLocator pa)) (op_PassiveAssets parcel) @
                 [EvConfirmParcelDelivery (confirmEvent pkg parcel ce
                    (passiveFileMap (op_PassiveAssets parcel) blobs))])"
       "TransferTxConfEvent pkg \<noteq> None \<and>
        (\<forall>tr loc. \<not> isl (FetchProof (AssetProofs (cfg p)) tr loc)) \<and>
        (\<forall>tr ev. ConfirmParcelDelivery (ExportLog (cfg p)) tr ev = None) \<longrightarrow> r = None"
    by blast
  have n: "newEvents w w' = evs" by (rule newEvents_append[OF e(1)])
  show ?thesis using n e by simp
qed

text \<open>
  The theorem at the concrete parcel, whose output \<open>K2\<close> is not local: nothing is
  delivered, and the one passive proof file is fetched and handed to the export log.
\<close>

theorem transferReceiverProof_without_courier_witness:
  "deliveries (newEvents world0
      (fst (transferReceiverProof (demoPorter SelQuit None) world0 demoPkgSealed))) = [] \<and>
   snd (snd (transferReceiverProof (demoPorter SelQuit None) world0 demoPkgSealed)) = None \<and>
   fst (snd (transferReceiverProof (demoPorter SelQuit None) world0 demoPkgSealed)) =
     demoPkgSealed\<lparr>SendState := SendStateComplete\<rparr> \<and>
   newEvents world0 (fst (transferReceiverProof (demoPorter SelQuit None) world0 demoPkgSealed)) =
     [EvFetchProof \<lparr>loc_AssetID = ''B'', loc_ScriptKey = ''P1''\<rparr>,
      EvConfirmParcelDelivery (confirmEvent demoPkgSealed (demoParcel True) demoConf
        [(\<lparr>loc_AssetID = ''B'', loc_ScriptKey = ''P1''\<rparr>, FileBlob [Proof ''P1'' None []])])]"
proof -
  let ?p = "demoPorter SelQuit None"
  let ?R = "transferReceiverProof ?p world0 demoPkgSealed"
  have c: "ProofCourier (cfg ?p) = None" by (simp add: demoPorter_def demoConfig_def)
  have o: "OutboundPkg demoPkgSealed = Some (demoParcel True)" by code_simp
  have t: "?R = (fst ?R, fst (snd ?R), snd (snd ?R))" by simp
  have f: "TransferTxConfEvent demoPkgSealed = Some demoConf" by code_simp
  have g: "TransferTxConfEvent demoPkgSealed \<noteq> None \<and>
          (\<forall>tr loc. \<not> isl (FetchProof (AssetProofs (cfg ?p)) tr loc)) \<and>
          (\<forall>tr ev. ConfirmParcelDelivery (ExportLog (cfg ?p)) tr ev = None)"
    using f by (simp add: demoPorter_def demoConfig_def)
  note T = transferReceiverProof_without_courier[OF c o t]
  have r: "snd (snd ?R) = None"
    using T[THEN conjunct2, THEN conjunct2, rule_format, OF g] .
  from T[THEN conjunct2, THEN conjunct1, rule_format, OF r] obtain ce blobs where
    k: "fst (snd ?R) = demoPkgSealed\<lparr>SendState := SendStateComplete\<rparr>"
       "TransferTxConfEvent demoPkgSealed = Some ce"
       "passiveAnswers ?p (trace world0) (op_PassiveAssets (demoParcel True)) = map Inr blobs"
       "newEvents world0 (fst ?R) =
          map (\<lambda>pa. EvFetchProof (passiveLocator pa)) (op_PassiveAssets (demoParcel True)) @
          [EvConfirmParcelDelivery (confirmEvent demoPkgSealed (demoParcel True) ce
             (passiveFileMap (op_PassiveAssets (demoParcel True)) blobs))]"
    by blast
  have ce: "ce = demoConf" using f k(2) by simp
  have a: "passiveAnswers ?p (trace world0) (op_PassiveAssets (demoParcel True)) =
             [Inr (FileBlob [Proof ''P1'' None []])]"
    by (simp add: demoParcel_def demoPassive_def demoPorter_def demoConfig_def passiveLocator_def)
  have b: "blobs = [FileBlob [Proof ''P1'' None []]]"
    using k(3) a by (cases blobs) auto
  have m: "passiveFileMap (op_PassiveAssets (demoParcel True)) [FileBlob [Proof ''P1'' None []]] =
             [(\<lparr>loc_AssetID = ''B'', loc_ScriptKey = ''P1''\<rparr>, FileBlob [Proof ''P1'' None []])]"
    by (simp add: passiveFileMap_def demoParcel_def demoPassive_def passiveLocator_def)
  have l: "map (\<lambda>pa. EvFetchProof (passiveLocator pa)) (op_PassiveAssets (demoParcel True)) =
             [EvFetchProof \<lparr>loc_AssetID = ''B'', loc_ScriptKey = ''P1''\<rparr>]"
    by (simp add: demoParcel_def demoPassive_def passiveLocator_def)
  have e: "newEvents world0 (fst ?R) =
     [EvFetchProof \<lparr>loc_AssetID = ''B'', loc_ScriptKey = ''P1''\<rparr>,
      EvConfirmParcelDelivery (confirmEvent demoPkgSealed (demoParcel True) demoConf
        [(\<lparr>loc_AssetID = ''B'', loc_ScriptKey = ''P1''\<rparr>, FileBlob [Proof ''P1'' None []])])]"
    unfolding k(4) ce b m l by simp
  show ?thesis
    using T[THEN conjunct1] r k(1) e by (intro conjI)
qed

text \<open>
  C2, the code at the concrete parcel: the courier answers the one delivery (to \<open>K2\<close>)
  with a backoff error; \<^verbatim>\<open>transferReceiverProof\<close> returns nil all the same, has called
  \<^verbatim>\<open>ConfirmParcelDelivery\<close> once and has set the state to \<^verbatim>\<open>SendStateComplete\<close>.
\<close>

theorem transferReceiverProof_backoff_marks_complete:
  "DeliverProof backoffCourier []
     \<lparr>rcpt_ScriptKey = ''K2'', rcpt_AssetID = ''A'', rcpt_Amount = 30\<rparr>
     (snd (hd (FinalProofs demoPkgSealed))) = Some (BackoffExecError (Err ''courier unreachable'')) \<and>
   snd (snd (transferReceiverProof (demoPorter SelQuit (Some backoffCourier)) world0 demoPkgSealed))
     = None \<and>
   SendState (fst (snd (transferReceiverProof (demoPorter SelQuit (Some backoffCourier)) world0
                          demoPkgSealed))) = SendStateComplete \<and>
   map (\<lambda>d. rcpt_ScriptKey (fst d))
     (deliveries (trace (fst (transferReceiverProof (demoPorter SelQuit (Some backoffCourier)) world0
                          demoPkgSealed)))) = [''K2''] \<and>
   length (confirmations (trace (fst (transferReceiverProof
             (demoPorter SelQuit (Some backoffCourier)) world0 demoPkgSealed)))) = 1"
  by code_simp

subsection \<open>C9, C5 and C6: the proofs that storeProofs seals\<close>

lemma File_Decode_Inr: "File_Decode b = Inr f \<longleftrightarrow> b = FileBlob f"
  by (cases b) (simp_all add: File_Decode_def)

lemma Proof_Decode_Inr: "Proof_Decode b = Inr pr \<longleftrightarrow> b = ProofBlob pr"
  by (cases b) (simp_all add: Proof_Decode_def)

lemma UpdateTransitionProof_Inr:
  "UpdateTransitionProof pk pr params = Inr pr' \<longleftrightarrow>
     UpdateTransitionProof_err pk pr params = None \<and>
     pr' = Proof (proof_ScriptKey pr) (Some params) (AdditionalInputs pr)"
  by (auto simp: UpdateTransitionProof_def split: option.splits)

lemma AppendProof_Inr:
  "AppendProof pk f pr = Inr f' \<longleftrightarrow> AppendProof_err pk f pr = None \<and> f' = f @ [pr]"
  by (auto simp: AppendProof_def split: option.splits)

lemma File_Encode_Inr:
  "File_Encode pk f = Inr b \<longleftrightarrow> Encode_err pk f = None \<and> b = FileBlob f"
  by (auto simp: File_Encode_def split: option.splits)

lemmas proof_ops_Inr =
  File_Decode_Inr Proof_Decode_Inr UpdateTransitionProof_Inr AppendProof_Inr File_Encode_Inr

text \<open>A file fetched during a part of a step is fetched during the step.\<close>

lemma archived_mono:
  assumes "archived p w1 w2 loc f" "trace w1 = trace w @ a" "trace w' = trace w2 @ b"
  shows "archived p w w' loc f"
proof -
  from assms(1) obtain pre post where
    x: "trace w2 = trace w1 @ pre @ EvFetchProof loc # post"
       "FetchProof (AssetProofs (cfg p)) (trace w1 @ pre) loc = Inr (FileBlob f)"
    unfolding archived_def by blast
  have "trace w' = trace w @ (a @ pre) @ EvFetchProof loc # (post @ b)"
    using x(1) assms(2,3) by simp
  moreover have "FetchProof (AssetProofs (cfg p)) (trace w @ (a @ pre)) loc = Inr (FileBlob f)"
    using x(2) assms(2) by simp
  ultimately show ?thesis unfolding archived_def by blast
qed

lemma archived_emit:
  "FetchProof (AssetProofs (cfg p)) (trace w) loc = Inr (FileBlob f) \<Longrightarrow>
     archived p w (emit (EvFetchProof loc) w) loc f"
  unfolding archived_def by (intro exI[of _ "[]"]) simp

lemma inputFile_mono:
  assumes "inputFile p w1 w2 i f" "trace w1 = trace w @ a" "trace w' = trace w2 @ b"
  shows "inputFile p w w' i f"
  using assms archived_mono[OF _ assms(2,3)] unfolding inputFile_def by blast

lemma inputFiles_mono:
  assumes "list_all2 (inputFile p w1 w2) ins fs" "trace w1 = trace w @ a" "trace w' = trace w2 @ b"
  shows "list_all2 (inputFile p w w') ins fs"
  by (rule list_all2_mono[OF assms(1)]) (rule inputFile_mono[OF _ assms(2,3)])

lemma passiveSealed_mono:
  assumes "passiveSealed p w1 w2 ce pa ap" "trace w1 = trace w @ a" "trace w' = trace w2 @ b"
  shows "passiveSealed p w w' ce pa ap"
  using assms archived_mono[OF _ assms(2,3)] unfolding passiveSealed_def by blast

lemma outputSealed_mono:
  assumes "outputSealed p w1 w2 fi mi ce out ap" "trace w1 = trace w @ a" "trace w' = trace w2 @ b"
  shows "outputSealed p w w' fi mi ce out ap"
proof -
  from assms(1) obtain suffix base extra where
    x: "Proof_Decode (ProofSuffix out) = Inr suffix" "inputFile p w1 w2 fi base"
       "list_all2 (inputFile p w1 w2) mi extra"
       "ap = \<lparr>Locator = \<lparr>loc_AssetID = in_ID fi, loc_ScriptKey = PubKey (out_ScriptKey out)\<rparr>,
              Blob = FileBlob (base @ [Proof (proof_ScriptKey suffix) (Some (confParams ce))
                                         (AdditionalInputs suffix @ extra)])\<rparr>"
    unfolding outputSealed_def by blast
  show ?thesis
    unfolding outputSealed_def
    using x(1,4) inputFile_mono[OF x(2) assms(2,3)] inputFiles_mono[OF x(3) assms(2,3)]
    by blast
qed

lemma updateAssetProofFile_Inr:
  assumes "updateAssetProofFile p w a k c n = (w', Inr (ap, n'))"
  shows "\<exists>ce fl. c = Some ce \<and>
           FetchProof (AssetProofs (cfg p)) (trace w) \<lparr>loc_AssetID = a, loc_ScriptKey = k\<rparr>
             = Inr (FileBlob fl) \<and>
           w' = emit (EvFetchProof \<lparr>loc_AssetID = a, loc_ScriptKey = k\<rparr>) w \<and>
           n' = stamped ce n \<and>
           ap = \<lparr>Locator = \<lparr>loc_AssetID = a, loc_ScriptKey = proof_ScriptKey n\<rparr>,
                 Blob = FileBlob (fl @ [stamped ce n])\<rparr>"
  using assms
  by (auto simp: updateAssetProofFile_def Let_def proof_ops_Inr stamped_def
           split: sum.splits option.splits)

lemma storeProofs_passive_Inr:
  "storeProofs_passive p c pas w = (w', Inr (files, pas')) \<Longrightarrow>
     trace w' = trace w @ map (\<lambda>pa. EvFetchProof (passiveLocator pa)) pas \<and>
     (pas \<noteq> [] \<longrightarrow> c \<noteq> None) \<and>
     (\<forall>ce. c = Some ce \<longrightarrow> list_all2 (passiveSealed p w w' ce) pas files \<and>
            pas' = map (\<lambda>pa. pa\<lparr>NewProof := stamped ce (NewProof pa)\<rparr>) pas) \<and>
     length files = length pas"
proof (induction pas arbitrary: w files pas')
  case Nil
  then show ?case by auto
next
  case (Cons a pas)
  from Cons.prems obtain w1 ap n1 files1 rest1 where
    u: "updateAssetProofFile p w (pa_GenesisID a) (PubKey (pa_ScriptKey a)) c (NewProof a)
          = (w1, Inr (ap, n1))"
    and v: "storeProofs_passive p c pas w1 = (w', Inr (files1, rest1))"
    and f: "files = ap # files1" "pas' = a\<lparr>NewProof := n1\<rparr> # rest1"
    by (auto split: prod.splits sum.splits)
  from updateAssetProofFile_Inr[OF u] obtain ce fl where
    x: "c = Some ce"
       "FetchProof (AssetProofs (cfg p)) (trace w) (passiveLocator a) = Inr (FileBlob fl)"
       "w1 = emit (EvFetchProof (passiveLocator a)) w" "n1 = stamped ce (NewProof a)"
       "ap = \<lparr>Locator = \<lparr>loc_AssetID = pa_GenesisID a, loc_ScriptKey = proof_ScriptKey (NewProof a)\<rparr>,
              Blob = FileBlob (fl @ [stamped ce (NewProof a)])\<rparr>"
    by (auto simp: passiveLocator_def)
  note h = Cons.IH[OF v]
  have t1: "trace w1 = trace w @ [EvFetchProof (passiveLocator a)]" using x(3) by simp
  have t2: "trace w' = trace w1 @ map (\<lambda>pa. EvFetchProof (passiveLocator pa)) pas"
    using h by simp
  have "passiveSealed p w w1 ce a ap"
    unfolding passiveSealed_def x(3) using archived_emit[OF x(2)] x(5) by blast
  then have s: "passiveSealed p w w' ce a ap"
    by (rule passiveSealed_mono[where a = "[]"]) (simp_all add: t2)
  have l: "list_all2 (passiveSealed p w w' ce) pas files1"
  proof (rule list_all2_mono[of "passiveSealed p w1 w' ce"])
    show "list_all2 (passiveSealed p w1 w' ce) pas files1" using h x(1) by simp
  next
    fix pa ap'
    assume "passiveSealed p w1 w' ce pa ap'"
    then show "passiveSealed p w w' ce pa ap'"
      by (rule passiveSealed_mono[OF _ t1, where b = "[]"]) simp
  qed
  have r: "rest1 = map (\<lambda>pa. pa\<lparr>NewProof := stamped ce (NewProof pa)\<rparr>) pas"
    "length files1 = length pas"
    using h x(1) by simp_all
  show ?case using t1 t2 x(1,4) f s l r by simp
qed

lemma fetchInputProof_Inr:
  assumes "fetchInputProof p w input = (w', Inr fl)"
  shows "inputFile p w w' input fl \<and>
         (\<exists>k. btcec_ParsePubKey (pkgs p) (in_ScriptKey input) = Inr k \<and>
              w' = emit (EvFetchProof \<lparr>loc_AssetID = in_ID input, loc_ScriptKey = k\<rparr>) w)"
  using assms
  by (auto simp: fetchInputProof_def Let_def proof_ops_Inr inputFile_def archived_emit
           split: sum.splits)

lemma storeProofs_additionalInputs_Inr:
  "storeProofs_additionalInputs p ins sfx w = (w', Inr sfx') \<Longrightarrow>
     \<exists>extra evs. list_all2 (inputFile p w w') ins extra \<and>
        sfx' = Proof (proof_ScriptKey sfx) (proof_ChainData sfx) (AdditionalInputs sfx @ extra) \<and>
        trace w' = trace w @ evs \<and> importBatches evs = []"
proof (induction ins arbitrary: w sfx)
  case Nil
  then show ?case by auto
next
  case (Cons a ins)
  from Cons.prems obtain w1 fl where
    u: "fetchInputProof p w a = (w1, Inr fl)"
    and v: "storeProofs_additionalInputs p ins
              (Proof (proof_ScriptKey sfx) (proof_ChainData sfx) (AdditionalInputs sfx @ [fl])) w1
            = (w', Inr sfx')"
    by (auto split: prod.splits sum.splits)
  from fetchInputProof_Inr[OF u] obtain k where
    x: "inputFile p w w1 a fl"
       "w1 = emit (EvFetchProof \<lparr>loc_AssetID = in_ID a, loc_ScriptKey = k\<rparr>) w"
    by blast
  from Cons.IH[OF v] obtain extra evs where
    y: "list_all2 (inputFile p w1 w') ins extra"
       "sfx' = Proof (proof_ScriptKey sfx) (proof_ChainData sfx) ((AdditionalInputs sfx @ [fl]) @ extra)"
       "trace w' = trace w1 @ evs" "importBatches evs = []"
    by auto
  have t1: "trace w1 = trace w @ [EvFetchProof \<lparr>loc_AssetID = in_ID a, loc_ScriptKey = k\<rparr>]"
    using x(2) by simp
  have a: "inputFile p w w' a fl"
    by (rule inputFile_mono[OF x(1), where a = "[]"]) (simp_all add: y(3))
  have l: "list_all2 (inputFile p w w') ins extra"
    by (rule inputFiles_mono[OF y(1) t1, where b = "[]"]) simp
  show ?case
    using a l y(2,3,4) t1
    by (intro exI[of _ "fl # extra"]
              exI[of _ "EvFetchProof \<lparr>loc_AssetID = in_ID a, loc_ScriptKey = k\<rparr> # evs"]) simp
qed

lemma storeProofs_seal_Inr:
  assumes "storeProofs_seal p fi mi c out w = (w', Inr (fl, ap))"
  shows "\<exists>ce evs. c = Some ce \<and> outputSealed p w w' fi mi ce out ap \<and> Blob ap = FileBlob fl \<and>
           trace w' = trace w @ evs \<and> importBatches evs = []"
proof -
  from assms obtain suffix ce w1 base w2 sfx2 where
    a: "Proof_Decode (ProofSuffix out) = Inr suffix" "c = Some ce"
       "UpdateTransitionProof_err (pkgs p) suffix (confParams ce) = None"
       "fetchInputProof p w fi = (w1, Inr base)"
       "storeProofs_additionalInputs p mi
          (Proof (proof_ScriptKey suffix) (Some (confParams ce)) (AdditionalInputs suffix)) w1
        = (w2, Inr sfx2)"
       "fl = base @ [sfx2]" "w' = w2"
       "ap = \<lparr>Locator = \<lparr>loc_AssetID = in_ID fi, loc_ScriptKey = PubKey (out_ScriptKey out)\<rparr>,
              Blob = FileBlob fl\<rparr>"
    by (auto simp: storeProofs_seal_def UpdateTransitionProof_Inr AppendProof_Inr File_Encode_Inr
             split: sum.splits option.splits prod.splits)
  from fetchInputProof_Inr[OF a(4)] obtain k where
    x: "inputFile p w w1 fi base"
       "w1 = emit (EvFetchProof \<lparr>loc_AssetID = in_ID fi, loc_ScriptKey = k\<rparr>) w"
    by blast
  from storeProofs_additionalInputs_Inr[OF a(5)] obtain extra evs where
    y: "list_all2 (inputFile p w1 w2) mi extra"
       "sfx2 = Proof (proof_ScriptKey suffix) (Some (confParams ce)) (AdditionalInputs suffix @ extra)"
       "trace w2 = trace w1 @ evs" "importBatches evs = []"
    by auto
  have t1: "trace w1 = trace w @ [EvFetchProof \<lparr>loc_AssetID = in_ID fi, loc_ScriptKey = k\<rparr>]"
    using x(2) by simp
  have b: "inputFile p w w' fi base"
    by (rule inputFile_mono[OF x(1), where a = "[]"]) (simp_all add: y(3) a(7))
  have l: "list_all2 (inputFile p w w') mi extra"
    by (rule inputFiles_mono[OF y(1) t1, where b = "[]"]) (simp add: a(7))
  have "outputSealed p w w' fi mi ce out ap"
    unfolding outputSealed_def using a(1,6,8) b l y(2) by blast
  then show ?thesis
    using a(2,7,8) x(2) y(3,4)
    by (intro exI[of _ ce]
              exI[of _ "EvFetchProof \<lparr>loc_AssetID = in_ID fi, loc_ScriptKey = k\<rparr> # evs"]) simp
qed


lemma set_mapPut: "set (mapPut k v m) \<subseteq> insert (k, v) (set m)"
  by (induction m) (auto split: if_splits)

lemma storeProofs_outputs_None:
  "storeProofs_outputs p fi mi c outs fp w = (w', fp', None) \<Longrightarrow>
     \<exists>evs. trace w' = trace w @ evs \<and>
       list_all2 (\<lambda>out b. \<exists>ap ce. c = Some ce \<and> b = [ap] \<and> outputSealed p w w' fi mi ce out ap)
         (filter (\<lambda>out. out_Type out \<noteq> TypePassiveAssetsOnly) outs) (importBatches evs) \<and>
       (\<forall>kv \<in> set fp'. kv \<in> set fp \<or> [snd kv] \<in> set (importBatches evs))"
proof (induction outs arbitrary: w fp)
  case Nil
  then show ?case by auto
next
  case (Cons out outs)
  show ?case
  proof (cases "out_Type out = TypePassiveAssetsOnly")
    case True
    then show ?thesis using Cons.prems Cons.IH[of fp w] by simp
  next
    case False
    from Cons.prems False obtain w1 fl ap where
      u: "storeProofs_seal p fi mi c out w = (w1, Inr (fl, ap))"
      and v: "storeProofs_outputs p fi mi c outs
                (mapPut (ToSerialized (PubKey (out_ScriptKey out))) ap fp)
                (emit (EvImportProofs [ap]) w1) = (w', fp', None)"
      by (auto simp: Let_def split: prod.splits sum.splits option.splits)
    from storeProofs_seal_Inr[OF u] obtain ce evs1 where
      x: "c = Some ce" "outputSealed p w w1 fi mi ce out ap" "trace w1 = trace w @ evs1"
         "importBatches evs1 = []"
      by blast
    from Cons.IH[OF v] obtain evs2 where
      y: "trace w' = trace (emit (EvImportProofs [ap]) w1) @ evs2"
         "list_all2 (\<lambda>out b. \<exists>ap' ce. c = Some ce \<and> b = [ap'] \<and>
                        outputSealed p (emit (EvImportProofs [ap]) w1) w' fi mi ce out ap')
            (filter (\<lambda>out. out_Type out \<noteq> TypePassiveAssetsOnly) outs) (importBatches evs2)"
         "\<forall>kv \<in> set fp'. kv \<in> set (mapPut (ToSerialized (PubKey (out_ScriptKey out))) ap fp) \<or>
              [snd kv] \<in> set (importBatches evs2)"
      by blast
    have z: "\<forall>kv \<in> set fp'. kv \<in> set fp \<or> [snd kv] \<in> set ([ap] # importBatches evs2)"
      using y(3) set_mapPut[of "ToSerialized (PubKey (out_ScriptKey out))" ap fp] by fastforce
    have t1: "trace (emit (EvImportProofs [ap]) w1) = trace w @ (evs1 @ [EvImportProofs [ap]])"
      using x(3) by simp
    have t2: "trace w' = trace w1 @ (EvImportProofs [ap] # evs2)"
      using y(1) by simp
    have h: "outputSealed p w w' fi mi ce out ap"
      by (rule outputSealed_mono[OF x(2) _ t2, where a = "[]"]) simp
    have l: "list_all2 (\<lambda>out b. \<exists>ap ce. c = Some ce \<and> b = [ap] \<and>
                        outputSealed p w w' fi mi ce out ap)
            (filter (\<lambda>out. out_Type out \<noteq> TypePassiveAssetsOnly) outs) (importBatches evs2)"
      by (rule list_all2_mono[OF y(2)]) (use outputSealed_mono[OF _ t1, where b = "[]"] in auto)
    show ?thesis
      using False x(1,3,4) h l y(1) z
      by (intro exI[of _ "evs1 @ EvImportProofs [ap] # evs2"]) auto
  qed
qed

lemma storeProofs_sealed:
  assumes s: "storeProofs p w pkg = (w', pkg', None)" and o: "OutboundPkg pkg = Some parcel"
  shows "\<exists>batch actives.
     importBatches (newEvents w w') = batch # actives \<and>
     length batch = length (PassiveAssets pkg) \<and>
     (PassiveAssets pkg \<noteq> [] \<longrightarrow> TransferTxConfEvent pkg \<noteq> None) \<and>
     (\<forall>ce. TransferTxConfEvent pkg = Some ce \<longrightarrow>
          list_all2 (passiveSealed p w w' ce) (PassiveAssets pkg) batch) \<and>
     SendState pkg' = SendStateReceiverProofTransfer \<and>
     (case Inputs parcel of
        [] \<Rightarrow> FinalProofs pkg' = FinalProofs pkg \<and>
              newEvents w w' = map (\<lambda>pa. EvFetchProof (passiveLocator pa)) (PassiveAssets pkg) @
                               [EvImportProofs batch]
      | fi # mi \<Rightarrow>
          list_all2 (\<lambda>out b. \<exists>ap ce. TransferTxConfEvent pkg = Some ce \<and> b = [ap] \<and>
                                      outputSealed p w w' fi mi ce out ap)
            (filter (\<lambda>out. out_Type out \<noteq> TypePassiveAssetsOnly) (Outputs parcel)) actives \<and>
          (\<forall>kv \<in> set (FinalProofs pkg'). [snd kv] \<in> set actives))"
proof -
  let ?c = "TransferTxConfEvent pkg"
  from s obtain w1 batch pas1 where
    u: "storeProofs_passive p ?c (PassiveAssets pkg) w = (w1, Inr (batch, pas1))"
    by (auto simp: storeProofs_def Let_def split: prod.splits sum.splits)
  note x0 = storeProofs_passive_Inr[OF u]
  have x: "trace w1 = trace w @ map (\<lambda>pa. EvFetchProof (passiveLocator pa)) (PassiveAssets pkg)"
    "PassiveAssets pkg \<noteq> [] \<longrightarrow> ?c \<noteq> None"
    "\<forall>ce. ?c = Some ce \<longrightarrow>
       pas1 = map (\<lambda>pa. pa\<lparr>NewProof := stamped ce (NewProof pa)\<rparr>) (PassiveAssets pkg)"
    "length batch = length (PassiveAssets pkg)"
    using x0 by simp_all
  have lift: "list_all2 (passiveSealed p w w' ce) (PassiveAssets pkg) batch"
    if tw: "trace w' = trace w1 @ b" and ce: "?c = Some ce" for b ce
  proof (rule list_all2_mono[of "passiveSealed p w w1 ce"])
    show "list_all2 (passiveSealed p w w1 ce) (PassiveAssets pkg) batch" using x0 ce by simp
  next
    fix pa ap'
    assume "passiveSealed p w w1 ce pa ap'"
    then show "passiveSealed p w w' ce pa ap'"
      by (rule passiveSealed_mono[OF _ _ tw, where a = "[]"]) simp
  qed
  let ?w2 = "emit (EvImportProofs batch) w1"
  let ?pkg1 = "pkg\<lparr>PassiveAssets := pas1\<rparr>"
  have i: "ImportProofs (AssetProofs (cfg p)) (trace w1) batch = None"
    using s u by (auto simp: storeProofs_def Let_def split: option.splits)
  have b: "importBatches (map (\<lambda>pa. EvFetchProof (passiveLocator pa)) pas) = []" for pas
    by (induction pas) simp_all
  show ?thesis
  proof (cases "Inputs parcel")
    case Nil
    then have r: "w' = ?w2\<lparr>stateLog := stateLog ?w2 @ [SendStateReceiverProofTransfer]\<rparr>"
      "pkg' = ?pkg1\<lparr>SendState := SendStateReceiverProofTransfer\<rparr>"
      using s u i o by (auto simp: storeProofs_def Let_def setSendState_eq)
    have tw: "trace w' = trace w1 @ [EvImportProofs batch]" using r(1) by simp
    have n: "newEvents w w' =
        map (\<lambda>pa. EvFetchProof (passiveLocator pa)) (PassiveAssets pkg) @ [EvImportProofs batch]"
      using x(1) tw by (simp add: newEvents_def)
    show ?thesis using x(2,4) r(2) Nil lift[OF tw]
      by (intro exI[of _ batch] exI[of _ "[]"]) (simp add: n b)
  next
    case (Cons fi mi)
    from s u i o Cons obtain w3 fp where
      v: "storeProofs_outputs p fi mi ?c (Outputs parcel) [] ?w2 = (w3, fp, None)"
      and r: "w' = w3\<lparr>stateLog := stateLog w3 @ [SendStateReceiverProofTransfer]\<rparr>"
         "pkg' = ?pkg1\<lparr>FinalProofs := fp, SendState := SendStateReceiverProofTransfer\<rparr>"
      by (auto simp: storeProofs_def Let_def setSendState_eq split: prod.splits option.splits)
    from storeProofs_outputs_None[OF v] obtain evs where
      y: "trace w3 = trace ?w2 @ evs"
         "list_all2 (\<lambda>out b. \<exists>ap ce. ?c = Some ce \<and> b = [ap] \<and> outputSealed p ?w2 w3 fi mi ce out ap)
            (filter (\<lambda>out. out_Type out \<noteq> TypePassiveAssetsOnly) (Outputs parcel))
            (importBatches evs)"
         "\<forall>kv \<in> set fp. kv \<in> set [] \<or> [snd kv] \<in> set (importBatches evs)"
      by blast
    have tw: "trace w' = trace w1 @ (EvImportProofs batch # evs)" using y(1) r(1) by simp
    have t1: "trace ?w2 = trace w @
        (map (\<lambda>pa. EvFetchProof (passiveLocator pa)) (PassiveAssets pkg) @ [EvImportProofs batch])"
      using x(1) by simp
    have t2: "trace w' = trace w3 @ []" using r(1) by simp
    have n: "newEvents w w' =
        map (\<lambda>pa. EvFetchProof (passiveLocator pa)) (PassiveAssets pkg) @ EvImportProofs batch # evs"
      using x(1) tw by (simp add: newEvents_def)
    have l: "list_all2 (\<lambda>out b. \<exists>ap ce. ?c = Some ce \<and> b = [ap] \<and>
                          outputSealed p w w' fi mi ce out ap)
            (filter (\<lambda>out. out_Type out \<noteq> TypePassiveAssetsOnly) (Outputs parcel))
            (importBatches evs)"
      by (rule list_all2_mono[OF y(2)]) (use outputSealed_mono[OF _ t1 t2] in auto)
    show ?thesis
      using x(2,4) l y(3) r(2) Cons lift[OF tw]
      by (intro exI[of _ batch] exI[of _ "importBatches evs"]) (simp add: n b)
  qed
qed


text \<open>
  What \<^verbatim>\<open>storeProofs\<close> does for a parcel without inputs. It leaves \<^verbatim>\<open>FinalProofs\<close>
  as it was, whether it succeeds or not. When it succeeds it has set the state to
  \<^verbatim>\<open>SendStateReceiverProofTransfer\<close>, and all it has done is to fetch the proof file
  of every passive asset in the \<^verbatim>\<open>PassiveAssets\<close> field of the send package (line 314),
  in order, and then to call \<^verbatim>\<open>ImportProofs\<close> once, with one annotated proof for each
  of them: the archived file with the stamped new proof appended. No output is sealed.
\<close>

lemma storeProofs_without_inputs:
  assumes o: "OutboundPkg pkg = Some parcel" and i: "Inputs parcel = []"
    and s: "storeProofs p w pkg = (w', pkg', r)"
  shows "FinalProofs pkg' = FinalProofs pkg \<and>
         (r = None \<longrightarrow>
            SendState pkg' = SendStateReceiverProofTransfer \<and>
            (\<exists>batch. newEvents w w' =
                        map (\<lambda>pa. EvFetchProof (passiveLocator pa)) (PassiveAssets pkg) @
                        [EvImportProofs batch] \<and>
                     length batch = length (PassiveAssets pkg) \<and>
                     (\<forall>ce. TransferTxConfEvent pkg = Some ce \<longrightarrow>
                        list_all2 (passiveSealed p w w' ce) (PassiveAssets pkg) batch)))"
proof
  show "FinalProofs pkg' = FinalProofs pkg"
    using o i s
    by (auto simp: storeProofs_def Let_def setSendState_eq
             split: prod.splits sum.splits option.splits)
next
  show "r = None \<longrightarrow>
            SendState pkg' = SendStateReceiverProofTransfer \<and>
            (\<exists>batch. newEvents w w' =
                        map (\<lambda>pa. EvFetchProof (passiveLocator pa)) (PassiveAssets pkg) @
                        [EvImportProofs batch] \<and>
                     length batch = length (PassiveAssets pkg) \<and>
                     (\<forall>ce. TransferTxConfEvent pkg = Some ce \<longrightarrow>
                        list_all2 (passiveSealed p w w' ce) (PassiveAssets pkg) batch))"
  proof
    assume "r = None"
    then have "storeProofs p w pkg = (w', pkg', None)" using s by simp
    from storeProofs_sealed[OF this o] show
      "SendState pkg' = SendStateReceiverProofTransfer \<and>
            (\<exists>batch. newEvents w w' =
                        map (\<lambda>pa. EvFetchProof (passiveLocator pa)) (PassiveAssets pkg) @
                        [EvImportProofs batch] \<and>
                     length batch = length (PassiveAssets pkg) \<and>
                     (\<forall>ce. TransferTxConfEvent pkg = Some ce \<longrightarrow>
                        list_all2 (passiveSealed p w w' ce) (PassiveAssets pkg) batch))"
      using i by auto
  qed
qed

text \<open>
  C9, the code at a resumed parcel. The parcel of scenario S4 has no inputs and two
  passive assets. \<^verbatim>\<open>resumePendingParcel\<close> builds the send package from the parcel alone
  and leaves its \<^verbatim>\<open>PassiveAssets\<close> field nil (lines 203-206); \<^verbatim>\<open>storeProofs\<close> reads
  that field, not the passive assets of the parcel. The resumed run succeeds and ends
  in \<^verbatim>\<open>SendStateComplete\<close>, and its one \<^verbatim>\<open>ImportProofs\<close> call carries no proof at all,
  where the package of the first run imports two. \<^verbatim>\<open>transferReceiverProof\<close>, which
  reads the passive assets of the parcel, loads both files in the same resumed run.
\<close>

theorem storeProofs_resumed_passive_only:
  "Inputs passiveOnlyParcel = [] \<and>
   length (op_PassiveAssets passiveOnlyParcel) = 2 \<and>
   snd (snd (resumePendingParcel (demoPorter (SelConfirmed (Some demoConf)) None) world0
               passiveOnlyParcel)) = None \<and>
   SendState (fst (snd (resumePendingParcel (demoPorter (SelConfirmed (Some demoConf)) None) world0
               passiveOnlyParcel))) = SendStateComplete \<and>
   importBatches (trace (fst (resumePendingParcel (demoPorter (SelConfirmed (Some demoConf)) None)
               world0 passiveOnlyParcel))) = [[]] \<and>
   stateLog (fst (resumePendingParcel (demoPorter (SelConfirmed (Some demoConf)) None)
               world0 passiveOnlyParcel)) =
     [SendStateWaitTxConf, SendStateStoreProofs, SendStateReceiverProofTransfer, SendStateComplete] \<and>
   importBatches (trace (fst (storeProofs (demoPorter SelQuit None) world0
      \<lparr>SendState = SendStateStoreProofs, Parcel = None, VirtualPacket = None,
       InputCommitments = [], PassiveAssets = [], AnchorTx = None,
       OutboundPkg = Some passiveOnlyParcel, TransferTxConfEvent = Some demoConf,
       FinalProofs = []\<rparr>))) = [[]] \<and>
   length (hd (importBatches (trace (fst (storeProofs (demoPorter SelQuit None) world0
      passiveOnlyPkg))))) = 2 \<and>
   length (PassiveAssetProofFiles (hd (confirmations (trace (fst (resumePendingParcel
      (demoPorter (SelConfirmed (Some demoConf)) None) world0 passiveOnlyParcel)))))) = 2"
  by code_simp

text \<open>
  C5. When \<^verbatim>\<open>storeProofs\<close> succeeds on a parcel with inputs \<open>firstInput # moreInputs\<close>,
  the imports after the passive batch are, in order, one per output that is not
  passive-only: a single annotated proof under the asset id of the first input and the
  script key of the output, whose file is the archived file of the first input with the
  sealed suffix appended. The additional inputs of the sealed suffix are those of the
  stored suffix followed by exactly \<open>n - 1\<close> files, the archived files of the inputs
  \<open>1..n-1\<close> in input order; for a suffix stored without additional inputs they are
  exactly these \<open>n - 1\<close> files. An archived file is the answer of the archive to a
  fetch made during the step. Every entry of \<^verbatim>\<open>FinalProofs\<close> is one of these proofs.
\<close>

theorem storeProofs_additional_inputs:
  assumes s: "storeProofs p w pkg = (w', pkg', None)"
    and o: "OutboundPkg pkg = Some parcel"
    and i: "Inputs parcel = firstInput # moreInputs"
  shows "list_all2
           (\<lambda>out batch. \<exists>suffix base sealed.
              Proof_Decode (ProofSuffix out) = Inr suffix \<and>
              batch = [\<lparr>Locator = \<lparr>loc_AssetID = in_ID firstInput,
                                    loc_ScriptKey = PubKey (out_ScriptKey out)\<rparr>,
                        Blob = FileBlob (base @ [sealed])\<rparr>] \<and>
              inputFile p w w' firstInput base \<and>
              (\<exists>extra. AdditionalInputs sealed = AdditionalInputs suffix @ extra \<and>
                       length extra = length (Inputs parcel) - 1 \<and>
                       list_all2 (inputFile p w w') (tl (Inputs parcel)) extra) \<and>
              (AdditionalInputs suffix = [] \<longrightarrow>
                 length (AdditionalInputs sealed) = length (Inputs parcel) - 1 \<and>
                 list_all2 (inputFile p w w') (tl (Inputs parcel)) (AdditionalInputs sealed)))
           (filter (\<lambda>out. out_Type out \<noteq> TypePassiveAssetsOnly) (Outputs parcel))
           (tl (importBatches (newEvents w w'))) \<and>
         (\<forall>kv \<in> set (FinalProofs pkg'). [snd kv] \<in> set (tl (importBatches (newEvents w w'))))"
proof -
  from storeProofs_sealed[OF s o] i obtain batch actives where
    a: "importBatches (newEvents w w') = batch # actives"
       "list_all2 (\<lambda>out b. \<exists>ap ce. TransferTxConfEvent pkg = Some ce \<and> b = [ap] \<and>
                                      outputSealed p w w' firstInput moreInputs ce out ap)
            (filter (\<lambda>out. out_Type out \<noteq> TypePassiveAssetsOnly) (Outputs parcel)) actives"
       "\<forall>kv \<in> set (FinalProofs pkg'). [snd kv] \<in> set actives"
    by auto
  have "list_all2
           (\<lambda>out batch. \<exists>suffix base sealed.
              Proof_Decode (ProofSuffix out) = Inr suffix \<and>
              batch = [\<lparr>Locator = \<lparr>loc_AssetID = in_ID firstInput,
                                    loc_ScriptKey = PubKey (out_ScriptKey out)\<rparr>,
                        Blob = FileBlob (base @ [sealed])\<rparr>] \<and>
              inputFile p w w' firstInput base \<and>
              (\<exists>extra. AdditionalInputs sealed = AdditionalInputs suffix @ extra \<and>
                       length extra = length (Inputs parcel) - 1 \<and>
                       list_all2 (inputFile p w w') (tl (Inputs parcel)) extra) \<and>
              (AdditionalInputs suffix = [] \<longrightarrow>
                 length (AdditionalInputs sealed) = length (Inputs parcel) - 1 \<and>
                 list_all2 (inputFile p w w') (tl (Inputs parcel)) (AdditionalInputs sealed)))
           (filter (\<lambda>out. out_Type out \<noteq> TypePassiveAssetsOnly) (Outputs parcel)) actives"
  proof (rule list_all2_mono[OF a(2)])
    fix out b
    assume "\<exists>ap ce. TransferTxConfEvent pkg = Some ce \<and> b = [ap] \<and>
              outputSealed p w w' firstInput moreInputs ce out ap"
    then obtain ap ce suffix base extra where
      x: "b = [ap]" "Proof_Decode (ProofSuffix out) = Inr suffix" "inputFile p w w' firstInput base"
         "list_all2 (inputFile p w w') moreInputs extra"
         "ap = \<lparr>Locator = \<lparr>loc_AssetID = in_ID firstInput,
                           loc_ScriptKey = PubKey (out_ScriptKey out)\<rparr>,
                Blob = FileBlob (base @ [Proof (proof_ScriptKey suffix) (Some (confParams ce))
                                           (AdditionalInputs suffix @ extra)])\<rparr>"
      unfolding outputSealed_def by blast
    have l: "length extra = length moreInputs" using x(4) by (simp add: list_all2_lengthD)
    show "\<exists>suffix base sealed.
              Proof_Decode (ProofSuffix out) = Inr suffix \<and>
              b = [\<lparr>Locator = \<lparr>loc_AssetID = in_ID firstInput,
                                loc_ScriptKey = PubKey (out_ScriptKey out)\<rparr>,
                    Blob = FileBlob (base @ [sealed])\<rparr>] \<and>
              inputFile p w w' firstInput base \<and>
              (\<exists>extra. AdditionalInputs sealed = AdditionalInputs suffix @ extra \<and>
                       length extra = length (Inputs parcel) - 1 \<and>
                       list_all2 (inputFile p w w') (tl (Inputs parcel)) extra) \<and>
              (AdditionalInputs suffix = [] \<longrightarrow>
                 length (AdditionalInputs sealed) = length (Inputs parcel) - 1 \<and>
                 list_all2 (inputFile p w w') (tl (Inputs parcel)) (AdditionalInputs sealed))"
      using x l i
      by (intro exI[of _ suffix] exI[of _ base]
                exI[of _ "Proof (proof_ScriptKey suffix) (Some (confParams ce))
                            (AdditionalInputs suffix @ extra)"]) auto
  qed
  then show ?thesis using a(1,3) by simp
qed

text \<open>
  C6. When \<^verbatim>\<open>storeProofs\<close> succeeds on a package with a confirmation event, the first
  import is the batch of the passive assets and the further imports are those of the
  outputs that are not passive-only, in order. In every one of these proof files the
  last proof, which is the appended one (the new proof of the passive asset, the suffix
  of the output), carries the block, the transaction and the transaction index of the
  confirmation event.
\<close>

theorem storeProofs_confirmation_data:
  assumes s: "storeProofs p w pkg = (w', pkg', None)"
    and o: "OutboundPkg pkg = Some parcel"
    and c: "TransferTxConfEvent pkg = Some confEvent"
  shows "\<exists>batch actives.
     importBatches (newEvents w w') = batch # actives \<and>
     list_all2 (\<lambda>passiveAsset ap. \<exists>fl. Blob ap = FileBlob fl \<and> fl \<noteq> [] \<and>
                  proof_ScriptKey (last fl) = proof_ScriptKey (NewProof passiveAsset) \<and>
                  proof_ChainData (last fl) =
                    Some \<lparr>bp_Block = conf_Block confEvent, bp_Tx = conf_Tx confEvent,
                          bp_TxIndex = uint (conf_TxIndex confEvent)\<rparr>)
       (PassiveAssets pkg) batch \<and>
     (Inputs parcel \<noteq> [] \<longrightarrow>
        list_all2 (\<lambda>out b. \<exists>ap fl suffix. b = [ap] \<and> Blob ap = FileBlob fl \<and> fl \<noteq> [] \<and>
                     Proof_Decode (ProofSuffix out) = Inr suffix \<and>
                     proof_ScriptKey (last fl) = proof_ScriptKey suffix \<and>
                     proof_ChainData (last fl) =
                       Some \<lparr>bp_Block = conf_Block confEvent, bp_Tx = conf_Tx confEvent,
                             bp_TxIndex = uint (conf_TxIndex confEvent)\<rparr>)
          (filter (\<lambda>out. out_Type out \<noteq> TypePassiveAssetsOnly) (Outputs parcel)) actives)"
proof -
  from storeProofs_sealed[OF s o] c obtain batch actives where
    a: "importBatches (newEvents w w') = batch # actives"
       "list_all2 (passiveSealed p w w' confEvent) (PassiveAssets pkg) batch"
       "case Inputs parcel of
          [] \<Rightarrow> FinalProofs pkg' = FinalProofs pkg \<and>
              newEvents w w' = map (\<lambda>pa. EvFetchProof (passiveLocator pa)) (PassiveAssets pkg) @
                               [EvImportProofs batch]
        | fi # mi \<Rightarrow>
          list_all2 (\<lambda>out b. \<exists>ap ce. TransferTxConfEvent pkg = Some ce \<and> b = [ap] \<and>
                                      outputSealed p w w' fi mi ce out ap)
            (filter (\<lambda>out. out_Type out \<noteq> TypePassiveAssetsOnly) (Outputs parcel)) actives \<and>
          (\<forall>kv \<in> set (FinalProofs pkg'). [snd kv] \<in> set actives)"
    by auto
  have 1: "list_all2 (\<lambda>passiveAsset ap. \<exists>fl. Blob ap = FileBlob fl \<and> fl \<noteq> [] \<and>
                  proof_ScriptKey (last fl) = proof_ScriptKey (NewProof passiveAsset) \<and>
                  proof_ChainData (last fl) =
                    Some \<lparr>bp_Block = conf_Block confEvent, bp_Tx = conf_Tx confEvent,
                          bp_TxIndex = uint (conf_TxIndex confEvent)\<rparr>)
       (PassiveAssets pkg) batch"
    by (rule list_all2_mono[OF a(2)])
       (auto simp: passiveSealed_def stamped_def confParams_def)
  have 2: "Inputs parcel \<noteq> [] \<longrightarrow>
        list_all2 (\<lambda>out b. \<exists>ap fl suffix. b = [ap] \<and> Blob ap = FileBlob fl \<and> fl \<noteq> [] \<and>
                     Proof_Decode (ProofSuffix out) = Inr suffix \<and>
                     proof_ScriptKey (last fl) = proof_ScriptKey suffix \<and>
                     proof_ChainData (last fl) =
                       Some \<lparr>bp_Block = conf_Block confEvent, bp_Tx = conf_Tx confEvent,
                             bp_TxIndex = uint (conf_TxIndex confEvent)\<rparr>)
          (filter (\<lambda>out. out_Type out \<noteq> TypePassiveAssetsOnly) (Outputs parcel)) actives"
  proof (cases "Inputs parcel")
    case Nil
    then show ?thesis by simp
  next
    case (Cons fi mi)
    then have "list_all2 (\<lambda>out b. \<exists>ap ce. TransferTxConfEvent pkg = Some ce \<and> b = [ap] \<and>
                                      outputSealed p w w' fi mi ce out ap)
            (filter (\<lambda>out. out_Type out \<noteq> TypePassiveAssetsOnly) (Outputs parcel)) actives"
      using a(3) by simp
    then show ?thesis
      by (intro impI, elim list_all2_mono)
         (auto simp: outputSealed_def confParams_def c)
  qed
  show ?thesis using a(1) 1 2 by blast
qed


text \<open>
  The theorem at the concrete parcel with its two inputs: each of the two sealed proofs
  has one additional input, the archived file of the second input \<open>K4\<close>.
\<close>

theorem storeProofs_additional_inputs_witness:
  "list_all2
     (\<lambda>out batch. \<exists>base sealed.
        batch = [\<lparr>Locator = \<lparr>loc_AssetID = ''A'', loc_ScriptKey = PubKey (out_ScriptKey out)\<rparr>,
                  Blob = FileBlob (base @ [sealed])\<rparr>] \<and>
        length (AdditionalInputs sealed) = 1 \<and>
        list_all2 (inputFile (demoPorter SelQuit None) world0
           (fst (storeProofs (demoPorter SelQuit None) world0 demoPkgConfirmed))) [\<lparr>in_ID = ''A'', in_ScriptKey = ''K4''\<rparr>]
          (AdditionalInputs sealed))
     (Outputs (demoParcel True))
     (tl (importBatches (newEvents world0
            (fst (storeProofs (demoPorter SelQuit None) world0 demoPkgConfirmed))))) \<and>
   map (map (\<lambda>ap. AdditionalInputs (last (blobFile (Blob ap)))))
     (tl (importBatches (newEvents world0
            (fst (storeProofs (demoPorter SelQuit None) world0 demoPkgConfirmed))))) =
     [[[[Proof ''K4'' None []]]], [[[Proof ''K4'' None []]]]]"
proof -
  let ?p = "demoPorter SelQuit None"
  let ?R = "storeProofs ?p world0 demoPkgConfirmed"
  have o: "OutboundPkg demoPkgConfirmed = Some (demoParcel True)" by code_simp
  have i: "Inputs (demoParcel True) =
             \<lparr>in_ID = ''A'', in_ScriptKey = ''K1''\<rparr> # [\<lparr>in_ID = ''A'', in_ScriptKey = ''K4''\<rparr>]"
    by code_simp
  have r: "snd (snd ?R) = None" by code_simp
  have s: "?R = (fst ?R, fst (snd ?R), None)" using r by (metis prod.collapse)
  have f: "filter (\<lambda>out. out_Type out \<noteq> TypePassiveAssetsOnly) (Outputs (demoParcel True)) =
             Outputs (demoParcel True)" by code_simp
  have d: "\<forall>out \<in> set (Outputs (demoParcel True)). \<forall>suffix.
             Proof_Decode (ProofSuffix out) = Inr suffix \<longrightarrow> AdditionalInputs suffix = []"
    by (simp add: demoParcel_def demoOutputs_def Proof_Decode_def)
  have e: "map (map (\<lambda>ap. AdditionalInputs (last (blobFile (Blob ap)))))
     (tl (importBatches (newEvents world0 (fst ?R)))) =
     [[[[Proof ''K4'' None []]]], [[[Proof ''K4'' None []]]]]" by code_simp
  have "list_all2
     (\<lambda>out batch. \<exists>base sealed.
        batch = [\<lparr>Locator = \<lparr>loc_AssetID = ''A'', loc_ScriptKey = PubKey (out_ScriptKey out)\<rparr>,
                  Blob = FileBlob (base @ [sealed])\<rparr>] \<and>
        length (AdditionalInputs sealed) = 1 \<and>
        list_all2 (inputFile ?p world0 (fst ?R)) [\<lparr>in_ID = ''A'', in_ScriptKey = ''K4''\<rparr>]
          (AdditionalInputs sealed))
     (Outputs (demoParcel True)) (tl (importBatches (newEvents world0 (fst ?R))))"
  proof (rule list.rel_mono_strong[OF storeProofs_additional_inputs[OF s o i, THEN conjunct1,
                                          unfolded f]])
    fix out batch
    assume m: "out \<in> set (Outputs (demoParcel True))"
      and h: "\<exists>suffix base sealed.
              Proof_Decode (ProofSuffix out) = Inr suffix \<and>
              batch = [\<lparr>Locator = \<lparr>loc_AssetID = in_ID \<lparr>in_ID = ''A'', in_ScriptKey = ''K1''\<rparr>,
                                    loc_ScriptKey = PubKey (out_ScriptKey out)\<rparr>,
                        Blob = FileBlob (base @ [sealed])\<rparr>] \<and>
              inputFile ?p world0 (fst ?R) \<lparr>in_ID = ''A'', in_ScriptKey = ''K1''\<rparr> base \<and>
              (\<exists>extra. AdditionalInputs sealed = AdditionalInputs suffix @ extra \<and>
                       length extra = length (Inputs (demoParcel True)) - 1 \<and>
                       list_all2 (inputFile ?p world0 (fst ?R)) (tl (Inputs (demoParcel True))) extra) \<and>
              (AdditionalInputs suffix = [] \<longrightarrow>
                 length (AdditionalInputs sealed) = length (Inputs (demoParcel True)) - 1 \<and>
                 list_all2 (inputFile ?p world0 (fst ?R)) (tl (Inputs (demoParcel True))) (AdditionalInputs sealed))"
    show "\<exists>base sealed.
        batch = [\<lparr>Locator = \<lparr>loc_AssetID = ''A'', loc_ScriptKey = PubKey (out_ScriptKey out)\<rparr>,
                  Blob = FileBlob (base @ [sealed])\<rparr>] \<and>
        length (AdditionalInputs sealed) = 1 \<and>
        list_all2 (inputFile ?p world0 (fst ?R)) [\<lparr>in_ID = ''A'', in_ScriptKey = ''K4''\<rparr>]
          (AdditionalInputs sealed)"
      using h d m unfolding i by fastforce
  qed
  then show ?thesis using e by simp
qed

text \<open>
  C5 as the claim states it fails: \<^verbatim>\<open>storeProofs\<close> appends to the additional inputs
  that the decoded suffix already has (lines 404-407). At a parcel with one input whose
  stored suffix carries one additional input, the sealed proof has one entry in its
  additional-inputs list, not \<open>n - 1 = 0\<close>.
\<close>

theorem storeProofs_additional_inputs_counterexample:
  "OutboundPkg mergedSuffixPkg = Some mergedSuffixParcel \<and>
   length (Inputs mergedSuffixParcel) = 1 \<and>
   snd (snd (storeProofs (demoPorter SelQuit None) world0 mergedSuffixPkg)) = None \<and>
   tl (importBatches (trace (fst (storeProofs (demoPorter SelQuit None) world0 mergedSuffixPkg)))) =
     [[\<lparr>Locator = \<lparr>loc_AssetID = ''A'', loc_ScriptKey = ''K2''\<rparr>,
        Blob = FileBlob [Proof ''K1'' None [],
                         Proof ''K2'' (Some (confParams demoConf)) [[Proof ''K9'' None []]]]\<rparr>]] \<and>
   length (AdditionalInputs (last (blobFile (Blob (snd (hd (FinalProofs
      (fst (snd (storeProofs (demoPorter SelQuit None) world0 mergedSuffixPkg)))))))))) = 1"
  by code_simp

text \<open>The theorem at the concrete parcel: one passive file and two sealed output files.\<close>

theorem storeProofs_confirmation_data_witness:
  "(\<exists>batch actives.
     importBatches (newEvents world0
        (fst (storeProofs (demoPorter SelQuit None) world0 demoPkgConfirmed))) = batch # actives \<and>
     list_all2 (\<lambda>passiveAsset ap. \<exists>fl. Blob ap = FileBlob fl \<and> fl \<noteq> [] \<and>
                  proof_ScriptKey (last fl) = proof_ScriptKey (NewProof passiveAsset) \<and>
                  proof_ChainData (last fl) =
                    Some \<lparr>bp_Block = ''block'', bp_Tx = demoAnchorTx, bp_TxIndex = 2\<rparr>)
       demoPassive batch \<and>
     list_all2 (\<lambda>out b. \<exists>ap fl suffix. b = [ap] \<and> Blob ap = FileBlob fl \<and> fl \<noteq> [] \<and>
                     Proof_Decode (ProofSuffix out) = Inr suffix \<and>
                     proof_ScriptKey (last fl) = proof_ScriptKey suffix \<and>
                     proof_ChainData (last fl) =
                       Some \<lparr>bp_Block = ''block'', bp_Tx = demoAnchorTx, bp_TxIndex = 2\<rparr>)
          (Outputs (demoParcel True)) actives) \<and>
   map (map (\<lambda>ap. proof_ChainData (last (blobFile (Blob ap)))))
     (importBatches (newEvents world0
        (fst (storeProofs (demoPorter SelQuit None) world0 demoPkgConfirmed)))) =
     [[Some \<lparr>bp_Block = ''block'', bp_Tx = demoAnchorTx, bp_TxIndex = 2\<rparr>],
      [Some \<lparr>bp_Block = ''block'', bp_Tx = demoAnchorTx, bp_TxIndex = 2\<rparr>],
      [Some \<lparr>bp_Block = ''block'', bp_Tx = demoAnchorTx, bp_TxIndex = 2\<rparr>]]"
proof -
  let ?p = "demoPorter SelQuit None"
  let ?R = "storeProofs ?p world0 demoPkgConfirmed"
  have o: "OutboundPkg demoPkgConfirmed = Some (demoParcel True)" by code_simp
  have c: "TransferTxConfEvent demoPkgConfirmed = Some demoConf" by code_simp
  have r: "snd (snd ?R) = None" by code_simp
  have s: "?R = (fst ?R, fst (snd ?R), None)" using r by (metis prod.collapse)
  have f: "filter (\<lambda>out. out_Type out \<noteq> TypePassiveAssetsOnly) (Outputs (demoParcel True)) =
             Outputs (demoParcel True)" by code_simp
  have i: "Inputs (demoParcel True) \<noteq> []" by code_simp
  have q: "PassiveAssets demoPkgConfirmed = demoPassive" by code_simp
  have v: "conf_Block demoConf = ''block''" "conf_Tx demoConf = demoAnchorTx"
    "uint (conf_TxIndex demoConf) = 2"
    by (simp_all add: demoConf_def)
  have e: "map (map (\<lambda>ap. proof_ChainData (last (blobFile (Blob ap)))))
     (importBatches (newEvents world0 (fst ?R))) =
     [[Some \<lparr>bp_Block = ''block'', bp_Tx = demoAnchorTx, bp_TxIndex = 2\<rparr>],
      [Some \<lparr>bp_Block = ''block'', bp_Tx = demoAnchorTx, bp_TxIndex = 2\<rparr>],
      [Some \<lparr>bp_Block = ''block'', bp_Tx = demoAnchorTx, bp_TxIndex = 2\<rparr>]]" by code_simp
  show ?thesis
    using storeProofs_confirmation_data[OF s o c, unfolded f q v] i e by simp
qed

subsection \<open>C3 and C1: the driver\<close>

lemma advanceState_cases:
  assumes "advanceState p w pkg = (w', pkg', r)"
  obtains
    (finished) "\<not> SendState pkg < SendStateComplete" "w' = w" "pkg' = pkg" "r = None"
  | (quit) "SendState pkg < SendStateComplete" "quitClosed p w" "w' = w\<lparr>quitSeen := True\<rparr>"
      "pkg' = pkg" "r = None"
  | (failed) w1 u err where "SendState pkg < SendStateComplete" "\<not> quitClosed p w"
      "stateStep p w pkg = (w1, u, Some err)"
      "w' = (if isPanic err then w1 else emit (EvErrChan err) w1)" "pkg' = pkg" "r = Some err"
  | (nopkg) w1 where "SendState pkg < SendStateComplete" "\<not> quitClosed p w"
      "stateStep p w pkg = (w1, None, None)" "w' = w1" "pkg' = pkg" "r \<noteq> None"
  | (stepped) w1 updatedPkg where "SendState pkg < SendStateComplete" "\<not> quitClosed p w"
      "stateStep p w pkg = (w1, Some updatedPkg, None)"
      "advanceState p w1 updatedPkg = (w', pkg', r)"
proof -
  obtain w1 u e where s: "stateStep p w pkg = (w1, u, e)"
    by (cases "stateStep p w pkg") auto
  show ?thesis
    using assms s that
    by (subst (asm) advanceState.simps)
       (auto split: if_splits option.splits)
qed

lemma advanceState_stateLog:
  "advanceState p w pkg = (w', pkg', r) \<Longrightarrow>
     \<exists>new. stateLog w' = stateLog w @ new \<and> sorted_wrt (<) (SendState pkg # new) \<and>
           (r = None \<longrightarrow> SendState pkg' = last (SendState pkg # new))"
proof (induction p w pkg arbitrary: w' pkg' r rule: advanceState.induct)
  case (1 p w pkg)
  from "1.prems" show ?case
  proof (cases rule: advanceState_cases)
    case finished
    then show ?thesis by simp
  next
    case quit
    then show ?thesis by simp
  next
    case (failed w1 u err)
    then show ?thesis using stateStep_log[OF failed(3)] by (auto split: if_splits)
  next
    case (nopkg w1)
    then show ?thesis using stateStep_log[OF nopkg(3)] by auto
  next
    case (stepped w1 updatedPkg)
    from "1.IH"[OF stepped(1,2) stepped(3)[symmetric] refl refl refl stepped(4)]
    obtain new where n: "stateLog w' = stateLog w1 @ new"
      "sorted_wrt (<) (SendState updatedPkg # new)"
      "r = None \<longrightarrow> SendState pkg' = last (SendState updatedPkg # new)"
      by blast
    from stateStep_log[OF stepped(3)] show ?thesis
    proof
      assume a: "None = None \<and> SendState pkg < SendStateComplete \<and>
          (\<exists>pkg'. Some updatedPkg = Some pkg' \<and> SendState pkg' = Suc (SendState pkg)) \<and>
          stateLog w1 = stateLog w @ [Suc (SendState pkg)] \<and> quitSeen w1 = quitSeen w"
      then have "sorted_wrt (<) (SendState pkg # Suc (SendState pkg) # new)"
        using n(2) by auto
      then show ?thesis using a n
        by (intro exI[of _ "Suc (SendState pkg) # new"]) auto
    next
      assume "stateLog w1 = stateLog w \<and> (None = None \<longrightarrow> quitSeen w1 \<and> Some updatedPkg = Some pkg)"
      then show ?thesis using n by (intro exI[of _ new]) auto
    qed
  qed
qed

text \<open>
  C3. In every run of the driver the values assigned to the \<^verbatim>\<open>SendState\<close> field, taken
  after the state the package came with, are strictly increasing in the order
  \<open>VirtualCommitmentSelect < VirtualSign < AnchorSign < LogCommit < Broadcast < WaitTxConf <
  StoreProofs < ReceiverProofTransfer < Complete\<close>; when the driver returns nil, the state
  of the package it ends with is the last of them. And every single step of the state
  machine assigns only values above the state of the package it is given; the state of
  the package a step returns without error is the last value it assigned, or the state
  it was given when it assigned none.
\<close>

theorem advanceState_SendState_increasing:
  assumes "advanceState p w pkg = (w', pkg', r)"
  shows "sorted_wrt (<) (SendState pkg # assigned w w') \<and>
         (r = None \<longrightarrow> SendState pkg' = last (SendState pkg # assigned w w')) \<and>
         (\<forall>v u v1 x e. stateStep p v u = (v1, x, e) \<longrightarrow>
            list_all (\<lambda>s. SendState u < s) (assigned v v1) \<and>
            (\<forall>u1. x = Some u1 \<and> e = None \<longrightarrow> SendState u1 = last (SendState u # assigned v v1)))"
proof -
  from advanceState_stateLog[OF assms] obtain new where
    n: "stateLog w' = stateLog w @ new" "sorted_wrt (<) (SendState pkg # new)"
       "r = None \<longrightarrow> SendState pkg' = last (SendState pkg # new)"
    by blast
  have a: "assigned w w' = new" using n(1) by (simp add: assigned_def)
  have s: "list_all (\<lambda>s. SendState u < s) (assigned v v1) \<and>
            (\<forall>u1. x = Some u1 \<and> e = None \<longrightarrow> SendState u1 = last (SendState u # assigned v v1))"
    if "stateStep p v u = (v1, x, e)" for v u v1 x e
    using stateStep_log[OF that] by (auto simp: assigned_def)
  show ?thesis
  proof (intro conjI allI impI)
    show "sorted_wrt (<) (SendState pkg # assigned w w')" using n(2) a by simp
    show "SendState pkg' = last (SendState pkg # assigned w w')" if "r = None"
      using n(3) a that by simp
    show "list_all (\<lambda>s. SendState u < s) (assigned v v1)"
      if "stateStep p v u = (v1, x, e)" for v u v1 x e
      using s[OF that] by simp
    show "SendState u1 = last (SendState u # assigned v v1)"
      if "stateStep p v u = (v1, x, e)" "x = Some u1 \<and> e = None" for v u v1 x e u1
      using s[OF that(1)] that(2) by simp
  qed
qed

text \<open>
  The theorem at the concrete parcel, driven from \<^verbatim>\<open>SendStateVirtualCommitmentSelect\<close>
  to \<^verbatim>\<open>SendStateComplete\<close>: the states assigned are 1 to 8 in turn.
\<close>

theorem advanceState_SendState_increasing_witness:
  "sorted_wrt (<) (SendState (demoPkg SendStateVirtualCommitmentSelect) #
      assigned world0 (fst (advanceState
         (demoPorter (SelConfirmed (Some demoConf)) (Some (demoCourier None))) world0
         (demoPkg SendStateVirtualCommitmentSelect)))) \<and>
   SendState (fst (snd (advanceState
         (demoPorter (SelConfirmed (Some demoConf)) (Some (demoCourier None))) world0
         (demoPkg SendStateVirtualCommitmentSelect)))) = SendStateComplete \<and>
   assigned world0 (fst (advanceState
         (demoPorter (SelConfirmed (Some demoConf)) (Some (demoCourier None))) world0
         (demoPkg SendStateVirtualCommitmentSelect))) = [1, 2, 3, 4, 5, 6, 7, 8]"
proof -
  let ?p = "demoPorter (SelConfirmed (Some demoConf)) (Some (demoCourier None))"
  let ?R = "advanceState ?p world0 (demoPkg SendStateVirtualCommitmentSelect)"
  have r: "snd (snd ?R) = None" by code_simp
  have s: "?R = (fst ?R, fst (snd ?R), None)" using r by (metis prod.collapse)
  have e: "assigned world0 (fst ?R) = [1, 2, 3, 4, 5, 6, 7, 8]" by code_simp
  note T = advanceState_SendState_increasing[OF s]
  have 1: "sorted_wrt (<) (SendState (demoPkg SendStateVirtualCommitmentSelect) # assigned world0 (fst ?R))"
    by (rule T[THEN conjunct1])
  have 2: "SendState (fst (snd ?R)) = last (SendState (demoPkg SendStateVirtualCommitmentSelect) # assigned world0 (fst ?R))"
    by (rule T[THEN conjunct2, THEN conjunct1, rule_format, OF refl])
  have 3: "SendState (fst (snd ?R)) = SendStateComplete"
    unfolding 2 e by simp
  show ?thesis using 1 3 e by blast
qed


lemma journalAfter_append:
  "journalAfter J (a @ b) = journalAfter (journalAfter J a) b"
  by (induction J a rule: journalAfter.induct) simp_all

lemma journalBeforeBroadcast_append:
  "journalBeforeBroadcast J (a @ b) =
     (journalBeforeBroadcast J a \<and> journalBeforeBroadcast (journalAfter J a) b)"
  by (induction J a rule: journalBeforeBroadcast.induct) simp_all

lemma quiet_journal:
  "list_all quietEvent evs \<Longrightarrow> journalBeforeBroadcast J evs \<and> journalAfter J evs = J"
proof (induction evs)
  case Nil
  show ?case by simp
next
  case (Cons ev evs)
  then show ?case by (cases ev) simp_all
qed

text \<open>
  The package is journalled, from \<open>J\<close>: it has not reached the Broadcast state, or the
  anchor transaction of its outbound parcel is in \<open>J\<close>.
\<close>

lemma stateStep_journal:
  assumes s: "stateStep p w pkg = (w', u, e)"
    and inv: "SendState pkg \<le> SendStateLogCommit \<or>
              (\<exists>parcel. OutboundPkg pkg = Some parcel \<and> op_AnchorTx parcel \<in> set J)"
  shows "\<exists>evs. trace w' = trace w @ evs \<and> journalBeforeBroadcast J evs \<and>
           (\<forall>pkg1. u = Some pkg1 \<and> e = None \<longrightarrow>
              SendState pkg1 \<le> SendStateLogCommit \<or>
              (\<exists>parcel. OutboundPkg pkg1 = Some parcel \<and>
                        op_AnchorTx parcel \<in> set (journalAfter J evs)))"
proof -
  let ?ev = "EvExecuteSendState (SendState pkg)"
  let ?w = "emit ?ev w"
  have pre: "\<exists>evs. trace w' = trace w @ evs \<and> journalBeforeBroadcast J evs \<and>
           (\<forall>pkg1. u = Some pkg1 \<and> e = None \<longrightarrow>
              SendState pkg1 \<le> SendStateLogCommit \<or>
              (\<exists>parcel. OutboundPkg pkg1 = Some parcel \<and>
                        op_AnchorTx parcel \<in> set (journalAfter J evs)))"
    if q: "trace w' = trace ?w @ evs" "list_all quietEvent evs"
      and k: "\<forall>pkg1. u = Some pkg1 \<and> e = None \<longrightarrow>
              SendState pkg1 \<le> SendStateLogCommit \<or> OutboundPkg pkg1 = OutboundPkg pkg \<and>
              SendStateLogCommit < SendState pkg"
    for evs
  proof -
    have "list_all quietEvent (?ev # evs)" using q(2) by simp
    from quiet_journal[OF this, of J] show ?thesis
      using q(1) k inv by (intro exI[of _ "?ev # evs"]) auto
  qed
  consider "SendState pkg = 0" | "SendState pkg = 1" | "SendState pkg = 2" | "SendState pkg = 3"
    | "SendState pkg = 4" | "SendState pkg = 5" | "SendState pkg = 6" | "SendState pkg = 7"
    | "SendState pkg \<ge> 8" by linarith
  then show ?thesis
  proof cases
    case 1
    then have "\<exists>evs. trace w' = trace ?w @ evs \<and> list_all quietEvent evs \<and>
        (\<forall>pkg1. u = Some pkg1 \<and> e = None \<longrightarrow> SendState pkg1 \<le> SendStateLogCommit)"
      using s
      by (auto simp: stateStep_def Let_def setSendState_eq
               split: option.splits sum.splits Parcel.splits)
    then show ?thesis using pre by blast
  next
    case 2
    then have "\<exists>evs. trace w' = trace ?w @ evs \<and> list_all quietEvent evs \<and>
        (\<forall>pkg1. u = Some pkg1 \<and> e = None \<longrightarrow> SendState pkg1 \<le> SendStateLogCommit)"
      using s
      by (auto simp: stateStep_def Let_def setSendState_eq
               split: option.splits sum.splits if_splits)
    then show ?thesis using pre by blast
  next
    case 3
    then have "\<exists>evs. trace w' = trace ?w @ evs \<and> list_all quietEvent evs \<and>
        (\<forall>pkg1. u = Some pkg1 \<and> e = None \<longrightarrow> SendState pkg1 \<le> SendStateLogCommit)"
      using s
      by (auto simp: stateStep_def Let_def setSendState_eq
               split: option.splits sum.splits)
    then show ?thesis using pre by blast
  next
    case 4
    show ?thesis
    proof (cases "\<exists>parcel r. trace w' = trace ?w @ [EvLogPendingParcel parcel r] \<and>
             (e = None \<longrightarrow> r = None \<and> (\<exists>pkg1. u = Some pkg1 \<and> OutboundPkg pkg1 = Some parcel))")
      case True
      then obtain parcel r where
        t: "trace w' = trace ?w @ [EvLogPendingParcel parcel r]"
           "e = None \<longrightarrow> r = None \<and> (\<exists>pkg1. u = Some pkg1 \<and> OutboundPkg pkg1 = Some parcel)"
        by blast
      show ?thesis using t
        by (intro exI[of _ "[?ev, EvLogPendingParcel parcel r]"]) auto
    next
      case False
      then have "trace w' = trace ?w \<and> e \<noteq> None"
        using s 4
        by (auto simp: stateStep_def Let_def setSendState_eq
                 split: option.splits sum.splits)
      then show ?thesis by (intro exI[of _ "[?ev]"]) auto
    qed
  next
    case 5
    from inv 5 obtain parcel where
      o: "OutboundPkg pkg = Some parcel" "op_AnchorTx parcel \<in> set J" by auto
    obtain w1 r1 where i: "importLocalAddresses p (OutboundPkg pkg) ?w = (w1, r1)"
      by (cases "importLocalAddresses p (OutboundPkg pkg) ?w")
    have "quietly ?w w1" using i o importLocalAddresses_loop_quietly
      by (auto simp: importLocalAddresses_def)
    then obtain evs1 where
      e1: "trace w1 = trace ?w @ evs1" "list_all quietEvent evs1"
      by (auto simp: quietly_iff)
    note j1 = quiet_journal[OF e1(2), of J]
    show ?thesis
    proof (cases r1)
      case (Some err)
      then have "w' = w1" using s 5 i by (auto simp: stateStep_def Let_def)
      then show ?thesis using e1 pre[of evs1] Some s 5 i
        by (auto simp: stateStep_def Let_def)
    next
      case None
      let ?pub = "EvPublishTransaction (op_AnchorTx parcel)"
      have c: "(trace w' = trace w1 @ [?pub] \<and> e \<noteq> None) \<or>
               (trace w' = trace w1 @ [?pub, EvDeliverTxBroadcastResp] \<and>
                (\<forall>pkg1. u = Some pkg1 \<longrightarrow> OutboundPkg pkg1 = Some parcel))"
        using s 5 i None o
        by (auto simp: stateStep_def Let_def setSendState_eq split: option.splits) metis+
      then show ?thesis
      proof
        assume a: "trace w' = trace w1 @ [?pub] \<and> e \<noteq> None"
        show ?thesis using a e1 j1 o
          by (intro exI[of _ "?ev # evs1 @ [?pub]"])
             (auto simp: journalBeforeBroadcast_append)
      next
        assume a: "trace w' = trace w1 @ [?pub, EvDeliverTxBroadcastResp] \<and>
                (\<forall>pkg1. u = Some pkg1 \<longrightarrow> OutboundPkg pkg1 = Some parcel)"
        show ?thesis using a e1 j1 o
          by (intro exI[of _ "?ev # evs1 @ [?pub, EvDeliverTxBroadcastResp]"])
             (auto simp: journalBeforeBroadcast_append journalAfter_append)
      qed
    qed
  next
    case 6
    obtain w1 pkg1 e1 where x: "waitForTransferTxConf p ?w pkg = (w1, pkg1, e1)"
      by (cases "waitForTransferTxConf p ?w pkg") auto
    have r: "w' = w1" "u = Some pkg1" "e = e1"
      using s 6 x by (auto simp: stateStep_def Let_def)
    from waitForTransferTxConf_spec[OF x] obtain evs where
      y: "trace w1 = trace ?w @ evs" "list_all quietEvent evs"
         "OutboundPkg pkg1 = OutboundPkg pkg" by (auto simp: advanced_def)
    show ?thesis using pre[of evs] y r 6 by simp
  next
    case 7
    obtain w1 pkg1 e1 where x: "storeProofs p ?w pkg = (w1, pkg1, e1)"
      by (cases "storeProofs p ?w pkg") auto
    have r: "w' = w1" "u = Some pkg1" "e = e1"
      using s 7 x by (auto simp: stateStep_def Let_def)
    from storeProofs_spec[OF x] obtain evs where
      y: "trace w1 = trace ?w @ evs" "list_all quietEvent evs"
         "e1 = None \<longrightarrow> OutboundPkg pkg1 = OutboundPkg pkg" by (auto simp: advanced_def)
    show ?thesis using pre[of evs] y r 7 by simp
  next
    case 8
    obtain w1 pkg1 e1 where x: "transferReceiverProof p ?w pkg = (w1, pkg1, e1)"
      by (cases "transferReceiverProof p ?w pkg") auto
    have r: "w' = w1" "u = Some pkg1" "e = e1"
      using s 8 x by (auto simp: stateStep_def Let_def)
    from transferReceiverProof_spec[OF x] obtain evs where
      y: "trace w1 = trace ?w @ evs" "list_all quietEvent evs"
         "e1 = None \<longrightarrow> OutboundPkg pkg1 = OutboundPkg pkg" by (auto simp: advanced_def)
    show ?thesis using pre[of evs] y r 8 by simp
  next
    case 9
    then have "trace w' = trace ?w \<and> e \<noteq> None"
      using s by (auto simp: stateStep_def Let_def)
    then show ?thesis by (intro exI[of _ "[?ev]"]) auto
  qed
qed


lemma advanceState_journal:
  "advanceState p w pkg = (w', pkg', r) \<Longrightarrow>
   SendState pkg \<le> SendStateLogCommit \<or>
     (\<exists>parcel. OutboundPkg pkg = Some parcel \<and> op_AnchorTx parcel \<in> set J) \<Longrightarrow>
   \<exists>evs. trace w' = trace w @ evs \<and> journalBeforeBroadcast J evs"
proof (induction p w pkg arbitrary: w' pkg' r J rule: advanceState.induct)
  case (1 p w pkg)
  from "1.prems"(1) show ?case
  proof (cases rule: advanceState_cases)
    case finished
    then show ?thesis by simp
  next
    case quit
    then show ?thesis by simp
  next
    case (failed w1 u err)
    from stateStep_journal[OF failed(3) "1.prems"(2)] obtain evs where
      e: "trace w1 = trace w @ evs" "journalBeforeBroadcast J evs" by blast
    show ?thesis
    proof (cases "isPanic err")
      case True
      then show ?thesis using failed(4) e by auto
    next
      case False
      then show ?thesis using failed(4) e
        by (intro exI[of _ "evs @ [EvErrChan err]"])
           (simp add: journalBeforeBroadcast_append)
    qed
  next
    case (nopkg w1)
    from stateStep_journal[OF nopkg(3) "1.prems"(2)] show ?thesis using nopkg(4) by blast
  next
    case (stepped w1 updatedPkg)
    from stateStep_journal[OF stepped(3) "1.prems"(2)] obtain evs1 where
      e: "trace w1 = trace w @ evs1" "journalBeforeBroadcast J evs1"
         "SendState updatedPkg \<le> SendStateLogCommit \<or>
          (\<exists>parcel. OutboundPkg updatedPkg = Some parcel \<and>
                    op_AnchorTx parcel \<in> set (journalAfter J evs1))"
      by blast
    from "1.IH"[OF stepped(1,2) stepped(3)[symmetric] refl refl refl stepped(4) e(3)]
    obtain evs2 where
      f: "trace w' = trace w1 @ evs2" "journalBeforeBroadcast (journalAfter J evs1) evs2"
      by blast
    show ?thesis using e(1,2) f
      by (intro exI[of _ "evs1 @ evs2"]) (simp add: journalBeforeBroadcast_append)
  qed
qed

text \<open>
  C1. In a run of the driver on a package that enters at or before the LogCommit state,
  every \<^verbatim>\<open>PublishTransaction\<close> is for the anchor transaction of a parcel that an
  earlier \<^verbatim>\<open>LogPendingParcel\<close> of the same run has written with success. In the run
  that resumes a pending parcel, which enters at the Broadcast state with a parcel that
  the journal itself returned, every \<^verbatim>\<open>PublishTransaction\<close> is for the anchor
  transaction of a parcel of the journal (or of one written earlier in the run).
\<close>

theorem journal_before_broadcast:
  "(SendState pkg \<le> SendStateLogCommit \<longrightarrow>
      journalBeforeBroadcast [] (newEvents w (fst (advanceState p w pkg)))) \<and>
   (parcel \<in> set pendingParcels \<longrightarrow>
      journalBeforeBroadcast (map op_AnchorTx pendingParcels)
        (newEvents w (fst (resumePendingParcel p w parcel))))"
proof (intro conjI impI)
  assume a: "SendState pkg \<le> SendStateLogCommit"
  obtain w' pkg' r where s: "advanceState p w pkg = (w', pkg', r)"
    by (cases "advanceState p w pkg") auto
  from advanceState_journal[OF s, of "[]"] a obtain evs where
    "trace w' = trace w @ evs" "journalBeforeBroadcast [] evs" by blast
  then show "journalBeforeBroadcast [] (newEvents w (fst (advanceState p w pkg)))"
    using s by (simp add: newEvents_def)
next
  assume a: "parcel \<in> set pendingParcels"
  let ?pkg = "\<lparr>SendState = SendStateBroadcast, Parcel = None, VirtualPacket = None,
        InputCommitments = [], PassiveAssets = [], AnchorTx = None,
        OutboundPkg = Some parcel, TransferTxConfEvent = None, FinalProofs = []\<rparr>"
  obtain w' pkg' r where s: "advanceState p w ?pkg = (w', pkg', r)"
    by (cases "advanceState p w ?pkg") auto
  have "SendState ?pkg \<le> SendStateLogCommit \<or>
     (\<exists>pc. OutboundPkg ?pkg = Some pc \<and> op_AnchorTx pc \<in> set (map op_AnchorTx pendingParcels))"
    using a by simp
  from advanceState_journal[OF s this] obtain evs where
    "trace w' = trace w @ evs" "journalBeforeBroadcast (map op_AnchorTx pendingParcels) evs"
    by blast
  then show "journalBeforeBroadcast (map op_AnchorTx pendingParcels)
        (newEvents w (fst (resumePendingParcel p w parcel)))"
    using s by (simp add: newEvents_def resumePendingParcel_def)
qed

text \<open>
  The theorem at the concrete parcel: in the full run the journal write comes before the
  one broadcast; the resumed run broadcasts the anchor transaction of the pending
  parcel and writes nothing.
\<close>

theorem journal_before_broadcast_witness:
  "journalBeforeBroadcast []
     (newEvents world0 (fst (advanceState
        (demoPorter (SelConfirmed (Some demoConf)) (Some (demoCourier None))) world0
        (demoPkg SendStateVirtualCommitmentSelect)))) \<and>
   filter (\<lambda>ev. \<not> quietEvent ev)
     (newEvents world0 (fst (advanceState
        (demoPorter (SelConfirmed (Some demoConf)) (Some (demoCourier None))) world0
        (demoPkg SendStateVirtualCommitmentSelect)))) =
     [EvLogPendingParcel (demoParcel True) None, EvPublishTransaction demoAnchorTx] \<and>
   journalBeforeBroadcast (map op_AnchorTx [demoParcel True])
     (newEvents world0 (fst (resumePendingParcel
        (demoPorter (SelConfirmed (Some demoConf)) (Some (demoCourier None))) world0
        (demoParcel True)))) \<and>
   filter (\<lambda>ev. \<not> quietEvent ev)
     (newEvents world0 (fst (resumePendingParcel
        (demoPorter (SelConfirmed (Some demoConf)) (Some (demoCourier None))) world0
        (demoParcel True)))) = [EvPublishTransaction demoAnchorTx]"
proof -
  let ?p = "demoPorter (SelConfirmed (Some demoConf)) (Some (demoCourier None))"
  note T = journal_before_broadcast[of "demoPkg SendStateVirtualCommitmentSelect" world0 ?p
             "demoParcel True" "[demoParcel True]"]
  have a: "SendState (demoPkg SendStateVirtualCommitmentSelect) \<le> SendStateLogCommit"
    by (simp add: demoPkg_def)
  have b: "demoParcel True \<in> set [demoParcel True]" by simp
  have 1: "journalBeforeBroadcast []
     (newEvents world0 (fst (advanceState ?p world0 (demoPkg SendStateVirtualCommitmentSelect))))"
    by (rule T[THEN conjunct1, rule_format, OF a])
  have 2: "journalBeforeBroadcast (map op_AnchorTx [demoParcel True])
     (newEvents world0 (fst (resumePendingParcel ?p world0 (demoParcel True))))"
    by (rule T[THEN conjunct2, rule_format, OF b])
  have 3: "filter (\<lambda>ev. \<not> quietEvent ev)
     (newEvents world0 (fst (advanceState ?p world0 (demoPkg SendStateVirtualCommitmentSelect)))) =
     [EvLogPendingParcel (demoParcel True) None, EvPublishTransaction demoAnchorTx]"
    by code_simp
  have 4: "filter (\<lambda>ev. \<not> quietEvent ev)
     (newEvents world0 (fst (resumePendingParcel ?p world0 (demoParcel True)))) =
     [EvPublishTransaction demoAnchorTx]"
    by code_simp
  show ?thesis using 1 2 3 4 by blast
qed

end
